(* ===== verification/Prelude.thy ===== *)
theory Prelude
  imports Main "HOL-Library.While_Combinator"
begin

text \<open>
  Shared vocabulary of the development: the Python built-ins on strings and lists that the
  sources of the repository call (\<open>str.strip\<close>, \<open>str.rstrip\<close>, \<open>str.split\<close>,
  \<open>str.join\<close>, \<open>str.replace\<close>, \<open>str.lower\<close>, \<open>str(int)\<close> and the format
  \<open>{i:05d}\<close>, list indexing and slicing, \<open>dict.get\<close> and \<open>r[k]\<close>, \<open>zip\<close>),
  the Python exceptions as values and their propagation (\<open>py_bind\<close>), the shape of a
  Chroma query result, and the generic lemmas about them that the component theories share. A Python \<open>str\<close> is a
  \<^typ>\<open>string\<close>; a character is one \<^typ>\<open>char\<close>, so whitespace is the ASCII whitespace of
  \<open>str.isspace\<close> (the non-ASCII spaces U+0085, U+00A0 and the like are not modelled).
\<close>

named_theorems py_simps \<open>evaluation rules of the modelled Python built-ins\<close>

type_synonym line = string

subsection \<open>Python exceptions\<close>

datatype py_error =
    ValueError string
  | AssertionError
  | IndexError
  | KeyError string
  | JSONDecodeError
  | RuntimeError string
  | ImportError string
  | TypeError string
  | NameError string

subsection \<open>Whitespace and stripping\<close>

text \<open>The characters for which \<open>str.isspace\<close> holds, in the ASCII range.\<close>

definition py_whitespace :: "char list" where
  "py_whitespace = [CHR '' '', CHR 0x09, CHR 0x0A, CHR 0x0B, CHR 0x0C, CHR 0x0D,
                    CHR 0x1C, CHR 0x1D, CHR 0x1E, CHR 0x1F]"

definition is_space :: "char \<Rightarrow> bool" where
  "is_space c \<longleftrightarrow> c \<in> set py_whitespace"

definition py_lstrip :: "string \<Rightarrow> string" where
  "py_lstrip s = dropWhile is_space s"

definition py_rstrip :: "string \<Rightarrow> string" where
  "py_rstrip s = rev (dropWhile is_space (rev s))"

definition py_strip :: "string \<Rightarrow> string" where
  "py_strip s = py_rstrip (py_lstrip s)"

text \<open>A line is blank in the sense of \<open>ln.strip() == ""\<close>.\<close>

definition is_blank :: "string \<Rightarrow> bool" where
  "is_blank s \<longleftrightarrow> (\<forall>c \<in> set s. is_space c)"

subsection \<open>Splitting and joining\<close>

text \<open>\<open>s.split(d)\<close> for a one-character separator: always at least one piece.\<close>

fun split_on :: "char \<Rightarrow> string \<Rightarrow> string list" where
  "split_on d [] = [[]]"
| "split_on d (c # s) =
     (let ws = split_on d s in if c = d then [] # ws else (c # hd ws) # tl ws)"

text \<open>\<open>sep.join(xs)\<close>.\<close>

fun py_join :: "string \<Rightarrow> string list \<Rightarrow> string" where
  "py_join sep [] = []"
| "py_join sep [x] = x"
| "py_join sep (x # y # xs) = x @ sep @ py_join sep (y # xs)"

subsection \<open>Replacing\<close>

text \<open>
  \<open>s.replace(old, new)\<close>: a left-to-right scan replacing non-overlapping occurrences; an
  empty \<open>old\<close> inserts \<open>new\<close> before every character and at the end, as Python does.
\<close>

function py_replace :: "string \<Rightarrow> string \<Rightarrow> string \<Rightarrow> string" where
  "py_replace [] new s = new @ concat (map (\<lambda>c. c # new) s)"
| "py_replace (x # xs) new [] = []"
| "py_replace (x # xs) new (c # s) =
     (if take (length (x # xs)) (c # s) = x # xs
      then new @ py_replace (x # xs) new (drop (length xs) s)
      else c # py_replace (x # xs) new s)"
  by pat_completeness auto
termination
  by (relation "measure (\<lambda>(old, new, s). length s)") auto

subsection \<open>Lower case\<close>

definition py_lower_char :: "char \<Rightarrow> char" where
  "py_lower_char c =
     (case map_of (zip ''ABCDEFGHIJKLMNOPQRSTUVWXYZ'' ''abcdefghijklmnopqrstuvwxyz'') c of
        Some l \<Rightarrow> l
      | None \<Rightarrow> c)"

definition py_lower :: "string \<Rightarrow> string" where
  "py_lower s = map py_lower_char s"

subsection \<open>Decimal numbers\<close>

definition digit_char :: "nat \<Rightarrow> char" where
  "digit_char d = ''0123456789'' ! d"

text \<open>\<open>str(n)\<close> for \<open>n \<ge> 0\<close>.\<close>

fun nat_str :: "nat \<Rightarrow> string" where
  "nat_str n = (if n < 10 then [digit_char n] else nat_str (n div 10) @ [digit_char (n mod 10)])"

declare nat_str.simps [simp del]

text \<open>\<open>str(i)\<close> for a Python \<open>int\<close>.\<close>

definition int_str :: "int \<Rightarrow> string" where
  "int_str i = (if i < 0 then CHR ''-'' # nat_str (nat (- i)) else nat_str (nat i))"

text \<open>\<open>f"{n:05d}"\<close>: the decimal digits, padded with zeros on the left to width 5.\<close>

definition pad5 :: "nat \<Rightarrow> string" where
  "pad5 n = replicate (5 - length (nat_str n)) (CHR ''0'') @ nat_str n"

definition is_digit :: "char \<Rightarrow> bool" where
  "is_digit c \<longleftrightarrow> c \<in> set ''0123456789''"

text \<open>The value of a string of decimal digits (\<open>int(s)\<close> on digits).\<close>

definition digits_val :: "string \<Rightarrow> nat" where
  "digits_val s = foldl (\<lambda>acc c. 10 * acc + (of_char c - 48)) 0 s"

subsection \<open>Indexing and slicing\<close>

text \<open>\<open>xs[i]\<close>: negative indices count from the end; out of range raises IndexError.\<close>

definition py_index :: "'a list \<Rightarrow> int \<Rightarrow> py_error + 'a" where
  "py_index xs i =
     (let k = (if 0 \<le> i then i else i + int (length xs))
      in if k < 0 \<or> int (length xs) \<le> k then Inl IndexError else Inr (xs ! nat k))"

text \<open>\<open>xs[i:j]\<close> for \<open>0 \<le> i\<close> and \<open>0 \<le> j\<close>: Python clamps, as take and drop do.\<close>

definition py_slice :: "'a list \<Rightarrow> nat \<Rightarrow> nat \<Rightarrow> 'a list" where
  "py_slice xs i j = take (j - i) (drop i xs)"

text \<open>
  \<open>xs[a:b]\<close> for any Python \<open>int\<close>s: a negative bound counts from the end, and both
  bounds are clamped to \<open>[0, len(xs)]\<close>.
\<close>

definition py_slice_bound :: "int \<Rightarrow> int \<Rightarrow> nat" where
  "py_slice_bound n k = nat (if k < 0 then max 0 (n + k) else min k n)"

definition py_slice_int :: "'a list \<Rightarrow> int \<Rightarrow> int \<Rightarrow> 'a list" where
  "py_slice_int xs a b =
     (let n = int (length xs); a' = py_slice_bound n a; b' = py_slice_bound n b
      in take (b' - a') (drop a' xs))"

subsection \<open>Dictionaries of strings and integers\<close>

text \<open>
  The records of the pipeline are Python dicts whose values are \<open>str\<close> or \<open>int\<close>; a
  dict is an association list in insertion order, as Python keeps it, with distinct keys.
  Assigning to a present key replaces its value in place; a new key goes to the end.
\<close>

datatype jval = JStr string | JInt int

type_synonym pydict = "(string \<times> jval) list"

definition dict_get :: "pydict \<Rightarrow> string \<Rightarrow> jval option" where
  "dict_get d k = map_of d k"

fun dict_set :: "pydict \<Rightarrow> string \<Rightarrow> jval \<Rightarrow> pydict" where
  "dict_set [] k v = [(k, v)]"
| "dict_set ((k', v') # d) k v = (if k' = k then (k, v) # d else (k', v') # dict_set d k v)"


subsection \<open>Raised exceptions\<close>

text \<open>Propagation of a raised exception through a sequence of statements.\<close>

definition py_bind :: "py_error + 'a \<Rightarrow> ('a \<Rightarrow> py_error + 'b) \<Rightarrow> py_error + 'b" where
  "py_bind x f = (case x of Inl e \<Rightarrow> Inl e | Inr a \<Rightarrow> f a)"

text \<open>A list comprehension \<open>[f(r) for r in rs]\<close> whose body may raise: the first exception
  ends it.\<close>

fun py_map_all :: "('a \<Rightarrow> py_error + 'b) \<Rightarrow> 'a list \<Rightarrow> py_error + 'b list" where
  "py_map_all f [] = Inr []"
| "py_map_all f (x # xs) =
     (case f x of
        Inl e \<Rightarrow> Inl e
      | Inr y \<Rightarrow> (case py_map_all f xs of Inl e \<Rightarrow> Inl e | Inr ys \<Rightarrow> Inr (y # ys)))"

text \<open>\<open>r[k]\<close> on a dict.\<close>

definition py_getitem :: "pydict \<Rightarrow> string \<Rightarrow> py_error + jval" where
  "py_getitem r k = (case dict_get r k of None \<Rightarrow> Inl (KeyError k) | Some v \<Rightarrow> Inr v)"

subsection \<open>Formatting values and reading metadata\<close>

text \<open>\<open>str(v)\<close>, as an f-string field \<open>{v}\<close> writes a JSON value.\<close>

fun py_str :: "jval \<Rightarrow> string" where
  "py_str (JStr s) = s"
| "py_str (JInt i) = int_str i"

text \<open>\<open>d.get(k, default)\<close>.\<close>

definition py_get_default :: "pydict \<Rightarrow> string \<Rightarrow> jval \<Rightarrow> jval" where
  "py_get_default d k dflt = (case dict_get d k of Some v \<Rightarrow> v | None \<Rightarrow> dflt)"

text \<open>\<open>zip(a, b, c, d)\<close>: as long as the shortest argument.\<close>

fun zip4 :: "'a list \<Rightarrow> 'b list \<Rightarrow> 'c list \<Rightarrow> 'd list \<Rightarrow> ('a \<times> 'b \<times> 'c \<times> 'd) list" where
  "zip4 (a # as) (b # bs) (c # cs) (d # ds) = (a, b, c, d) # zip4 as bs cs ds"
| "zip4 _ _ _ _ = []"

text \<open>
  The part of a Chroma \<open>collection.query(...)\<close> result for one query that the scripts read:
  \<open>res["ids"][0]\<close>, \<open>res["documents"][0]\<close>, \<open>res["metadatas"][0]\<close> and
  \<open>res["distances"][0]\<close>. The distances are floats, kept abstract as \<^typ>\<open>'d\<close>.
\<close>

record 'd query_result =
  res_ids :: "string list"
  res_docs :: "string list"
  res_metas :: "pydict list"
  res_dists :: "'d list"

text \<open>The lower-case hexadecimal digit of a number below 16.\<close>

definition hex_digit :: "nat \<Rightarrow> char" where
  "hex_digit d = ''0123456789abcdef'' ! d"

text \<open>
  \<open>repr\<close> of a \<open>str\<close> (CPython's \<open>unicode_repr\<close>): single quotes, or double quotes
  when the text has a single and no double quote; the quote and the backslash are
  escaped, tab, newline and carriage return as \<open>\t\<close>, \<open>\n\<close>, \<open>\r\<close>, the other
  control characters and DEL as \<open>\xHH\<close>. A byte from 128 up is part of the UTF-8 encoding
  of a non-ASCII character and is written as it is (the non-printable non-ASCII characters,
  which \<open>repr\<close> escapes, are not modelled).
\<close>

definition repr_quote :: "string \<Rightarrow> char" where
  "repr_quote s = (if CHR 0x27 \<in> set s \<and> CHR 0x22 \<notin> set s then CHR 0x22 else CHR 0x27)"

definition repr_char :: "char \<Rightarrow> char \<Rightarrow> string" where
  "repr_char q c =
     (if c = q \<or> c = CHR 0x5C then [CHR 0x5C, c]
      else if c = CHR 0x09 then [CHR 0x5C, CHR ''t'']
      else if c = CHR 0x0A then [CHR 0x5C, CHR ''n'']
      else if c = CHR 0x0D then [CHR 0x5C, CHR ''r'']
      else if of_char c < (32::nat) \<or> of_char c = (127::nat)
        then [CHR 0x5C, CHR ''x'', hex_digit (of_char c div 16), hex_digit (of_char c mod 16)]
      else [c])"

definition py_repr_str :: "string \<Rightarrow> string" where
  "py_repr_str s = (let q = repr_quote s in q # concat (map (repr_char q) s) @ [q])"

fun py_repr :: "jval \<Rightarrow> string" where
  "py_repr (JStr s) = py_repr_str s"
| "py_repr (JInt i) = int_str i"

text \<open>\<open>repr\<close> (and \<open>print\<close>) of a dict: \<open>{k: v, ...}\<close> in insertion order.\<close>

definition py_repr_dict :: "pydict \<Rightarrow> string" where
  "py_repr_dict d = ''{'' @ py_join '', '' (map (\<lambda>(k, v). py_repr_str k @ '': '' @ py_repr v) d) @ ''}''"

subsection \<open>Imports and name lookup\<close>

text \<open>
  A module's import statements and the names they bind: \<open>import a.b\<close> binds \<open>a\<close>,
  \<open>from m import n\<close> binds \<open>n\<close>. What an installed module provides is a parameter
  \<open>exports\<close> (\<open>None\<close>: no such module); an import of a missing module or of a name
  the module does not define raises \<open>ImportError\<close>, and the first failing statement ends
  the module's execution.
\<close>

datatype py_import = Import string | ImportFrom string string

fun import_binds :: "py_import \<Rightarrow> string" where
  "import_binds (Import m) = takeWhile (\<lambda>c. c \<noteq> CHR ''.'') m"
| "import_binds (ImportFrom m n) = n"

fun run_import :: "(string \<Rightarrow> string list option) \<Rightarrow> py_import \<Rightarrow> py_error + string" where
  "run_import exports (Import m) =
     (case exports m of
        None \<Rightarrow> Inl (ImportError (''No module named '' @ m))
      | Some _ \<Rightarrow> Inr (import_binds (Import m)))"
| "run_import exports (ImportFrom m n) =
     (case exports m of
        None \<Rightarrow> Inl (ImportError (''No module named '' @ m))
      | Some ns \<Rightarrow> if n \<in> set ns then Inr n else Inl (ImportError (''cannot import name '' @ n @ '' from '' @ m)))"

definition run_imports :: "(string \<Rightarrow> string list option) \<Rightarrow> py_import list \<Rightarrow> py_error + string list" where
  "run_imports exports stmts = py_map_all (run_import exports) stmts"

text \<open>
  Reading a name: it must be bound in the local scope, the module's globals or the builtins.
  \<open>py_builtins\<close> lists the builtins the sources call.
\<close>

definition py_builtins :: "string list" where
  "py_builtins = [''print'', ''str'', ''int'', ''len'', ''enumerate'', ''zip'', ''RuntimeError'']"

definition py_lookup :: "string list \<Rightarrow> string \<Rightarrow> py_error + unit" where
  "py_lookup scope n = (if n \<in> set scope then Inr () else Inl (NameError n))"

subsection \<open>Types of JSON values\<close>

text \<open>
  The type of a value of a record (\<open>str\<close> or \<open>int\<close>) and a typing judgment for dicts:
  \<open>has_schema S d\<close> holds when the dict has exactly the keys of the schema \<open>S\<close>, in its
  order, each with a value of the type the schema gives it.
\<close>

datatype jtype = TStr | TInt

fun jtype_of :: "jval \<Rightarrow> jtype" where
  "jtype_of (JStr _) = TStr"
| "jtype_of (JInt _) = TInt"

inductive has_schema :: "(string \<times> jtype) list \<Rightarrow> pydict \<Rightarrow> bool" where
  schema_Nil: "has_schema [] []"
| schema_Cons: "jtype_of v = T \<Longrightarrow> has_schema S d \<Longrightarrow> has_schema ((k, T) # S) ((k, v) # d)"

code_pred has_schema .

inductive_simps has_schema_Nil_simp [simp]: "has_schema S []"
inductive_simps has_schema_Cons_simp [simp]: "has_schema S (x # d)"
inductive_simps has_schema_Nil_schema [simp]: "has_schema [] d"
inductive_simps has_schema_Cons_schema [simp]: "has_schema ((k, T) # S) d"
inductive_cases has_schema_ConsE: "has_schema ((k, T) # S) d"

text \<open>The rules that evaluate the built-ins on literal arguments, for the worked examples.\<close>

declare py_strip_def [py_simps] py_lstrip_def [py_simps] py_rstrip_def [py_simps]
  is_space_def [py_simps] py_whitespace_def [py_simps] int_str_def [py_simps]
  nat_str.simps [py_simps] digit_char_def [py_simps] dict_get_def [py_simps]
  py_get_default_def [py_simps]

subsection \<open>Lemmas on the built-ins\<close>

lemma jtype_of_TStr [simp]: "jtype_of v = TStr \<longleftrightarrow> (\<exists>s. v = JStr s)"
  by (cases v) simp_all

lemma jtype_of_TInt [simp]: "jtype_of v = TInt \<longleftrightarrow> (\<exists>i. v = JInt i)"
  by (cases v) simp_all

lemma run_imports_Inl: "run_imports exports stmts = Inl e \<Longrightarrow> \<exists>msg. e = ImportError msg"
proof (induction stmts)
  case Nil
  then show ?case by (simp add: run_imports_def)
next
  case (Cons s ss)
  then show ?case
    by (cases s) (auto simp: run_imports_def split: option.splits if_splits sum.splits)
qed

lemma run_imports_Inr: "run_imports exports stmts = Inr ns \<Longrightarrow> ns = map import_binds stmts"
proof (induction stmts arbitrary: ns)
  case Nil
  then show ?case by (simp add: run_imports_def)
next
  case (Cons s ss)
  then show ?case
    by (cases s) (auto simp: run_imports_def split: option.splits if_splits sum.splits)
qed

lemma has_schema_keys: "has_schema S d \<Longrightarrow> map fst d = map fst S"
  by (induction rule: has_schema.induct) simp_all

lemma split_on_not_Nil [simp]: "split_on d s \<noteq> []"
  by (induction s) (simp_all add: Let_def)

lemma split_on_pieces: "w \<in> set (split_on d s) \<Longrightarrow> d \<notin> set w"
proof (induction s arbitrary: w)
  case Nil
  then show ?case by simp
next
  case (Cons c s)
  obtain v vs where vs: "split_on d s = v # vs"
    using split_on_not_Nil by (cases "split_on d s") auto
  with Cons show ?case by (auto simp: Let_def split: if_splits)
qed

lemma py_join_Cons: "py_join sep (x # xs) = (if xs = [] then x else x @ sep @ py_join sep xs)"
  by (cases xs) simp_all

lemma py_join_split_on [simp]: "py_join [d] (split_on d s) = s"
proof (induction s)
  case Nil
  then show ?case by simp
next
  case (Cons c s)
  obtain v vs where vs: "split_on d s = v # vs"
    using split_on_not_Nil by (cases "split_on d s") auto
  with Cons show ?case by (auto simp: Let_def py_join_Cons split: if_splits)
qed

lemma split_on_append_sep: "d \<notin> set x \<Longrightarrow> split_on d (x @ d # s) = x # split_on d s"
  by (induction x) (auto simp: Let_def)

lemma split_on_no_sep: "d \<notin> set x \<Longrightarrow> split_on d x = [x]"
  by (induction x) (auto simp: Let_def)

lemma split_on_py_join:
  "xs \<noteq> [] \<Longrightarrow> \<forall>x \<in> set xs. d \<notin> set x \<Longrightarrow> split_on d (py_join [d] xs) = xs"
proof (induction xs)
  case Nil
  then show ?case by simp
next
  case (Cons x xs)
  then show ?case
    by (cases xs) (simp_all add: split_on_no_sep split_on_append_sep)
qed

lemma is_blank_Nil [simp]: "is_blank []"
  by (simp add: is_blank_def)

lemma py_lstrip_Nil_iff: "py_lstrip s = [] \<longleftrightarrow> is_blank s"
  by (simp add: py_lstrip_def is_blank_def)

lemma py_rstrip_Nil_iff: "py_rstrip s = [] \<longleftrightarrow> is_blank s"
  by (simp add: py_rstrip_def is_blank_def)

lemma is_blank_dropWhile: "is_blank (dropWhile is_space s) = is_blank s"
  by (induction s) (simp_all add: is_blank_def)

lemma py_strip_Nil_iff [simp]: "py_strip s = [] \<longleftrightarrow> is_blank s"
  by (simp add: py_strip_def py_rstrip_Nil_iff py_lstrip_def is_blank_dropWhile)

lemma set_py_rstrip: "set (py_rstrip s) \<subseteq> set s"
  by (auto simp: py_rstrip_def dest: set_dropWhileD)

lemma py_rstrip_idem [simp]: "py_rstrip (py_rstrip s) = py_rstrip s"
proof -
  have "dropWhile is_space (dropWhile is_space (rev s)) = dropWhile is_space (rev s)"
    by (cases "dropWhile is_space (rev s)") (auto dest: dropWhile_eq_Cons_conv[THEN iffD1])
  then show ?thesis by (simp add: py_rstrip_def)
qed

lemma nat_str_not_Nil [simp]: "nat_str n \<noteq> []"
  by (subst nat_str.simps) simp

lemma digit_char_val: "d < 10 \<Longrightarrow> of_char (digit_char d) - 48 = d"
  by (auto simp: digit_char_def less_Suc_eq numeral_eq_Suc)

lemma digits_val_snoc: "digits_val (s @ [c]) = 10 * digits_val s + (of_char c - 48)"
  by (simp add: digits_val_def)

lemma digits_val_nat_str [simp]: "digits_val (nat_str n) = n"
proof (induction n rule: nat_str.induct)
  case (1 n)
  show ?case
  proof (cases "n < 10")
    case True
    then show ?thesis
      by (simp add: nat_str.simps [of n] digits_val_def digit_char_val)
  next
    case False
    with "1.IH" show ?thesis
      by (simp add: nat_str.simps [of n] digits_val_snoc digit_char_val)
  qed
qed

lemma is_blank_py_rstrip [simp]: "is_blank (py_rstrip l) = is_blank l"
  by (metis py_rstrip_Nil_iff py_rstrip_idem)

lemma py_replace_absent: "x \<notin> set s \<Longrightarrow> py_replace (x # xs) new s = s"
  by (induction s) auto

lemma py_replace_removes: "c \<notin> set new \<Longrightarrow> c \<notin> set (py_replace [c] new s)"
  by (induction s) auto

lemma set_py_join: "set (py_join sep xs) \<subseteq> set sep \<union> \<Union> (set ` set xs)"
  by (induction sep xs rule: py_join.induct) auto

lemma split_on_pieces_subset: "w \<in> set (split_on d s) \<Longrightarrow> set w \<subseteq> set s"
proof (induction s arbitrary: w)
  case Nil
  then show ?case by simp
next
  case (Cons c s)
  obtain v vs where vs: "split_on d s = v # vs"
    using split_on_not_Nil by (cases "split_on d s") auto
  with Cons show ?case by (fastforce simp: Let_def split: if_splits)
qed

lemma py_slice_bound_nonneg: "py_slice_bound (int n) (int k) = min k n"
  by (simp add: py_slice_bound_def min_def)

lemma take_drop_min: "take (min j n - min i n) (drop (min i n) xs) = take (j - i) (drop i xs)"
  if "n = length xs" for xs :: "'a list"
  using that by (cases "i \<le> n"; cases "j \<le> n") (simp_all add: min_def)

lemma py_slice_int_nonneg:
  "0 \<le> a \<Longrightarrow> 0 \<le> b \<Longrightarrow> py_slice_int xs a b = py_slice xs (nat a) (nat b)"
proof -
  assume "0 \<le> a" "0 \<le> b"
  then obtain i j where "a = int i" "b = int j" by (metis nonneg_int_cases)
  then show ?thesis
    by (simp add: py_slice_int_def py_slice_def py_slice_bound_nonneg take_drop_min)
qed

lemma dict_get_dict_set [simp]:
  "dict_get (dict_set d k v) k' = (if k' = k then Some v else dict_get d k')"
  by (induction d k v rule: dict_set.induct) (auto simp: dict_get_def)

lemma dict_set_fresh: "k \<notin> fst ` set d \<Longrightarrow> dict_set d k v = d @ [(k, v)]"
  by (induction d k v rule: dict_set.induct) auto

lemma set_nat_str: "set (nat_str n) \<subseteq> set ''0123456789''"
proof (induction n rule: nat_str.induct)
  case (1 n)
  have d: "digit_char d \<in> set ''0123456789''" if "d < 10" for d
    using that unfolding digit_char_def by (intro nth_mem) simp
  show ?case using 1 d by (subst nat_str.simps) auto
qed

lemma split_on_lines_nl:
  "\<forall>x \<in> set xs. d \<notin> set (f x) \<Longrightarrow>
   split_on d (concat (map (\<lambda>x. f x @ [d]) xs)) = map f xs @ [[]]"
  by (induction xs) (simp_all add: split_on_append_sep)


lemma nat_str_hd: "0 < n \<Longrightarrow> hd (nat_str n) \<noteq> CHR ''0''"
proof (induction n rule: nat_str.induct)
  case (1 n)
  show ?case
  proof (cases "n < 10")
    case True
    then have "of_char (digit_char n) - 48 = n" by (rule digit_char_val)
    then have "digit_char n \<noteq> CHR ''0''" using "1.prems" by auto
    with True show ?thesis by (simp add: nat_str.simps [of n])
  next
    case False
    then have "0 < n div 10" by simp
    then have "hd (nat_str (n div 10)) \<noteq> CHR ''0''" using "1.IH" False by blast
    then show ?thesis using False nat_str_not_Nil [of "n div 10"]
      by (simp add: nat_str.simps [of n])
  qed
qed

lemma nat_str_zero: "nat_str 0 = ''0''"
  by (simp add: nat_str.simps [of 0] digit_char_def)

lemma is_digit_nat_str: "x \<in> set (nat_str n) \<Longrightarrow> is_digit x"
  using set_nat_str [of n] unfolding is_digit_def by blast

lemma py_strip_keep:
  "s \<noteq> [] \<Longrightarrow> \<not> is_space (hd s) \<Longrightarrow> \<not> is_space (last s) \<Longrightarrow> py_strip s = s"
  by (cases s rule: rev_cases)
     (auto simp: py_strip_def py_lstrip_def py_rstrip_def dropWhile_append3 dropWhile_eq_self_iff)


lemma py_bind_simps [simp]: "py_bind (Inl e) f = Inl e" "py_bind (Inr a) f = f a"
  by (simp_all add: py_bind_def)

lemma py_bind_Inr_iff [simp]: "py_bind m f = Inr y \<longleftrightarrow> (\<exists>x. m = Inr x \<and> f x = Inr y)"
  by (cases m) simp_all

lemma py_map_all_length: "py_map_all f xs = Inr ys \<Longrightarrow> length ys = length xs"
proof (induction xs arbitrary: ys)
  case Nil
  then show ?case by simp
next
  case (Cons x xs)
  then show ?case by (auto split: sum.splits)
qed

lemma py_map_all_Inr: "(\<And>x. x \<in> set xs \<Longrightarrow> f x = Inr (g x)) \<Longrightarrow> py_map_all f xs = Inr (map g xs)"
  by (induction xs) simp_all

lemma py_map_all_Inl:
  "(\<And>x e'. x \<in> set xs \<Longrightarrow> f x = Inl e' \<Longrightarrow> e' = e) \<Longrightarrow> x \<in> set xs \<Longrightarrow> f x = Inl e \<Longrightarrow>
   py_map_all f xs = Inl e"
proof (induction xs)
  case Nil
  then show ?case by simp
next
  case (Cons a xs)
  show ?case
  proof (cases "f a")
    case (Inl e')
    then show ?thesis using Cons.prems(1) [of a e'] by simp
  next
    case (Inr y)
    with Cons.prems(2,3) have "x \<in> set xs" by auto
    have "py_map_all f xs = Inl e"
    proof (rule Cons.IH)
      fix z e' assume "z \<in> set xs" "f z = Inl e'"
      then show "e' = e" using Cons.prems(1) [of z e'] by simp
    qed fact+
    with Inr show ?thesis by simp
  qed
qed


lemma split_on_suffix: "\<exists>pre. pre \<noteq> [] \<and> split_on d (A @ d # B) = pre @ split_on d B"
proof (induction A)
  case Nil
  then show ?case by (auto simp: Let_def)
next
  case (Cons a A)
  then obtain pre where "pre \<noteq> []" "split_on d (A @ d # B) = pre @ split_on d B" by blast
  then show ?case by (cases pre) (auto simp: Let_def)
qed

lemma hd_split_on: "hd (split_on d s) = takeWhile (\<lambda>c. c \<noteq> d) s"
  by (induction s) (auto simp: Let_def)

lemma line_after_sep: "takeWhile (\<lambda>c. c \<noteq> d) B \<in> set (split_on d (A @ d # B))"
proof -
  obtain pre where "split_on d (A @ d # B) = pre @ split_on d B" using split_on_suffix by blast
  moreover have "takeWhile (\<lambda>c. c \<noteq> d) B \<in> set (split_on d B)"
    using hd_in_set [OF split_on_not_Nil [of d B]] by (simp add: hd_split_on)
  ultimately show ?thesis by simp
qed

lemma py_join_mem: "b \<in> set xs \<Longrightarrow> \<exists>A R. py_join sep xs = A @ b @ R"
proof (induction sep xs rule: py_join.induct)
  case (3 sep x y xs)
  show ?case
  proof (cases "b = x")
    case True
    then show ?thesis by auto
  next
    case False
    with "3.prems" obtain A R where "py_join sep (y # xs) = A @ b @ R" using "3.IH" by auto
    then show ?thesis by (metis append.assoc py_join.simps(3))
  qed
qed (auto intro!: exI [where x = "[]"])

lemma hd_py_strip: "py_strip s \<noteq> [] \<Longrightarrow> \<not> is_space (hd (py_strip s))"
proof -
  assume ne: "py_strip s \<noteq> []"
  have l1: "py_lstrip s \<noteq> []" using ne by (auto simp: py_strip_def py_rstrip_def)
  then have l2: "\<not> is_space (hd (py_lstrip s))" unfolding py_lstrip_def by (rule hd_dropWhile)
  have "\<exists>R. py_lstrip s = py_strip s @ R"
    unfolding py_strip_def py_rstrip_def
    by (metis append_take_drop_id rev_append rev_rev_ident takeWhile_dropWhile_id)
  then obtain R where "py_lstrip s = py_strip s @ R" by blast
  with l2 ne show ?thesis by simp
qed

lemma py_rstrip_prefix: "P \<noteq> [] \<Longrightarrow> \<not> is_space (last P) \<Longrightarrow> \<exists>R'. py_rstrip (P @ R) = P @ R'"
proof -
  assume P: "P \<noteq> []" "\<not> is_space (last P)"
  then have h: "\<not> is_space (hd (rev P))" by (simp add: hd_rev)
  show ?thesis
  proof (cases "\<forall>x \<in> set R. is_space x")
    case True
    then have "py_rstrip (P @ R) = P"
      using P h by (cases "rev P") (simp_all add: py_rstrip_def dropWhile_append)
    then show ?thesis by (intro exI [of _ "[]"]) simp
  next
    case False
    then show ?thesis by (auto simp: py_rstrip_def dropWhile_append)
  qed
qed

end
