(* ===== verification/Normalize.thy ===== *)
theory Normalize
  imports Prelude
begin

text \<open>
  The Line Normalizer, \<open>normalize_lines\<close> of \<open>src/chunk.py\<close>: line endings are unified
  (\<open>\r\n\<close> and \<open>\r\<close> become \<open>\n\<close>), the text is split into lines, and a loop with a
  counter \<open>blank_run\<close> keeps the first blank line of every run of blank lines (as \<open>""\<close>)
  and every non-blank line with its trailing whitespace stripped. The loop is
  \<open>normalize_step\<close> folded over the lines; \<open>collapse\<close> is the reference recursion it
  is proved equal to, and the lemmas show that no two consecutive lines of the result are
  blank, that normalizing is idempotent, and that the non-blank lines survive in order.
\<close>

subsection \<open>The code\<close>

text \<open>\<open>text.replace("\r\n", "\n").replace("\r", "\n")\<close>.\<close>

definition unify_newlines :: "string \<Rightarrow> string" where
  "unify_newlines text =
     py_replace [CHR 0x0D] ''\<newline>'' (py_replace [CHR 0x0D, CHR 0x0A] ''\<newline>'' text)"

text \<open>The loop's two variables.\<close>

record norm_state =
  blank_run :: nat
  normalized :: "string list"

text \<open>One iteration of \<open>for ln in lines\<close>.\<close>

definition normalize_step :: "norm_state \<Rightarrow> string \<Rightarrow> norm_state" where
  "normalize_step st ln =
     (if py_strip ln = [] then
        (let br = blank_run st + 1
         in st\<lparr>blank_run := br,
               normalized := (if br \<le> 1 then normalized st @ [''''] else normalized st)\<rparr>)
      else st\<lparr>blank_run := 0, normalized := normalized st @ [py_rstrip ln]\<rparr>)"

definition normalize_lines :: "string \<Rightarrow> string list" where
  "normalize_lines text =
     normalized (fold (\<lambda>ln st. normalize_step st ln)
                   (split_on (CHR ''\<newline>'') (unify_newlines text))
                   \<lparr>blank_run = 0, normalized = []\<rparr>)"

subsection \<open>Reference definitions\<close>

text \<open>
  The normalization as a recursion over the lines; the flag says whether the line before
  was blank.
\<close>

fun collapse :: "bool \<Rightarrow> string list \<Rightarrow> string list" where
  "collapse prev [] = []"
| "collapse prev (ln # lns) =
     (if is_blank ln then (if prev then collapse True lns else [] # collapse True lns)
      else py_rstrip ln # collapse False lns)"

text \<open>No two consecutive lines are blank.\<close>

fun no_two_blank :: "string list \<Rightarrow> bool" where
  "no_two_blank (x # y # xs) = (\<not> (is_blank x \<and> is_blank y) \<and> no_two_blank (y # xs))"
| "no_two_blank _ = True"

text \<open>A line as the normalizer leaves it: empty, or non-blank with no trailing whitespace.\<close>

definition clean_line :: "string \<Rightarrow> bool" where
  "clean_line l \<longleftrightarrow> l = [] \<or> (\<not> is_blank l \<and> py_rstrip l = l)"

text \<open>The lines of a text as \<open>normalize_lines\<close> sees them, before the loop.\<close>

definition raw_lines :: "string \<Rightarrow> string list" where
  "raw_lines text = split_on (CHR ''\<newline>'') (unify_newlines text)"

text \<open>What the normalizer makes of one line when no blank run is collapsed.\<close>

definition tidy_line :: "string \<Rightarrow> string" where
  "tidy_line l = (if is_blank l then [] else py_rstrip l)"

subsection \<open>The loop is the reference recursion\<close>

lemma unify_newlines_no_CR: "CHR 0x0D \<notin> set (unify_newlines t)"
  unfolding unify_newlines_def by (rule py_replace_removes) simp

lemma fold_normalize_step:
  "normalized (fold (\<lambda>ln st. normalize_step st ln) lns st) =
     normalized st @ collapse (blank_run st \<noteq> 0) lns"
  by (induction lns arbitrary: st) (auto simp: normalize_step_def Let_def)

lemma normalize_lines_eq_collapse: "normalize_lines text = collapse False (raw_lines text)"
  by (simp add: normalize_lines_def raw_lines_def fold_normalize_step)

lemma no_two_blank_Cons_nonblank: "\<not> is_blank x \<Longrightarrow> no_two_blank (x # ys) = no_two_blank ys"
  by (cases ys) simp_all

lemma collapse_no_two_blank:
  "no_two_blank (collapse prev lns) \<and>
   (prev \<longrightarrow> collapse prev lns = [] \<or> \<not> is_blank (hd (collapse prev lns)))"
proof (induction lns arbitrary: prev)
  case Nil
  then show ?case by simp
next
  case (Cons ln lns)
  from Cons.IH [of True] have "no_two_blank ([] # collapse True lns)"
    by (cases "collapse True lns") auto
  with Cons.IH show ?case
    by (auto simp: no_two_blank_Cons_nonblank)
qed

lemma collapse_lines:
  "l \<in> set (collapse prev lns) \<Longrightarrow> l = [] \<or> (\<exists>ln \<in> set lns. \<not> is_blank ln \<and> l = py_rstrip ln)"
  by (induction lns arbitrary: prev) (auto split: if_splits)

lemma collapse_clean: "l \<in> set (collapse prev lns) \<Longrightarrow> clean_line l"
  by (auto simp: clean_line_def dest: collapse_lines)

lemma collapse_not_Nil: "lns \<noteq> [] \<Longrightarrow> collapse False lns \<noteq> []"
  by (cases lns) auto

lemma collapse_id:
  "no_two_blank xs \<Longrightarrow> \<forall>l \<in> set xs. clean_line l \<Longrightarrow>
   (prev \<Longrightarrow> xs = [] \<or> \<not> is_blank (hd xs)) \<Longrightarrow> collapse prev xs = xs"
proof (induction xs arbitrary: prev)
  case Nil
  then show ?case by simp
next
  case (Cons x xs)
  have tl: "no_two_blank xs" using Cons.prems(1) by (cases xs) simp_all
  show ?case
  proof (cases "is_blank x")
    case True
    with Cons.prems(2) have "x = []" by (simp add: clean_line_def)
    moreover have "xs = [] \<or> \<not> is_blank (hd xs)"
      using Cons.prems(1) True by (cases xs) simp_all
    ultimately show ?thesis using Cons.prems Cons.IH [OF tl] True by auto
  next
    case False
    with Cons.prems(2) have "py_rstrip x = x" by (cases x) (auto simp: clean_line_def)
    then show ?thesis using Cons.prems Cons.IH [OF tl] False by auto
  qed
qed

lemma collapse_filter:
  "filter (\<lambda>l. \<not> is_blank l) (collapse prev lns) = map py_rstrip (filter (\<lambda>l. \<not> is_blank l) lns)"
  by (induction lns arbitrary: prev) auto

lemma raw_lines_chars: "l \<in> set (raw_lines t) \<Longrightarrow> CHR ''\<newline>'' \<notin> set l \<and> CHR 0x0D \<notin> set l"
proof
  assume l: "l \<in> set (raw_lines t)"
  then show "CHR ''\<newline>'' \<notin> set l" by (auto simp: raw_lines_def dest: split_on_pieces)
  have "set l \<subseteq> set (unify_newlines t)"
    using l unfolding raw_lines_def by (rule split_on_pieces_subset)
  then show "CHR 0x0D \<notin> set l" using unify_newlines_no_CR by blast
qed

lemma collapse_map_tidy:
  "no_two_blank xs \<Longrightarrow> \<not> (prev \<and> xs \<noteq> [] \<and> is_blank (hd xs)) \<Longrightarrow> collapse prev xs = map tidy_line xs"
proof (induction xs arbitrary: prev)
  case Nil
  then show ?case by simp
next
  case (Cons x xs)
  have tl: "no_two_blank xs" using Cons.prems(1) by (cases xs) simp_all
  have nx: "\<not> (is_blank x \<and> xs \<noteq> [] \<and> is_blank (hd xs))" using Cons.prems(1) by (cases xs) simp_all
  show ?case using Cons.prems(2) Cons.IH [OF tl] nx by (auto simp: tidy_line_def)
qed

lemma collapse_length_le: "length (collapse prev xs) \<le> length xs"
proof (induction xs arbitrary: prev)
  case (Cons x xs)
  have "length (collapse b xs) \<le> length xs" for b by (rule Cons.IH)
  then show ?case by (simp add: le_SucI)
qed simp

lemma collapse_Cons_length: "\<exists>b. length (collapse prev (x # ys)) \<le> Suc (length (collapse b ys))"
  by (cases "is_blank x") (auto intro: exI [of _ True] exI [of _ False])

lemma collapse_length_less: "\<not> no_two_blank xs \<Longrightarrow> length (collapse prev xs) < length xs"
proof (induction xs arbitrary: prev rule: no_two_blank.induct)
  case (1 x y xs)
  show ?case
  proof (cases "is_blank x \<and> is_blank y")
    case True
    then have "length (collapse prev (x # y # xs)) \<le> Suc (length (collapse True xs))" by auto
    with collapse_length_le [of True xs] show ?thesis by simp
  next
    case False
    with "1.prems" have ntb: "\<not> no_two_blank (y # xs)" by simp
    obtain b where le: "length (collapse prev (x # y # xs)) \<le> Suc (length (collapse b (y # xs)))"
      using collapse_Cons_length by blast
    have "length (collapse b (y # xs)) < length (y # xs)" by (rule "1.IH" [OF ntb])
    with le show ?thesis by (simp only: list.size)
  qed
qed simp_all

lemma collapse_snoc_blank:
  "xs \<noteq> [] \<Longrightarrow> is_blank (last xs) \<Longrightarrow> is_blank y \<Longrightarrow> collapse prev (xs @ [y]) = collapse prev xs"
proof (induction xs arbitrary: prev)
  case Nil
  then show ?case by simp
next
  case (Cons x xs)
  show ?case
  proof (cases "xs = []")
    case True
    with Cons.prems show ?thesis by simp
  next
    case False
    with Cons.prems Cons.IH show ?thesis by simp
  qed
qed

subsection \<open>Properties of the normalizer\<close>


lemma normalize_lines_chars:
  "l \<in> set (normalize_lines text) \<Longrightarrow> CHR ''\<newline>'' \<notin> set l \<and> CHR 0x0D \<notin> set l"
  unfolding normalize_lines_eq_collapse
  by (drule collapse_lines) (auto dest!: raw_lines_chars set_py_rstrip [THEN subsetD])

lemma unify_newlines_id: "CHR 0x0D \<notin> set s \<Longrightarrow> unify_newlines s = s"
  by (simp add: unify_newlines_def py_replace_absent)

lemma normalize_lines_not_Nil: "normalize_lines text \<noteq> []"
  by (simp add: normalize_lines_eq_collapse collapse_not_Nil raw_lines_def)

text \<open>Claim C36: no two consecutive lines of the normalized text are blank (the blank-run collapse of normalize_lines).\<close>

theorem normalize_lines_no_two_blank: "no_two_blank (normalize_lines text)"
  using collapse_no_two_blank by (simp add: normalize_lines_eq_collapse)

text \<open>Claim C37: normalizing is idempotent: joining the normalized lines with newlines and normalizing again gives the same lines.\<close>

theorem normalize_lines_idem:
  "normalize_lines (py_join ''\<newline>'' (normalize_lines text)) =
   normalize_lines text"
proof -
  let ?xs = "normalize_lines text"
  have chars: "\<forall>l \<in> set ?xs. CHR ''\<newline>'' \<notin> set l \<and> CHR 0x0D \<notin> set l"
    using normalize_lines_chars by blast
  have "CHR 0x0D \<notin> set (py_join ''\<newline>'' ?xs)"
    using set_py_join [of "''\<newline>''" ?xs] chars by auto
  then have "raw_lines (py_join ''\<newline>'' ?xs) = split_on (CHR ''\<newline>'') (py_join [CHR ''\<newline>''] ?xs)"
    by (simp add: raw_lines_def unify_newlines_id)
  also have "\<dots> = ?xs"
    using normalize_lines_not_Nil chars by (simp add: split_on_py_join)
  finally have raw: "raw_lines (py_join ''\<newline>'' ?xs) = ?xs" .
  have "collapse False ?xs = ?xs"
  proof (rule collapse_id)
    show "no_two_blank ?xs" using collapse_no_two_blank by (simp add: normalize_lines_eq_collapse)
    show "\<forall>l \<in> set ?xs. clean_line l" by (auto simp: normalize_lines_eq_collapse dest: collapse_clean)
  qed simp
  with raw show ?thesis by (simp add: normalize_lines_eq_collapse)
qed

text \<open>Claim C38: the non-blank lines of the input survive normalization in order, each only right-stripped; only blank lines are dropped.\<close>

theorem normalize_lines_nonblank:
  "filter (\<lambda>l. \<not> is_blank l) (normalize_lines text) =
   map py_rstrip (filter (\<lambda>l. \<not> is_blank l) (raw_lines text))"
  by (simp add: normalize_lines_eq_collapse collapse_filter)

text \<open>Claim C39: every normalized line is empty or non-blank without trailing whitespace, and contains no line-ending character.\<close>

theorem normalize_lines_clean:
  "\<forall>l \<in> set (normalize_lines text).
     clean_line l \<and> CHR ''\<newline>'' \<notin> set l \<and> CHR 0x0D \<notin> set l"
  using normalize_lines_chars by (auto simp: normalize_lines_eq_collapse dest: collapse_clean)

theorem normalize_lines_clean_witness:
  "normalize_lines ''a \<newline>\<newline>b'' = [''a'', '''', ''b''] \<and>
   clean_line ''a'' \<and> CHR ''\<newline>'' \<notin> set ''a'' \<and> CHR 0x0D \<notin> set ''a''"
proof -
  have ev: "normalize_lines ''a \<newline>\<newline>b'' = [''a'', '''', ''b'']"
    by (simp add: normalize_lines_def unify_newlines_def normalize_step_def is_space_def
                  py_whitespace_def py_strip_def py_rstrip_def py_lstrip_def)
  show ?thesis using normalize_lines_clean [of "''a \<newline>\<newline>b''"] ev by simp
qed

end
