(* ===== verification/Chunker.thy ===== *)
theory Chunker
  imports Prelude "HOL-Library.While_Combinator"
begin

text \<open>
  The Chunker, \<open>chunk_by_lines\<close> of \<open>src/chunk.py\<close>. Its parameters are Python
  \<open>int\<close>s; two \<open>assert\<close>s check \<open>lines_per_chunk > 0\<close> and
  \<open>0 <= overlap_lines < lines_per_chunk\<close> (a failed assert is \<^const>\<open>AssertionError\<close>).
  The \<open>while i < n\<close> loop is \<^const>\<open>while_option\<close> over the loop's variables
  \<open>i\<close> and \<open>chunks\<close>, so a loop that never ends is the value \<open>None\<close>: the result of
  \<open>chunk_by_lines\<close> is \<open>Some\<close> of what the function returns or raises. The loop body
  takes the window \<open>lines[start:end]\<close>, joins it with newlines, strips it, and appends
  \<open>(start + 1, end, text)\<close> when the text is not empty.

  The reference specification \<open>chunks_spec\<close> describes the result without the loop: one
  candidate window at every multiple of \<open>step\<close> below the number of lines, kept when
  its stripped text is not empty. The lemmas prove that the loop ends whenever the asserts
  pass and that it computes \<open>chunks_spec\<close>; the properties of the chunks (bounds, coverage,
  stepping) are then proved of \<open>chunks_spec\<close>.
\<close>

type_synonym chunk = "int \<times> int \<times> string"

subsection \<open>The code\<close>

record chunk_state =
  chunk_i :: int
  chunk_list :: "chunk list"

text \<open>One iteration of the loop, \<open>step = lines_per_chunk - overlap_lines\<close>.\<close>

definition chunk_body :: "string list \<Rightarrow> int \<Rightarrow> int \<Rightarrow> chunk_state \<Rightarrow> chunk_state" where
  "chunk_body lines lines_per_chunk step st =
     (let n = int (length lines);
          start = chunk_i st;
          end = min (chunk_i st + lines_per_chunk) n;
          chunk_text = py_strip (py_join ''\<newline>'' (py_slice_int lines start end))
      in st\<lparr>chunk_list := (if chunk_text \<noteq> [] then chunk_list st @ [(start + 1, end, chunk_text)]
                      else chunk_list st),
            chunk_i := chunk_i st + step\<rparr>)"

text \<open>\<open>i = 0; while i < n: ...\<close>; \<open>None\<close> when the loop does not end.\<close>

definition chunk_loop :: "string list \<Rightarrow> int \<Rightarrow> int \<Rightarrow> chunk list option" where
  "chunk_loop lines lines_per_chunk step =
     map_option chunk_list
       (while_option (\<lambda>st. chunk_i st < int (length lines))
          (chunk_body lines lines_per_chunk step) \<lparr>chunk_i = 0, chunk_list = []\<rparr>)"

definition chunk_by_lines :: "string list \<Rightarrow> int \<Rightarrow> int \<Rightarrow> (py_error + chunk list) option" where
  "chunk_by_lines lines lines_per_chunk overlap_lines =
     (if \<not> lines_per_chunk > 0 then Some (Inl AssertionError)
      else if \<not> (0 \<le> overlap_lines \<and> overlap_lines < lines_per_chunk) then Some (Inl AssertionError)
      else map_option Inr (chunk_loop lines lines_per_chunk (lines_per_chunk - overlap_lines)))"

text \<open>
  The same function as it runs under \<open>python -O\<close>, which removes \<open>assert\<close>
  statements.
\<close>

definition chunk_by_lines_unchecked :: "string list \<Rightarrow> int \<Rightarrow> int \<Rightarrow> (py_error + chunk list) option" where
  "chunk_by_lines_unchecked lines lines_per_chunk overlap_lines =
     map_option Inr (chunk_loop lines lines_per_chunk (lines_per_chunk - overlap_lines))"

subsection \<open>Reference specification\<close>

text \<open>The chunk of the window starting at line index \<open>s\<close>, if its text is not blank.\<close>

definition window :: "string list \<Rightarrow> nat \<Rightarrow> nat \<Rightarrow> chunk option" where
  "window lines w s =
     (let e = min (s + w) (length lines);
          t = py_strip (py_join ''\<newline>'' (py_slice lines s e))
      in if t = [] then None else Some (int s + 1, int e, t))"

text \<open>The window starts: the multiples of \<open>step\<close> below the number of lines.\<close>

definition window_starts :: "nat \<Rightarrow> nat \<Rightarrow> nat list" where
  "window_starts n step = filter (\<lambda>s. s mod step = 0) [0..<n]"

definition chunks_spec :: "string list \<Rightarrow> nat \<Rightarrow> nat \<Rightarrow> chunk list" where
  "chunks_spec lines w step = List.map_filter (window lines w) (window_starts (length lines) step)"

subsection \<open>The loop computes the specification\<close>

lemma filter_starts_step:
  assumes "0 < step" "i < n"
  shows "filter (\<lambda>s. (s - i) mod step = 0) [i..<n] =
         i # filter (\<lambda>s. (s - (i + step)) mod step = 0) [i + step..<n]"
proof -
  let ?P = "\<lambda>s. (s - i) mod step = 0" and ?Q = "\<lambda>s. (s - (i + step)) mod step = 0"
  have gap: "filter ?P [Suc i..<m] = []" if "m \<le> i + step" for m
    using that by (auto simp: filter_empty_conv)
  have "filter ?P [Suc i..<n] = filter ?Q [i + step..<n]"
  proof (cases "i + step \<le> n")
    case True
    then have split: "[Suc i..<n] = [Suc i..<i + step] @ [i + step..<n]"
      using upt_add_eq_append [of "Suc i" "i + step" "n - (i + step)"] assms(1) by simp
    have "filter ?P [i + step..<n] = filter ?Q [i + step..<n]"
    proof (rule filter_cong [OF refl])
      fix s assume "s \<in> set [i + step..<n]"
      then have "s - i = (s - (i + step)) + step" by auto
      then show "?P s = ?Q s" by simp
    qed
    with split gap [of "i + step"] show ?thesis by simp
  next
    case False
    then show ?thesis using gap [of n] by simp
  qed
  moreover have "[i..<n] = i # [Suc i..<n]" using assms(2) by (simp add: upt_conv_Cons)
  ultimately show ?thesis by simp
qed

lemma chunk_body_window:
  "chunk_body lines (int w) (int step) \<lparr>chunk_i = int i, chunk_list = acc\<rparr> =
   \<lparr>chunk_i = int (i + step),
    chunk_list = acc @ (case window lines w i of None \<Rightarrow> [] | Some c \<Rightarrow> [c])\<rparr>"
proof -
  have "min (int i + int w) (int (length lines)) = int (min (i + w) (length lines))" by simp
  then show ?thesis
    by (simp add: chunk_body_def window_def Let_def py_slice_int_nonneg del: of_nat_min)
qed

lemma chunk_loop_from:
  assumes "0 < step"
  shows "\<exists>j. while_option (\<lambda>st. chunk_i st < int (length lines)) (chunk_body lines (int w) (int step))
               \<lparr>chunk_i = int i, chunk_list = acc\<rparr> =
             Some \<lparr>chunk_i = j, chunk_list = acc @ List.map_filter (window lines w)
                                          (filter (\<lambda>s. (s - i) mod step = 0) [i..<length lines])\<rparr>"
proof (induction "length lines - i" arbitrary: i acc rule: less_induct)
  case less
  show ?case
  proof (cases "i < length lines")
    case True
    let ?acc = "acc @ (case window lines w i of None \<Rightarrow> [] | Some c \<Rightarrow> [c])"
    have "length lines - (i + step) < length lines - i" using True assms by simp
    then obtain j where IH:
      "while_option (\<lambda>st. chunk_i st < int (length lines)) (chunk_body lines (int w) (int step))
         \<lparr>chunk_i = int (i + step), chunk_list = ?acc\<rparr> =
       Some \<lparr>chunk_i = j, chunk_list = ?acc @ List.map_filter (window lines w)
              (filter (\<lambda>s. (s - (i + step)) mod step = 0) [i + step..<length lines])\<rparr>"
      using less by blast
    show ?thesis
      using True IH
      by (auto simp: while_option_unfold [of _ _ "\<lparr>chunk_i = int i, chunk_list = acc\<rparr>"]
                     chunk_body_window filter_starts_step [OF assms] List.map_filter_simps
               split: option.splits)
  next
    case False
    then show ?thesis by (simp add: while_option_unfold [of _ _ "\<lparr>chunk_i = int i, chunk_list = acc\<rparr>"])
  qed
qed

lemma chunk_loop_spec:
  "0 < step \<Longrightarrow> chunk_loop lines (int w) (int step) = Some (chunks_spec lines w step)"
  using chunk_loop_from [of step lines w 0 "[]"]
  by (auto simp: chunk_loop_def chunks_spec_def window_starts_def)

lemma chunk_by_lines_valid:
  assumes "0 < lines_per_chunk" "0 \<le> overlap_lines" "overlap_lines < lines_per_chunk"
  shows "chunk_by_lines lines lines_per_chunk overlap_lines =
         Some (Inr (chunks_spec lines (nat lines_per_chunk) (nat (lines_per_chunk - overlap_lines))))"
proof -
  have "chunk_loop lines lines_per_chunk (lines_per_chunk - overlap_lines) =
        chunk_loop lines (int (nat lines_per_chunk)) (int (nat (lines_per_chunk - overlap_lines)))"
    using assms by simp
  also have "\<dots> = Some (chunks_spec lines (nat lines_per_chunk) (nat (lines_per_chunk - overlap_lines)))"
    using assms by (intro chunk_loop_spec) simp
  finally show ?thesis using assms by (simp add: chunk_by_lines_def)
qed

lemma set_py_join_member: "x \<in> set xs \<Longrightarrow> set x \<subseteq> set (py_join sep xs)"
  by (induction sep xs rule: py_join.induct) auto

lemma py_strip_join_not_Nil:
  "x \<in> set xs \<Longrightarrow> \<not> is_blank x \<Longrightarrow> py_strip (py_join sep xs) \<noteq> []"
  using set_py_join_member [of x xs sep] by (auto simp: is_blank_def)

lemma chunk_by_lines_Inr:
  "0 < lines_per_chunk \<and> 0 \<le> overlap_lines \<and> overlap_lines < lines_per_chunk \<and>
   cs = chunks_spec lines (nat lines_per_chunk) (nat (lines_per_chunk - overlap_lines))"
  if "chunk_by_lines lines lines_per_chunk overlap_lines = Some (Inr cs)"
proof (cases "0 < lines_per_chunk \<and> 0 \<le> overlap_lines \<and> overlap_lines < lines_per_chunk")
  case True
  then show ?thesis using that by (simp add: chunk_by_lines_valid)
next
  case False
  then show ?thesis using that by (auto simp: chunk_by_lines_def split: if_splits)
qed

lemma set_map_filter: "set (List.map_filter f xs) = {y. \<exists>x \<in> set xs. f x = Some y}"
  by (induction xs) (auto simp: List.map_filter_simps split: option.splits)

lemma set_chunks_spec:
  "c \<in> set (chunks_spec lines w step) \<longleftrightarrow>
   (\<exists>s. s < length lines \<and> s mod step = 0 \<and> window lines w s = Some c)"
  by (auto simp: chunks_spec_def window_starts_def set_map_filter)

lemma window_Some:
  assumes "window lines w s = Some (a, b, t)" "s < length lines" "0 < w"
  shows "a = int s + 1 \<and> b = int (min (s + w) (length lines)) \<and> 1 \<le> a \<and> a \<le> b \<and>
         b \<le> int (length lines) \<and> t \<noteq> [] \<and>
         t = py_strip (py_join ''\<newline>'' (py_slice lines (nat (a - 1)) (nat b)))"
  using assms by (auto simp: window_def Let_def split: if_splits)

lemma window_covers:
  assumes "s \<le> j" "j < s + w" "j < length lines" "\<not> is_blank (lines ! j)"
  shows "\<exists>c. window lines w s = Some c \<and> fst c \<le> int j + 1 \<and> int j + 1 \<le> fst (snd c)"
proof -
  let ?e = "min (s + w) (length lines)"
  have "py_slice lines s ?e ! (j - s) = lines ! j"
    using assms by (simp add: py_slice_def)
  moreover have "j - s < length (py_slice lines s ?e)"
    using assms by (simp add: py_slice_def)
  ultimately have "lines ! j \<in> set (py_slice lines s ?e)"
    by (metis nth_mem)
  then have "py_strip (py_join ''\<newline>'' (py_slice lines s ?e)) \<noteq> []"
    using assms(4) by (rule py_strip_join_not_Nil)
  then show ?thesis using assms by (auto simp: window_def Let_def)
qed

lemma map_fst_map_filter_window:
  "map fst (List.map_filter (window lines w) ss) =
   map (\<lambda>s. int s + 1) (filter (\<lambda>s. window lines w s \<noteq> None) ss)"
  by (induction ss) (auto simp: List.map_filter_simps window_def Let_def)

lemma window_starts_nth:
  "0 < step \<Longrightarrow> k < length (filter (\<lambda>s. (s - i) mod step = 0) [i..<n]) \<Longrightarrow>
   filter (\<lambda>s. (s - i) mod step = 0) [i..<n] ! k = i + k * step"
proof (induction k arbitrary: i)
  case 0
  then have "i < n" by (cases "i < n") auto
  then show ?case using 0 by (simp add: filter_starts_step)
next
  case (Suc k)
  then have "i < n" by (cases "i < n") auto
  then show ?case using Suc by (simp add: filter_starts_step)
qed

lemma window_starts_eq: "window_starts n step = filter (\<lambda>s. (s - 0) mod step = 0) [0..<n]"
  by (simp add: window_starts_def)

lemma window_nonblank:
  "s < length lines \<Longrightarrow> 0 < w \<Longrightarrow> \<not> is_blank (lines ! s) \<Longrightarrow> window lines w s \<noteq> None"
  using window_covers [of s s w lines] by auto

lemma window_tail:
  assumes "s < length lines" "length lines \<le> s + w" "\<not> is_blank (last lines)"
  shows "\<exists>t. window lines w s = Some (int s + 1, int (length lines), t)"
proof -
  have "lines \<noteq> []" using assms(1) by auto
  then have "\<not> is_blank (lines ! (length lines - 1))" using assms(3) by (simp add: last_conv_nth)
  then obtain c where "window lines w s = Some c"
    using window_covers [of s "length lines - 1" w lines] assms(1,2) by force
  then show ?thesis using assms(2) by (auto simp: window_def Let_def min_def split: if_splits)
qed

lemma chunks_spec_starts:
  "map fst (chunks_spec lines w step) =
   map (\<lambda>s. int s + 1) (filter (\<lambda>s. window lines w s \<noteq> None) (window_starts (length lines) step))"
  by (simp add: chunks_spec_def map_fst_map_filter_window)

lemmas chunk_eval = chunks_spec_def window_starts_def window_def py_slice_def
  List.map_filter_simps py_strip_def py_lstrip_def py_rstrip_def is_space_def py_whitespace_def

text \<open>Two runs of the code, evaluated through the specification.\<close>

lemma chunk_example_gap:
  "chunk_by_lines [''a'', '''', '''', '''', ''e''] 2 1 =
   Some (Inr [(1, 2, ''a''), (4, 5, ''e''), (5, 5, ''e'')])"
  by (simp add: chunk_by_lines_valid chunk_eval)

lemma chunk_example_dense:
  "chunk_by_lines [''a'', ''b'', ''c''] 2 1 =
   Some (Inr [(1, 2, ''a\<newline>b''), (2, 3, ''b\<newline>c''), (3, 3, ''c'')])"
  by (simp add: chunk_by_lines_valid chunk_eval)

subsection \<open>Properties of the chunks\<close>

text \<open>Claim C7: whenever the asserts pass, the while loop of chunk_by_lines ends and returns exactly the chunks of the specification: one window at every multiple of step = lines_per_chunk - overlap_lines below len(lines), each kept iff its stripped text is non-empty.\<close>

theorem chunk_by_lines_spec:
  assumes "0 < lines_per_chunk" "0 \<le> overlap_lines" "overlap_lines < lines_per_chunk"
  shows "chunk_by_lines lines lines_per_chunk overlap_lines =
         Some (Inr (chunks_spec lines (nat lines_per_chunk) (nat (lines_per_chunk - overlap_lines))))"
  using assms by (rule chunk_by_lines_valid)

theorem chunk_by_lines_spec_witness:
  "0 < (3::int) \<and> 0 \<le> (1::int) \<and> (1::int) < 3 \<and>
   chunk_by_lines [''a'', ''b''] 3 1 = Some (Inr (chunks_spec [''a'', ''b''] 3 2))"
  using chunk_by_lines_spec [of 3 1 "[''a'', ''b'']"] by simp

text \<open>Claim C8: every emitted chunk (start, end, text) has 1 <= start <= end <= len(lines), a non-empty text, and that text is the stripped newline-join of lines[start-1:end].\<close>

theorem chunk_by_lines_bounds:
  assumes "chunk_by_lines lines lines_per_chunk overlap_lines = Some (Inr cs)"
    and "(a, b, t) \<in> set cs"
  shows "1 \<le> a \<and> a \<le> b \<and> b \<le> int (length lines) \<and> t \<noteq> [] \<and>
         t = py_strip (py_join ''\<newline>'' (py_slice lines (nat (a - 1)) (nat b)))"
proof -
  from chunk_by_lines_Inr [OF assms(1)] assms(2) obtain s where
    "s < length lines" "window lines (nat lines_per_chunk) s = Some (a, b, t)" "0 < nat lines_per_chunk"
    by (auto simp: set_chunks_spec)
  then show ?thesis by (blast dest: window_Some)
qed

theorem chunk_by_lines_bounds_witness:
  "chunk_by_lines [''a'', '''', '''', '''', ''e''] 2 1 = Some (Inr [(1, 2, ''a''), (4, 5, ''e''), (5, 5, ''e'')]) \<and>
   1 \<le> (4::int) \<and> (4::int) \<le> 5 \<and> (5::int) \<le> int (length [''a'', '''', '''', '''', ''e'']) \<and> ''e'' \<noteq> [] \<and>
   ''e'' = py_strip (py_join ''\<newline>'' (py_slice [''a'', '''', '''', '''', ''e''] (nat (4 - 1)) (nat 5)))"
  using chunk_by_lines_bounds [OF chunk_example_gap, of 4 5 "''e''"] chunk_example_gap by simp

text \<open>Claim C9: every non-blank line of the input lies in the line range of some emitted chunk: no content is dropped.\<close>

theorem chunk_by_lines_covers:
  assumes "chunk_by_lines lines lines_per_chunk overlap_lines = Some (Inr cs)"
    and "j < length lines" and "\<not> is_blank (lines ! j)"
  shows "\<exists>(a, b, t) \<in> set cs. a \<le> int j + 1 \<and> int j + 1 \<le> b"
proof -
  let ?w = "nat lines_per_chunk" and ?step = "nat (lines_per_chunk - overlap_lines)"
  from chunk_by_lines_Inr [OF assms(1)] have
    valid: "0 < ?step" "?step \<le> ?w" and cs: "cs = chunks_spec lines ?w ?step" by auto
  let ?s = "j - j mod ?step"
  have "?s \<le> j" by simp
  moreover have "j mod ?step < ?step" using valid(1) by simp
  then have "j < ?s + ?w" using mod_less_eq_dividend [of j ?step] valid(2) by linarith
  ultimately obtain c where c: "window lines ?w ?s = Some c" "fst c \<le> int j + 1" "int j + 1 \<le> fst (snd c)"
    using window_covers assms(2,3) by blast
  have "?s mod ?step = 0" by (simp add: minus_mod_eq_mult_div)
  moreover have "?s < length lines" using assms(2) by linarith
  ultimately have "c \<in> set cs" using c(1) by (auto simp: cs set_chunks_spec)
  with c show ?thesis by (auto simp: case_prod_beta)
qed

theorem chunk_by_lines_covers_witness:
  "chunk_by_lines [''a'', '''', '''', '''', ''e''] 2 1 = Some (Inr [(1, 2, ''a''), (4, 5, ''e''), (5, 5, ''e'')]) \<and>
   4 < length [''a'', '''', '''', '''', ''e''] \<and> \<not> is_blank ([''a'', '''', '''', '''', ''e''] ! 4) \<and>
   (\<exists>(a, b, t) \<in> set [(1, 2, ''a''), (4, 5, ''e''), (5, 5, ''e'')]. a \<le> int 4 + 1 \<and> int 4 + 1 \<le> b)"
proof -
  have nb: "\<not> is_blank ([''a'', '''', '''', '''', ''e''] ! 4)" by (simp add: is_blank_def is_space_def py_whitespace_def)
  show ?thesis
    using chunk_by_lines_covers [OF chunk_example_gap, of 4] chunk_example_gap nb by simp
qed

text \<open>Claim C11: the start lines of the emitted chunks are strictly increasing and each start - 1 is a multiple of step; when a blank window is skipped, the distance between consecutive starts is a multiple of step, not step itself.\<close>

theorem chunk_by_lines_starts:
  assumes "chunk_by_lines lines lines_per_chunk overlap_lines = Some (Inr cs)"
  shows "sorted_wrt (<) (map fst cs) \<and>
         (\<forall>a \<in> set (map fst cs). (a - 1) mod (lines_per_chunk - overlap_lines) = 0)"
proof -
  let ?w = "nat lines_per_chunk" and ?step = "nat (lines_per_chunk - overlap_lines)"
  from chunk_by_lines_Inr [OF assms] have
    valid: "0 < lines_per_chunk - overlap_lines" and cs: "cs = chunks_spec lines ?w ?step" by auto
  let ?ss = "filter (\<lambda>s. window lines ?w s \<noteq> None) (window_starts (length lines) ?step)"
  have "sorted_wrt (<) ?ss"
    by (simp add: window_starts_def sorted_wrt_filter)
  then have "sorted_wrt (\<lambda>x y. int x + 1 < int y + 1) ?ss"
    by (rule sorted_wrt_mono_rel [rotated]) simp
  then have "sorted_wrt (<) (map (\<lambda>s. int s + 1) ?ss)"
    by (simp add: sorted_wrt_map)
  moreover have "(int s + 1 - 1) mod (lines_per_chunk - overlap_lines) = 0" if "s \<in> set ?ss" for s
  proof -
    from that have "s mod ?step = 0" by (simp add: window_starts_def)
    then have "int s mod int ?step = 0" by (metis of_nat_0 zmod_int)
    then show ?thesis using valid by simp
  qed
  ultimately show ?thesis by (auto simp: cs chunks_spec_starts)
qed

theorem chunk_by_lines_starts_witness:
  "chunk_by_lines [''a'', '''', '''', '''', ''e''] 2 1 = Some (Inr [(1, 2, ''a''), (4, 5, ''e''), (5, 5, ''e'')]) \<and>
   sorted_wrt (<) [1, 4, 5 :: int] \<and>
   (1 - 1) mod (2 - 1) = (0::int) \<and> (4 - 1) mod (2 - 1) = (0::int) \<and> (5 - 1) mod (2 - 1) = (0::int)"
  using chunk_by_lines_starts [OF chunk_example_gap] chunk_example_gap by simp


text \<open>Claim C12: when no input line is blank, each emitted start is exactly step = lines_per_chunk - overlap_lines after the previous one.\<close>

theorem chunk_by_lines_exact_step:
  assumes "chunk_by_lines lines lines_per_chunk overlap_lines = Some (Inr cs)"
    and "\<forall>l \<in> set lines. \<not> is_blank l"
  shows "\<forall>k. Suc k < length cs \<longrightarrow>
           fst (cs ! Suc k) = fst (cs ! k) + (lines_per_chunk - overlap_lines)"
proof (intro allI impI)
  fix k assume k: "Suc k < length cs"
  let ?w = "nat lines_per_chunk" and ?step = "nat (lines_per_chunk - overlap_lines)"
  from chunk_by_lines_Inr [OF assms(1)] have
    valid: "0 < ?w" "0 < ?step" "0 < lines_per_chunk - overlap_lines"
    and cs: "cs = chunks_spec lines ?w ?step" by auto
  let ?ss = "window_starts (length lines) ?step"
  have all: "filter (\<lambda>s. window lines ?w s \<noteq> None) ?ss = ?ss"
    unfolding filter_id_conv
  proof
    fix s assume "s \<in> set ?ss"
    then have "s < length lines" by (simp add: window_starts_def)
    then show "window lines ?w s \<noteq> None"
      using assms(2) valid(1) by (intro window_nonblank) auto
  qed
  have fst_cs: "map fst cs = map (\<lambda>s. int s + 1) ?ss"
    using all by (simp add: cs chunks_spec_starts)
  then have len: "length cs = length ?ss" by (metis length_map)
  have at: "fst (cs ! j) = int (j * ?step) + 1" if j: "j < length cs" for j
  proof -
    have "fst (cs ! j) = map fst cs ! j" using j by simp
    also have "\<dots> = int (?ss ! j) + 1" using j len by (simp add: fst_cs)
    also have "?ss ! j = 0 + j * ?step"
      unfolding window_starts_eq using j len valid(2)
      by (intro window_starts_nth) (simp_all add: window_starts_eq)
    finally show ?thesis by simp
  qed
  have "int (Suc k * ?step) = int (k * ?step) + (lines_per_chunk - overlap_lines)"
    using valid(3) by simp
  then show "fst (cs ! Suc k) = fst (cs ! k) + (lines_per_chunk - overlap_lines)"
    using at [of "Suc k"] at [of k] k by simp
qed

theorem chunk_by_lines_exact_step_witness:
  "chunk_by_lines [''a'', ''b'', ''c''] 2 1 = Some (Inr [(1, 2, ''a\<newline>b''), (2, 3, ''b\<newline>c''), (3, 3, ''c'')]) \<and>
   \<not> is_blank ''a'' \<and> \<not> is_blank ''b'' \<and> \<not> is_blank ''c'' \<and>
   fst (([(1, 2, ''a\<newline>b''), (2, 3, ''b\<newline>c''), (3, 3, ''c'')] :: chunk list) ! 1) = fst (([(1, 2, ''a\<newline>b''), (2, 3, ''b\<newline>c''), (3, 3, ''c'')] :: chunk list) ! 0) + (2 - 1) \<and>
   fst (([(1, 2, ''a\<newline>b''), (2, 3, ''b\<newline>c''), (3, 3, ''c'')] :: chunk list) ! 2) = fst (([(1, 2, ''a\<newline>b''), (2, 3, ''b\<newline>c''), (3, 3, ''c'')] :: chunk list) ! 1) + (2 - 1)"
proof -
  have nb: "\<forall>l \<in> set [''a'', ''b'', ''c'']. \<not> is_blank l" by (simp add: is_blank_def is_space_def py_whitespace_def)
  note step = chunk_by_lines_exact_step [OF chunk_example_dense nb, rule_format]
  show ?thesis
    using step [of 0] step [of 1] chunk_example_dense nb by simp
qed


text \<open>Claim C14: a non-blank document of at most step lines yields exactly one chunk, spanning the whole document.\<close>

theorem chunk_by_lines_short:
  assumes "0 < lines_per_chunk" "0 \<le> overlap_lines" "overlap_lines < lines_per_chunk"
    and "int (length lines) \<le> lines_per_chunk - overlap_lines"
    and "\<not> (\<forall>l \<in> set lines. is_blank l)"
  shows "chunk_by_lines lines lines_per_chunk overlap_lines =
         Some (Inr [(1, int (length lines), py_strip (py_join ''\<newline>'' lines))])"
proof -
  let ?w = "nat lines_per_chunk" and ?step = "nat (lines_per_chunk - overlap_lines)"
  have n: "length lines \<le> ?step" "?step \<le> ?w" "0 < length lines"
    using assms(2-5) by auto
  have "window_starts (length lines) ?step = [0]"
  proof -
    have "filter (\<lambda>s. s mod ?step = 0) [Suc 0..<length lines] = []"
      using n(1) by (auto simp: filter_empty_conv)
    then show ?thesis using n(3) by (simp add: window_starts_def upt_conv_Cons)
  qed
  moreover have "py_strip (py_join ''\<newline>'' lines) \<noteq> []"
    using assms(5) py_strip_join_not_Nil by blast
  ultimately have "chunks_spec lines ?w ?step = [(1, int (length lines), py_strip (py_join ''\<newline>'' lines))]"
    using n by (simp add: chunks_spec_def window_def py_slice_def List.map_filter_simps min_def)
  then show ?thesis using assms(1-3) by (simp add: chunk_by_lines_valid)
qed

theorem chunk_by_lines_short_witness:
  "chunk_by_lines [''a'', ''b''] 3 1 = Some (Inr [(1, 2, ''a\<newline>b'')])"
proof -
  have nb: "\<not> (\<forall>l \<in> set [''a'', ''b'']. is_blank l)" by (simp add: is_blank_def is_space_def py_whitespace_def)
  have "py_strip (py_join ''\<newline>'' [''a'', ''b'']) = ''a\<newline>b''"
    by (simp add: py_strip_def py_lstrip_def py_rstrip_def is_space_def py_whitespace_def)
  then show ?thesis using chunk_by_lines_short [of 3 1 "[''a'', ''b'']"] nb by simp
qed

text \<open>Claim C15: a document whose lines are all blank yields no chunk and no error.\<close>

theorem chunk_by_lines_all_blank:
  assumes "0 < lines_per_chunk" "0 \<le> overlap_lines" "overlap_lines < lines_per_chunk"
    and "\<forall>l \<in> set lines. is_blank l"
  shows "chunk_by_lines lines lines_per_chunk overlap_lines = Some (Inr [])"
proof -
  have "window lines w s = None" for w s
  proof -
    have "\<forall>l \<in> set (py_slice lines s (min (s + w) (length lines))). is_blank l"
      using assms(4) by (auto simp: py_slice_def dest: in_set_takeD in_set_dropD)
    then have "is_blank (py_join ''\<newline>'' (py_slice lines s (min (s + w) (length lines))))"
      using set_py_join by (fastforce simp: is_blank_def is_space_def py_whitespace_def)
    then show ?thesis by (simp add: window_def Let_def)
  qed
  then have "chunks_spec lines w step = []" for w step
    by (simp add: chunks_spec_def List.map_filter_def)
  then show ?thesis using assms(1-3) by (simp add: chunk_by_lines_valid)
qed

theorem chunk_by_lines_all_blank_witness:
  "chunk_by_lines ['''', '' ''] 3 1 = Some (Inr [])"
proof -
  have "\<forall>l \<in> set ['''', '' '']. is_blank l" by (simp add: is_blank_def is_space_def py_whitespace_def)
  then show ?thesis using chunk_by_lines_all_blank [of 3 1 "['''', '' '']"] by simp
qed

text \<open>Claim C10: parameters with lines_per_chunk <= 0, overlap_lines < 0 or overlap_lines >= lines_per_chunk fail the asserts (AssertionError) before any chunk is produced.\<close>

theorem chunk_by_lines_invalid:
  assumes "\<not> (0 < lines_per_chunk \<and> 0 \<le> overlap_lines \<and> overlap_lines < lines_per_chunk)"
  shows "chunk_by_lines lines lines_per_chunk overlap_lines = Some (Inl AssertionError)"
  using assms by (auto simp: chunk_by_lines_def)

theorem chunk_by_lines_invalid_witness:
  "chunk_by_lines [''a''] 3 3 = Some (Inl AssertionError)"
  using chunk_by_lines_invalid [of 3 3 "[''a'']"] by simp

text \<open>Claim C13: without its asserts (python -O), chunk_by_lines with overlap_lines >= lines_per_chunk on a non-empty input never returns: the loop index never increases.\<close>

theorem chunk_by_lines_unchecked_diverges:
  assumes "lines \<noteq> []" and "lines_per_chunk \<le> overlap_lines"
  shows "chunk_by_lines_unchecked lines lines_per_chunk overlap_lines = None"
proof (rule ccontr)
  let ?b = "\<lambda>st. chunk_i st < int (length lines)"
    and ?c = "chunk_body lines lines_per_chunk (lines_per_chunk - overlap_lines)"
  assume "chunk_by_lines_unchecked lines lines_per_chunk overlap_lines \<noteq> None"
  then obtain t where t: "while_option ?b ?c \<lparr>chunk_i = 0, chunk_list = []\<rparr> = Some t"
    by (auto simp: chunk_by_lines_unchecked_def chunk_loop_def)
  have "chunk_i t \<le> 0"
  proof (rule while_option_rule [where P = "\<lambda>st. chunk_i st \<le> 0", OF _ t])
    fix st :: chunk_state
    assume "chunk_i st \<le> 0"
    then show "chunk_i (?c st) \<le> 0" using assms(2) by (simp add: chunk_body_def Let_def)
  qed simp
  moreover have "\<not> ?b t" using t by (rule while_option_stop)
  moreover have "0 < int (length lines)" using assms(1) by simp
  ultimately show False by linarith
qed

theorem chunk_by_lines_unchecked_diverges_witness:
  "chunk_by_lines_unchecked [''a''] 3 3 = None"
  using chunk_by_lines_unchecked_diverges [of "[''a'']" 3 3] by simp

text \<open>The spec's scenario 1: lines a..e, lines_per_chunk = 3, overlap_lines = 1 give the chunks (1,3), (3,5) and the single-line tail chunk (5,5).\<close>

theorem chunk_by_lines_scenario1:
  "chunk_by_lines [''a'', ''b'', ''c'', ''d'', ''e''] 3 1 =
   Some (Inr [(1, 3, ''a\<newline>b\<newline>c''), (3, 5, ''c\<newline>d\<newline>e''), (5, 5, ''e'')])"
  by (simp add: chunk_by_lines_valid chunk_eval)

text \<open>Claim C17: every document longer than step = lines_per_chunk - overlap_lines but not longer than lines_per_chunk, whose last line is not blank, yields at least two chunks, the whole document (1, n) and the overlapping tail (step + 1, n), where spec 4.3 promises one chunk for a document shorter than lines_per_chunk.\<close>

theorem chunk_by_lines_short_two_chunks:
  assumes "0 < lines_per_chunk" "0 \<le> overlap_lines" "overlap_lines < lines_per_chunk"
    and "lines_per_chunk - overlap_lines < int (length lines)" "int (length lines) \<le> lines_per_chunk"
    and "\<not> is_blank (last lines)"
  shows "\<exists>t1 t2 cs. chunk_by_lines lines lines_per_chunk overlap_lines =
           Some (Inr ((1, int (length lines), t1) #
                      (lines_per_chunk - overlap_lines + 1, int (length lines), t2) # cs))"
proof -
  let ?w = "nat lines_per_chunk" and ?st = "nat (lines_per_chunk - overlap_lines)" and ?n = "length lines"
  have n: "0 < ?st" "?st < ?n" "?n \<le> ?w" "int ?st = lines_per_chunk - overlap_lines"
    using assms(1-5) by auto
  have pos: "0 < ?n" using n(2) by linarith
  have s0: "window_starts ?n ?st = 0 # filter (\<lambda>s. (s - (0 + ?st)) mod ?st = 0) [0 + ?st..<?n]"
    unfolding window_starts_eq by (rule filter_starts_step [OF n(1) pos])
  have s1: "filter (\<lambda>s. (s - (0 + ?st)) mod ?st = 0) [0 + ?st..<?n] =
            ?st # filter (\<lambda>s. (s - (?st + ?st)) mod ?st = 0) [?st + ?st..<?n]"
    using filter_starts_step [OF n(1) n(2)] by simp
  have "window_starts ?n ?st = 0 # ?st # filter (\<lambda>s. (s - (?st + ?st)) mod ?st = 0) [?st + ?st..<?n]"
    using s0 s1 by simp
  moreover obtain t1 where "window lines ?w 0 = Some (1, int ?n, t1)"
    using window_tail [of 0 lines ?w] pos n(3) assms(6) by auto
  moreover obtain t2 where "window lines ?w ?st = Some (int ?st + 1, int ?n, t2)"
    using window_tail [of ?st lines ?w] pos n(2,3) assms(6) by auto
  ultimately show ?thesis
    using assms(1-3) n(4) by (auto simp: chunk_by_lines_valid chunks_spec_def List.map_filter_simps)
qed

theorem chunk_by_lines_short_two_chunks_witness:
  "0 < (3::int) \<and> 0 \<le> (2::int) \<and> (2::int) < 3 \<and> 3 - 2 < int (length [''a'', ''b'']) \<and>
   int (length [''a'', ''b'']) \<le> 3 \<and> \<not> is_blank (last [''a'', ''b'']) \<and>
   (\<exists>t1 t2 cs. chunk_by_lines [''a'', ''b''] 3 2 = Some (Inr ((1, 2, t1) # (2, 2, t2) # cs)))"
proof -
  have nb: "\<not> is_blank (last [''a'', ''b''])" by (simp add: is_blank_def is_space_def py_whitespace_def)
  show ?thesis using chunk_by_lines_short_two_chunks [of 3 2 "[''a'', ''b'']"] nb by simp
qed

end
