(* ===== verification/Loader.thy ===== *)
theory Loader
  imports Prelude Normalize
begin

text \<open>
  The Document Loader, \<open>read_text_any\<close> of \<open>src/chunk.py\<close>. A source file is
  given by its path and by what the two readers the code uses return for it: the text of
  \<open>src.read_text(...)\<close> and, for a PDF, the list of \<open>page.extract_text()\<close> results of
  \<open>pypdf\<close> (\<open>None\<close> where a page has no text). The suffix test is on
  \<open>src.suffix.lower()\<close>; an unknown suffix raises \<open>ValueError\<close>. For a PDF the loop
  over the pages emits, per page, a marker line \<open>[[PAGE i]]\<close>, the page's lines and a
  blank separator line, each with \<open>i\<close> appended to \<open>page_of_line\<close>.
  \<open>pdf_line_pages\<close> is the reference description: the lines of the document, each paired
  with its page.
\<close>

subsection \<open>Paths\<close>

text \<open>
  \<open>pathlib.PurePosixPath\<close>: the parts of a path are its \<open>/\<close>-separated components
  without empty and \<open>.\<close> components; \<open>name\<close> is the last part, \<open>suffix\<close> the part
  of the name from its last dot (when that dot is neither first nor last), \<open>stem\<close> the
  name without its suffix.
\<close>

definition path_name :: "string \<Rightarrow> string" where
  "path_name p =
     (case rev (filter (\<lambda>s. s \<noteq> [] \<and> s \<noteq> ''.'') (split_on (CHR ''/'') p)) of
        [] \<Rightarrow> []
      | x # _ \<Rightarrow> x)"

text \<open>The position of the last dot of a name, as \<open>name.rfind(".")\<close> (\<open>-1\<close>: none).\<close>

definition rfind_dot :: "string \<Rightarrow> int" where
  "rfind_dot s = (if CHR ''.'' \<in> set s then int (length s - 1 - length (takeWhile (\<lambda>c. c \<noteq> CHR ''.'') (rev s))) else -1)"

definition path_suffix :: "string \<Rightarrow> string" where
  "path_suffix p =
     (let name = path_name p; i = rfind_dot name
      in if 0 < i \<and> i < int (length name) - 1 then drop (nat i) name else [])"

definition path_stem :: "string \<Rightarrow> string" where
  "path_stem p =
     (let name = path_name p; i = rfind_dot name
      in if 0 < i \<and> i < int (length name) - 1 then take (nat i) name else name)"

text \<open>
  \<open>str(Path(p))\<close>: the root (\<open>/\<close>, or \<open>//\<close> for exactly two leading slashes, as
  \<open>posixpath.splitroot\<close>) followed by the parts joined with \<open>/\<close>; \<open>.\<close> for a path
  with neither.
\<close>

definition py_path_str :: "string \<Rightarrow> string" where
  "py_path_str p =
     (let root = (if take 1 p \<noteq> ''/'' then []
                  else if take 1 (drop 1 p) \<noteq> ''/'' \<or> take 1 (drop 2 p) = ''/'' then ''/''
                  else ''//'');
          parts = filter (\<lambda>s. s \<noteq> [] \<and> s \<noteq> ''.'') (split_on (CHR ''/'') p)
      in if root = [] \<and> parts = [] then ''.'' else root @ py_join ''/'' parts)"

subsection \<open>The code\<close>

record source_file =
  src_path :: string
  file_text :: string
  pdf_pages :: "string option list"

text \<open>The loop's two lists.\<close>

record pdf_state =
  st_parts :: "string list"
  st_page_of_line :: "int list"

definition emit :: "string \<Rightarrow> int \<Rightarrow> pdf_state \<Rightarrow> pdf_state" where
  "emit part i st = st\<lparr>st_parts := st_parts st @ [part], st_page_of_line := st_page_of_line st @ [i]\<rparr>"

text \<open>One iteration of \<open>for i, page in enumerate(reader.pages, start=1)\<close>.\<close>

definition pdf_page_step :: "pdf_state \<Rightarrow> nat \<times> string option \<Rightarrow> pdf_state" where
  "pdf_page_step st ip =
     (let i = fst ip;
          page_text = (case snd ip of None \<Rightarrow> [] | Some t \<Rightarrow> t);
          page_text = unify_newlines page_text;
          lines = split_on (CHR ''\<newline>'') page_text;
          st = emit (''[[PAGE '' @ nat_str i @ '']]\<newline>'') (int i) st;
          st = fold (\<lambda>ln s. emit (ln @ ''\<newline>'') (int i) s) lines st
      in emit ''\<newline>'' (int i) st)"

datatype read_result = Plain string | Paged string "int list"

definition read_text_any :: "source_file \<Rightarrow> py_error + read_result" where
  "read_text_any src =
     (let suffix = py_lower (path_suffix (src_path src))
      in if suffix \<in> set [''.txt'', ''.md''] then Inr (Plain (file_text src))
         else if suffix = ''.pdf'' then
           (let st = fold (\<lambda>ip st. pdf_page_step st ip) (List.enumerate 1 (pdf_pages src))
                       \<lparr>st_parts = [], st_page_of_line = []\<rparr>
            in Inr (Paged (concat (st_parts st)) (st_page_of_line st)))
         else Inl (ValueError (''Unsupported file type: '' @ path_suffix (src_path src) @
                               '' (use .txt, .md, or .pdf)'')))"

subsection \<open>Reference description of a PDF's lines\<close>

text \<open>The lines one page contributes, each with the page number.\<close>

definition page_lines :: "nat \<Rightarrow> string option \<Rightarrow> (string \<times> int) list" where
  "page_lines i page =
     map (\<lambda>l. (l, int i))
       ((''[[PAGE '' @ nat_str i @ '']]'') #
        split_on (CHR ''\<newline>'') (unify_newlines (case page of None \<Rightarrow> [] | Some t \<Rightarrow> t)) @ [[]])"

definition pdf_line_pages :: "string option list \<Rightarrow> (string \<times> int) list" where
  "pdf_line_pages pages = concat (map (\<lambda>(i, p). page_lines i p) (List.enumerate 1 pages))"

subsection \<open>The page loop computes the reference lines\<close>

lemma fold_emit:
  "fold (\<lambda>ln s. emit (ln @ ''\<newline>'') i s) lns st =
   st\<lparr>st_parts := st_parts st @ map (\<lambda>l. l @ ''\<newline>'') lns,
      st_page_of_line := st_page_of_line st @ replicate (length lns) i\<rparr>"
  by (induction lns arbitrary: st) (simp_all add: emit_def replicate_append_same [symmetric])

lemma pdf_page_step_lines:
  "pdf_page_step st (i, p) =
   st\<lparr>st_parts := st_parts st @ map (\<lambda>l. fst l @ ''\<newline>'') (page_lines i p),
      st_page_of_line := st_page_of_line st @ map snd (page_lines i p)\<rparr>"
  unfolding pdf_page_step_def Let_def fold_emit
  by (simp add: emit_def page_lines_def comp_def map_replicate_const)

lemma fold_pdf_page_step:
  "fold (\<lambda>ip st. pdf_page_step st ip) ips st =
   st\<lparr>st_parts := st_parts st @ map (\<lambda>l. fst l @ ''\<newline>'') (concat (map (\<lambda>(i, p). page_lines i p) ips)),
      st_page_of_line := st_page_of_line st @ map snd (concat (map (\<lambda>(i, p). page_lines i p) ips))\<rparr>"
proof (induction ips arbitrary: st)
  case Nil
  then show ?case by simp
next
  case (Cons ip ips)
  obtain i p where "ip = (i, p)" by fastforce
  with Cons show ?case by (simp add: pdf_page_step_lines)
qed

lemma page_lines_chars:
  "l \<in> set (map fst (page_lines i p)) \<Longrightarrow> CHR ''\<newline>'' \<notin> set l \<and> CHR 0x0D \<notin> set l"
proof -
  assume "l \<in> set (map fst (page_lines i p))"
  then consider "l = ''[[PAGE '' @ nat_str i @ '']]''" | "l = []"
    | "l \<in> set (raw_lines (case p of None \<Rightarrow> [] | Some t \<Rightarrow> t))"
    by (auto simp: page_lines_def raw_lines_def)
  then show ?thesis
  proof cases
    case 1
    then show ?thesis using set_nat_str [of i] by auto
  next
    case 2
    then show ?thesis by simp
  next
    case 3
    then show ?thesis by (rule raw_lines_chars)
  qed
qed

lemma read_text_any_pdf_lines:
  assumes "read_text_any src = Inr (Paged text pol)"
  shows "raw_lines text = map fst (pdf_line_pages (pdf_pages src)) @ [[]] \<and>
         pol = map snd (pdf_line_pages (pdf_pages src))"
proof -
  let ?LP = "pdf_line_pages (pdf_pages src)"
  have eq: "text = concat (map (\<lambda>l. l @ ''\<newline>'') (map fst ?LP)) \<and> pol = map snd ?LP"
    using assms
    by (auto simp: read_text_any_def Let_def fold_pdf_page_step pdf_line_pages_def comp_def
             split: if_splits)
  have chars: "\<forall>l \<in> set (map fst ?LP). CHR ''\<newline>'' \<notin> set l \<and> CHR 0x0D \<notin> set l"
  proof
    fix l assume "l \<in> set (map fst ?LP)"
    then obtain i p where "l \<in> set (map fst (page_lines i p))"
      by (force simp: pdf_line_pages_def)
    then show "CHR ''\<newline>'' \<notin> set l \<and> CHR 0x0D \<notin> set l" by (rule page_lines_chars)
  qed
  have "CHR 0x0D \<notin> set text" using eq chars by auto
  then have "raw_lines text = split_on (CHR ''\<newline>'') text"
    by (simp add: raw_lines_def unify_newlines_def py_replace_absent)
  also have "\<dots> = map fst ?LP @ [[]]"
    using eq chars by (simp add: split_on_lines_nl comp_def)
  finally show ?thesis using eq by simp
qed

subsection \<open>Properties of the loader\<close>

text \<open>Claim C18: for a PDF, read_text_any returns a text whose lines (split as normalize_lines splits them) are exactly the reference lines of the pages (per page the marker [[PAGE i]], the page's lines and a blank separator) followed by one empty line, and a page map that gives, line for line, the page of each reference line; so len(page_of_line) is the number of lines the loader produced.\<close>

theorem read_text_any_pdf:
  assumes "read_text_any src = Inr (Paged text pol)"
  shows "raw_lines text = map fst (pdf_line_pages (pdf_pages src)) @ [[]] \<and>
         pol = map snd (pdf_line_pages (pdf_pages src))"
  using assms by (rule read_text_any_pdf_lines)

theorem read_text_any_pdf_witness:
  "read_text_any \<lparr>src_path = ''w.PDF'', file_text = [], pdf_pages = [Some ''a'']\<rparr> =
     Inr (Paged ''[[PAGE 1]]\<newline>a\<newline>\<newline>'' [1, 1, 1]) \<and>
   raw_lines ''[[PAGE 1]]\<newline>a\<newline>\<newline>'' =
     map fst (pdf_line_pages [Some ''a'']) @ [[]] \<and>
   [1, 1, 1] = map snd (pdf_line_pages [Some ''a''])"
proof -
  have ev: "read_text_any \<lparr>src_path = ''w.PDF'', file_text = [], pdf_pages = [Some ''a'']\<rparr> =
     Inr (Paged ''[[PAGE 1]]\<newline>a\<newline>\<newline>'' [1, 1, 1])"
    by (simp add: read_text_any_def path_suffix_def path_name_def rfind_dot_def py_lower_def
                  py_lower_char_def pdf_page_step_def emit_def unify_newlines_def nat_str.simps
                  digit_char_def)
  show ?thesis using read_text_any_pdf [OF ev] ev by simp
qed

end
