(* ===== verification/Records.thy ===== *)
theory Records
  imports Prelude Chunker Loader
begin

text \<open>
  The Record Builder, \<open>build_records\<close> of \<open>src/chunk.py\<close>: one dict per chunk, in
  order, with the id \<open>{stem}__chunk_{idx:05d}\<close>, the file name, the line range and the
  text, and, when a page map is given and covers \<open>end_line\<close>, the pages of the first
  and the last line, read with Python indexing (\<open>page_of_line[start_line - 1]\<close>, which
  raises \<open>IndexError\<close> out of range and counts from the end for a negative index).
\<close>

subsection \<open>The code\<close>

definition record_id :: "string \<Rightarrow> nat \<Rightarrow> string" where
  "record_id stem idx = stem @ ''__chunk_'' @ pad5 idx"

text \<open>The body of \<open>for idx, (start_line, end_line, text) in enumerate(chunks)\<close>.\<close>

definition build_record :: "string \<Rightarrow> int list option \<Rightarrow> nat \<Rightarrow> chunk \<Rightarrow> py_error + pydict" where
  "build_record source_path page_of_line idx c =
     (let (start_line, end_line, text) = c;
          rec = [(''id'', JStr (record_id (path_stem source_path) idx)),
                 (''source_file'', JStr (path_name source_path)),
                 (''start_line'', JInt start_line),
                 (''end_line'', JInt end_line),
                 (''text'', JStr text)]
      in (case page_of_line of
            None \<Rightarrow> Inr rec
          | Some pol \<Rightarrow>
              (if end_line \<le> int (length pol) then
                 (case py_index pol (start_line - 1) of
                    Inl e \<Rightarrow> Inl e
                  | Inr sp \<Rightarrow>
                      (case py_index pol (end_line - 1) of
                         Inl e \<Rightarrow> Inl e
                       | Inr ep \<Rightarrow> Inr (dict_set (dict_set rec ''start_page'' (JInt sp))
                                               ''end_page'' (JInt ep))))
               else Inr rec)))"

fun build_records_from :: "string \<Rightarrow> int list option \<Rightarrow> nat \<Rightarrow> chunk list \<Rightarrow> py_error + pydict list" where
  "build_records_from source_path pol idx [] = Inr []"
| "build_records_from source_path pol idx (c # cs) =
     (case build_record source_path pol idx c of
        Inl e \<Rightarrow> Inl e
      | Inr r \<Rightarrow> (case build_records_from source_path pol (Suc idx) cs of
                   Inl e \<Rightarrow> Inl e
                 | Inr rs \<Rightarrow> Inr (r # rs)))"

definition build_records :: "string \<Rightarrow> chunk list \<Rightarrow> int list option \<Rightarrow> py_error + pydict list" where
  "build_records source_path chunks page_of_line = build_records_from source_path page_of_line 0 chunks"

subsection \<open>Reference description\<close>

text \<open>The five fields every record has, and the page fields of a covered page map.\<close>

definition base_record :: "string \<Rightarrow> nat \<Rightarrow> chunk \<Rightarrow> pydict" where
  "base_record source_path idx c =
     [(''id'', JStr (record_id (path_stem source_path) idx)),
      (''source_file'', JStr (path_name source_path)),
      (''start_line'', JInt (fst c)),
      (''end_line'', JInt (fst (snd c))),
      (''text'', JStr (snd (snd c)))]"

definition page_fields :: "int list option \<Rightarrow> int \<Rightarrow> int \<Rightarrow> pydict" where
  "page_fields pol a b =
     (case pol of
        None \<Rightarrow> []
      | Some P \<Rightarrow> if b \<le> int (length P)
                  then [(''start_page'', JInt (P ! nat (a - 1))), (''end_page'', JInt (P ! nat (b - 1)))]
                  else [])"

definition record_spec :: "string \<Rightarrow> int list option \<Rightarrow> nat \<Rightarrow> chunk \<Rightarrow> pydict" where
  "record_spec source_path pol idx c =
     base_record source_path idx c @ page_fields pol (fst c) (fst (snd c))"

text \<open>A chunk as the Chunker emits it: \<open>1 \<le> start_line \<le> end_line\<close>.\<close>

definition valid_chunk :: "chunk \<Rightarrow> bool" where
  "valid_chunk c \<longleftrightarrow> 1 \<le> fst c \<and> fst c \<le> fst (snd c)"

text \<open>The schemas of the two kinds of record: the five fields, then the two page fields.\<close>

definition chunk_schema :: "(string \<times> jtype) list" where
  "chunk_schema = [(''id'', TStr), (''source_file'', TStr), (''start_line'', TInt),
                   (''end_line'', TInt), (''text'', TStr)]"

definition page_schema :: "(string \<times> jtype) list" where
  "page_schema = chunk_schema @ [(''start_page'', TInt), (''end_page'', TInt)]"

subsection \<open>The loop computes the reference records\<close>

lemma record_spec_distinct: "distinct (map fst (record_spec p pol k c))"
  by (auto simp: record_spec_def base_record_def page_fields_def split: option.splits)

lemma py_index_in_range: "0 \<le> i \<Longrightarrow> i < int (length xs) \<Longrightarrow> py_index xs i = Inr (xs ! nat i)"
  by (simp add: py_index_def)

lemma build_record_valid:
  assumes "valid_chunk c"
  shows "build_record p pol idx c = Inr (record_spec p pol idx c)"
proof -
  obtain a b t where c: "c = (a, b, t)" by (cases c) auto
  with assms have ab: "1 \<le> a" "a \<le> b" by (auto simp: valid_chunk_def)
  show ?thesis
  proof (cases pol)
    case None
    then show ?thesis by (simp add: c build_record_def record_spec_def base_record_def page_fields_def)
  next
    case (Some P)
    show ?thesis
    proof (cases "b \<le> int (length P)")
      case True
      with ab have "py_index P (a - 1) = Inr (P ! nat (a - 1))" "py_index P (b - 1) = Inr (P ! nat (b - 1))"
        by (simp_all add: py_index_in_range)
      with True Some show ?thesis
        by (simp add: c build_record_def record_spec_def base_record_def page_fields_def dict_set_fresh)
    next
      case False
      with Some show ?thesis
        by (simp add: c build_record_def record_spec_def base_record_def page_fields_def)
    qed
  qed
qed

lemma build_record_id:
  assumes "build_record p pol idx c = Inr r"
  shows "dict_get r ''id'' = Some (JStr (record_id (path_stem p) idx))"
proof -
  obtain a b t where c: "c = (a, b, t)" by (cases c) auto
  let ?rec = "[(''id'', JStr (record_id (path_stem p) idx)), (''source_file'', JStr (path_name p)),
               (''start_line'', JInt a), (''end_line'', JInt b), (''text'', JStr t)]"
  have "r = ?rec \<or> (\<exists>sp ep. r = dict_set (dict_set ?rec ''start_page'' (JInt sp)) ''end_page'' (JInt ep))"
    using assms unfolding c build_record_def Let_def
    by (auto split: option.splits if_splits sum.splits)
  then show ?thesis by (auto simp: dict_get_def)
qed

lemma build_record_typed:
  assumes "build_record p pol idx c = Inr r"
  shows "has_schema chunk_schema r \<or> (pol \<noteq> None \<and> has_schema page_schema r)"
proof -
  obtain a b t where c: "c = (a, b, t)" by (cases c) auto
  show ?thesis
    using assms by (auto simp: build_record_def c Let_def chunk_schema_def page_schema_def
                     split: option.splits if_splits sum.splits)
qed

lemma build_records_from_valid:
  "\<forall>c \<in> set cs. valid_chunk c \<Longrightarrow>
   build_records_from p pol idx cs = Inr (map (\<lambda>(k, c). record_spec p pol k c) (List.enumerate idx cs))"
  by (induction cs arbitrary: idx) (simp_all add: build_record_valid)

lemma build_records_from_Inr:
  assumes "build_records_from p pol idx (c # cs) = Inr rs"
  obtains r rs' where "build_record p pol idx c = Inr r"
    and "build_records_from p pol (Suc idx) cs = Inr rs'" and "rs = r # rs'"
  using assms by (auto split: sum.splits)

lemma build_records_from_ids:
  "build_records_from p pol idx cs = Inr rs \<Longrightarrow>
   map (\<lambda>r. dict_get r ''id'') rs = map (\<lambda>k. Some (JStr (record_id (path_stem p) k))) [idx..<idx + length cs]"
proof (induction cs arbitrary: idx rs)
  case Nil
  then show ?case by simp
next
  case (Cons c cs)
  from Cons.prems obtain r rs' where r: "build_record p pol idx c = Inr r"
    and rs': "build_records_from p pol (Suc idx) cs = Inr rs'" and rs: "rs = r # rs'"
    by (rule build_records_from_Inr)
  have "[idx..<idx + length (c # cs)] = idx # [Suc idx..<Suc idx + length cs]"
    by (simp add: upt_conv_Cons del: upt_Suc)
  with Cons.IH [OF rs'] build_record_id [OF r] show ?case
    by (simp add: rs del: upt_Suc)
qed

lemma build_records_from_typed:
  "build_records_from p pol idx cs = Inr rs \<Longrightarrow> r \<in> set rs \<Longrightarrow>
   has_schema chunk_schema r \<or> (pol \<noteq> None \<and> has_schema page_schema r)"
proof (induction cs arbitrary: idx rs)
  case Nil
  then show ?case by simp
next
  case (Cons c cs)
  then show ?case by (auto split: sum.splits dest: build_record_typed)
qed

lemma digits_val_zeros: "digits_val (replicate m (CHR ''0'') @ s) = digits_val s"
proof -
  have "foldl (\<lambda>acc c. 10 * acc + (of_char c - 48)) 0 (replicate m (CHR ''0'')) = (0::nat)"
    by (induction m) simp_all
  then show ?thesis by (simp add: digits_val_def)
qed

lemma digits_val_pad5 [simp]: "digits_val (pad5 n) = n"
  by (simp add: pad5_def digits_val_zeros)

lemma record_id_inj: "record_id stem i = record_id stem j \<Longrightarrow> i = j"
proof -
  assume "record_id stem i = record_id stem j"
  then have "pad5 i = pad5 j" by (simp add: record_id_def)
  then show "i = j" by (metis digits_val_pad5)
qed

lemma build_records_id_values_distinct:
  assumes "build_records p chunks pol = Inr rs"
  shows "distinct (map (\<lambda>r. the (dict_get r ''id'')) rs)"
proof -
  have "map (\<lambda>r. dict_get r ''id'') rs = map (\<lambda>k. Some (JStr (record_id (path_stem p) k))) [0..<length chunks]"
    using build_records_from_ids assms by (simp add: build_records_def)
  then have "map (\<lambda>r. the (dict_get r ''id'')) rs = map (\<lambda>k. JStr (record_id (path_stem p) k)) [0..<length chunks]"
    by (metis (no_types, lifting) list.map_comp option.sel comp_apply map_eq_conv)
  moreover have "inj_on (\<lambda>k. JStr (record_id (path_stem p) k)) (set [0..<length chunks])"
    by (auto intro: inj_onI dest: record_id_inj)
  ultimately show ?thesis by (simp add: distinct_map)
qed

lemmas record_eval = build_records_def build_record_def record_id_def pad5_def nat_str.simps
  digit_char_def path_stem_def path_name_def rfind_dot_def dict_get_def py_index_def

lemma build_records_example:
  "build_records ''docs/war.txt'' [(1, 1, ''a''), (2, 2, ''b'')] None =
   Inr [[(''id'', JStr ''war__chunk_00000''), (''source_file'', JStr ''war.txt''),
         (''start_line'', JInt 1), (''end_line'', JInt 1), (''text'', JStr ''a'')],
        [(''id'', JStr ''war__chunk_00001''), (''source_file'', JStr ''war.txt''),
         (''start_line'', JInt 2), (''end_line'', JInt 2), (''text'', JStr ''b'')]]"
  by (simp add: record_eval numeral_eq_Suc)

subsection \<open>Properties of the records\<close>

text \<open>Claim C19: for chunks with 1 <= start_line <= end_line (all the Chunker emits), build_records raises nothing and returns, in chunk order, one record per chunk: the id stem__chunk_{idx:05d}, the file name, the line range and the text, followed by start_page and end_page read from the page map when it covers end_line.\<close>

theorem build_records_spec:
  assumes "\<forall>c \<in> set chunks. valid_chunk c"
  shows "build_records source_path chunks page_of_line =
         Inr (map (\<lambda>(k, c). record_spec source_path page_of_line k c) (List.enumerate 0 chunks))"
  using assms by (simp add: build_records_def build_records_from_valid)

theorem build_records_spec_witness:
  "valid_chunk (2, 3, ''x'') \<and>
   build_records ''d/w.pdf'' [(2, 3, ''x'')] (Some [1, 1, 2]) =
   Inr [[(''id'', JStr (record_id (path_stem ''d/w.pdf'') 0)), (''source_file'', JStr (path_name ''d/w.pdf'')),
         (''start_line'', JInt 2), (''end_line'', JInt 3), (''text'', JStr ''x''),
         (''start_page'', JInt 1), (''end_page'', JInt 2)]]"
proof -
  have v: "valid_chunk (2, 3, ''x'')" by (simp add: valid_chunk_def)
  show ?thesis
    using build_records_spec [of "[(2, 3, ''x'')]" "''d/w.pdf''" "Some [1, 1, 2]"] v
    by (simp add: record_spec_def base_record_def page_fields_def)
qed

text \<open>Claim C20: the ids of the records of one call are pairwise distinct (the zero-padded index is decoded back to the index).\<close>

theorem build_records_ids_distinct:
  assumes "build_records source_path chunks page_of_line = Inr rs"
  shows "distinct (map (\<lambda>r. dict_get r ''id'') rs)"
proof -
  have "map (\<lambda>r. dict_get r ''id'') rs =
        map (\<lambda>k. Some (JStr (record_id (path_stem source_path) k))) [0..<length chunks]"
    using build_records_from_ids assms by (simp add: build_records_def)
  moreover have "inj_on (\<lambda>k. Some (JStr (record_id (path_stem source_path) k))) (set [0..<length chunks])"
    by (auto intro: inj_onI dest: record_id_inj)
  ultimately show ?thesis by (simp add: distinct_map)
qed

theorem build_records_ids_distinct_witness:
  "build_records ''docs/war.txt'' [(1, 1, ''a''), (2, 2, ''b'')] None =
   Inr [[(''id'', JStr ''war__chunk_00000''), (''source_file'', JStr ''war.txt''),
         (''start_line'', JInt 1), (''end_line'', JInt 1), (''text'', JStr ''a'')],
        [(''id'', JStr ''war__chunk_00001''), (''source_file'', JStr ''war.txt''),
         (''start_line'', JInt 2), (''end_line'', JInt 2), (''text'', JStr ''b'')]] \<and>
   distinct [Some (JStr ''war__chunk_00000''), Some (JStr ''war__chunk_00001'')]"
  using build_records_ids_distinct [OF build_records_example] build_records_example
  by (simp add: dict_get_def)

text \<open>Claim C21: every record build_records returns is well typed: it has exactly the keys id, source_file, start_line, end_line, text, in this order, with str, str, int, int, str values, followed, only when a page map is given, by int start_page and end_page.\<close>

theorem build_records_typed:
  assumes "build_records source_path chunks page_of_line = Inr rs" and "r \<in> set rs"
  shows "has_schema chunk_schema r \<or> (page_of_line \<noteq> None \<and> has_schema page_schema r)"
  using assms unfolding build_records_def by (rule build_records_from_typed)

theorem build_records_typed_witness:
  "has_schema chunk_schema [(''id'', JStr ''war__chunk_00000''), (''source_file'', JStr ''war.txt''),
         (''start_line'', JInt 1), (''end_line'', JInt 1), (''text'', JStr ''a'')]"
  using build_records_typed [OF build_records_example, of "[(''id'', JStr ''war__chunk_00000''), (''source_file'', JStr ''war.txt''),
         (''start_line'', JInt 1), (''end_line'', JInt 1), (''text'', JStr ''a'')]"]
  by simp

end
