(* ===== verification/Pipeline.thy ===== *)
theory Pipeline
  imports Loader Normalize Chunker Records
begin

text \<open>
  The composition of \<open>main\<close> in \<open>src/chunk.py\<close> (lines 125--128): load the source,
  normalize its text, chunk the normalized lines and build the records, passing the page map
  of a PDF to \<open>build_records\<close> unchanged. An exception of any stage ends the run with that
  exception; \<open>None\<close> is a run whose chunking loop does not end.
\<close>

definition chunk_main :: "source_file \<Rightarrow> int \<Rightarrow> int \<Rightarrow> (py_error + pydict list) option" where
  "chunk_main src lines_per_chunk overlap_lines =
     (case read_text_any src of
        Inl e \<Rightarrow> Some (Inl e)
      | Inr rr \<Rightarrow>
          (let text = (case rr of Plain t \<Rightarrow> t | Paged t _ \<Rightarrow> t);
               page_of_line = (case rr of Plain _ \<Rightarrow> None | Paged _ p \<Rightarrow> Some p);
               lines = normalize_lines text
           in (case chunk_by_lines lines lines_per_chunk overlap_lines of
                 None \<Rightarrow> None
               | Some (Inl e) \<Rightarrow> Some (Inl e)
               | Some (Inr chunks) \<Rightarrow> Some (build_records (src_path src) chunks page_of_line))))"

text \<open>The two results of \<open>read_text_any\<close> as \<open>main\<close> uses them.\<close>

definition read_lines :: "read_result \<Rightarrow> string list" where
  "read_lines rr = normalize_lines (case rr of Plain t \<Rightarrow> t | Paged t _ \<Rightarrow> t)"

definition read_pages :: "read_result \<Rightarrow> int list option" where
  "read_pages rr = (case rr of Plain _ \<Rightarrow> None | Paged _ p \<Rightarrow> Some p)"

subsection \<open>The pipeline computes the reference records\<close>

lemma chunks_spec_valid:
  assumes "0 < w" "c \<in> set (chunks_spec lines w step)"
  shows "valid_chunk c \<and> fst (snd c) \<le> int (length lines)"
proof -
  obtain a b t where c: "c = (a, b, t)" by (cases c) auto
  from assms(2) obtain s where "s < length lines" "window lines w s = Some (a, b, t)"
    by (auto simp: c set_chunks_spec)
  with assms(1) show ?thesis by (auto simp: c valid_chunk_def dest: window_Some)
qed

lemma chunk_main_eq:
  assumes "read_text_any src = Inr rr" "0 < lines_per_chunk" "0 \<le> overlap_lines" "overlap_lines < lines_per_chunk"
  shows "chunk_main src lines_per_chunk overlap_lines =
         Some (Inr (map (\<lambda>(k, c). record_spec (src_path src) (read_pages rr) k c)
                     (List.enumerate 0 (chunks_spec (read_lines rr) (nat lines_per_chunk) (nat (lines_per_chunk - overlap_lines))))))"
proof -
  let ?cs = "chunks_spec (read_lines rr) (nat lines_per_chunk) (nat (lines_per_chunk - overlap_lines))"
  have "\<forall>c \<in> set ?cs. valid_chunk c"
  proof
    fix c assume "c \<in> set ?cs"
    then show "valid_chunk c" using chunks_spec_valid [of "nat lines_per_chunk" c] assms(2) by simp
  qed
  then show ?thesis
    using assms
    by (cases rr) (simp_all add: chunk_main_def chunk_by_lines_valid build_records_def
                                 build_records_from_valid read_lines_def read_pages_def)
qed

lemma chunk_main_Inr:
  assumes "chunk_main src lines_per_chunk overlap_lines = Some (Inr rs)"
  obtains rr where "read_text_any src = Inr rr" "0 < lines_per_chunk" "0 \<le> overlap_lines" "overlap_lines < lines_per_chunk"
    and "rs = map (\<lambda>(k, c). record_spec (src_path src) (read_pages rr) k c)
                (List.enumerate 0 (chunks_spec (read_lines rr) (nat lines_per_chunk) (nat (lines_per_chunk - overlap_lines))))"
proof -
  obtain rr where rr: "read_text_any src = Inr rr"
    using assms by (cases "read_text_any src") (auto simp: chunk_main_def)
  then obtain cs where "chunk_by_lines (read_lines rr) lines_per_chunk overlap_lines = Some (Inr cs)"
    using assms by (cases rr) (auto simp: chunk_main_def read_lines_def split: option.splits sum.splits)
  then have v: "0 < lines_per_chunk" "0 \<le> overlap_lines" "overlap_lines < lines_per_chunk" by (auto dest: chunk_by_lines_Inr)
  with rr assms show ?thesis using that chunk_main_eq [OF rr v] by simp
qed

lemma record_spec_in:
  assumes "r \<in> set (map (\<lambda>(k, c). record_spec p pol k c) (List.enumerate 0 cs))"
  obtains k c where "c \<in> set cs" "r = record_spec p pol k c"
proof -
  from assms obtain k c where kc: "(k, c) \<in> set (List.enumerate 0 cs)"
    and r: "r = record_spec p pol k c" by auto
  from kc have "k < length cs" "cs ! k = c" by (simp_all add: in_set_enumerate_eq)
  then have "c \<in> set cs" by (metis nth_mem)
  with r that show ?thesis by blast
qed


lemma chunk_main_record_spec:
  assumes "chunk_main src lines_per_chunk overlap_lines = Some (Inr rs)"
  shows "\<exists>pol. \<forall>r \<in> set rs. \<exists>k c. r = record_spec (src_path src) pol k c"
proof -
  from assms obtain rr where
    rs: "rs = map (\<lambda>(k, c). record_spec (src_path src) (read_pages rr) k c)
                (List.enumerate 0 (chunks_spec (read_lines rr) (nat lines_per_chunk)
                                               (nat (lines_per_chunk - overlap_lines))))"
    by (rule chunk_main_Inr)
  have "\<exists>k c. r = record_spec (src_path src) (read_pages rr) k c" if "r \<in> set rs" for r
    using that unfolding rs by (rule record_spec_in) blast
  then show ?thesis by blast
qed
lemma sorted_pdf_pages: "sorted (map snd (concat (map (\<lambda>(i, p). page_lines i p) (List.enumerate n ps))))"
proof (induction ps arbitrary: n)
  case Nil
  then show ?case by simp
next
  case (Cons p ps)
  have "\<forall>x \<in> set (concat (map (\<lambda>(i, p). page_lines i p) (List.enumerate (Suc n) ps))). int n \<le> snd x"
    by (auto simp: page_lines_def in_set_enumerate_eq)
  with Cons.IH [of "Suc n"] show ?case
    by (auto simp: sorted_append page_lines_def sorted_wrt_map)
qed

lemma page_lines_not_Nil [simp]: "page_lines i p \<noteq> []"
  by (simp add: page_lines_def)

lemma pdf_lines_last:
  "ps \<noteq> [] \<Longrightarrow> concat (map (\<lambda>(i, p). page_lines i p) (List.enumerate n ps)) \<noteq> [] \<and>
     fst (last (concat (map (\<lambda>(i, p). page_lines i p) (List.enumerate n ps)))) = []"
proof (induction ps arbitrary: n)
  case Nil
  then show ?case by simp
next
  case (Cons p ps)
  show ?case
  proof (cases "ps = []")
    case True
    then show ?thesis by (simp add: page_lines_def)
  next
    case False
    with Cons.IH [of "Suc n"] show ?thesis by simp
  qed
qed

lemma pdf_lines_collapse:
  assumes "read_text_any src = Inr (Paged text pol)" "pdf_pages src \<noteq> []"
  shows "normalize_lines text = collapse False (map fst (pdf_line_pages (pdf_pages src)))"
proof -
  let ?LP = "pdf_line_pages (pdf_pages src)"
  from pdf_lines_last [OF assms(2), of 1]
  have ne: "map fst ?LP \<noteq> []" and lastb: "is_blank (last (map fst ?LP))"
    by (simp_all add: pdf_line_pages_def last_map)
  have "normalize_lines text = collapse False (map fst ?LP @ [[]])"
    using read_text_any_pdf_lines [OF assms(1)] by (simp add: normalize_lines_eq_collapse)
  also have "\<dots> = collapse False (map fst ?LP)"
    using ne lastb by (simp add: collapse_snoc_blank)
  finally show ?thesis .
qed

lemma pdf_lines_normalized:
  assumes "read_text_any src = Inr (Paged text pol)" "pdf_pages src \<noteq> []"
    and "no_two_blank (map fst (pdf_line_pages (pdf_pages src)))"
  shows "normalize_lines text = map tidy_line (map fst (pdf_line_pages (pdf_pages src)))"
  using pdf_lines_collapse [OF assms(1,2)] assms(3) by (simp add: collapse_map_tidy)

lemma dict_get_record_spec:
  "dict_get (record_spec p pol k c) ''start_line'' = Some (JInt (fst c)) \<and>
   dict_get (record_spec p pol k c) ''end_line'' = Some (JInt (fst (snd c))) \<and>
   dict_get (record_spec p pol k c) ''start_page'' = map_of (page_fields pol (fst c) (fst (snd c))) ''start_page'' \<and>
   dict_get (record_spec p pol k c) ''end_page'' = map_of (page_fields pol (fst c) (fst (snd c))) ''end_page''"
  by (simp add: record_spec_def base_record_def dict_get_def map_of_append)

subsection \<open>Runs of the pipeline\<close>

lemmas pipeline_eval = read_text_any_def path_suffix_def path_name_def rfind_dot_def py_lower_def
  py_lower_char_def pdf_page_step_def emit_def unify_newlines_def nat_str.simps digit_char_def

lemma read_example_shift: "read_text_any \<lparr>src_path = ''war.pdf'', file_text = [], pdf_pages = [Some ''a\<newline>\<newline>\<newline>'', Some ''b\<newline>c'']\<rparr> =
     Inr (Paged ''[[PAGE 1]]\<newline>a\<newline>\<newline>\<newline>\<newline>\<newline>[[PAGE 2]]\<newline>b\<newline>c\<newline>\<newline>'' [1, 1, 1, 1, 1, 1, 2, 2, 2, 2])"
    by (simp add: pipeline_eval)

lemma normalize_example_shift: "normalize_lines ''[[PAGE 1]]\<newline>a\<newline>\<newline>\<newline>\<newline>\<newline>[[PAGE 2]]\<newline>b\<newline>c\<newline>\<newline>'' =
  [''[[PAGE 1]]'', ''a'', [], ''[[PAGE 2]]'', ''b'', ''c'', []]"
  by (simp add: normalize_lines_def normalize_step_def unify_newlines_def py_strip_def py_lstrip_def
                py_rstrip_def is_space_def py_whitespace_def)

lemma chunks_example_shift: "chunks_spec [''[[PAGE 1]]'', ''a'', [], ''[[PAGE 2]]'', ''b'', ''c'', []] 3 3 =
  [(1, 3, ''[[PAGE 1]]\<newline>a''), (4, 6, ''[[PAGE 2]]\<newline>b\<newline>c'')]"
  by (simp add: chunk_eval)

lemma pad5_small: "pad5 0 = ''00000''" "pad5 1 = ''00001''" "pad5 (Suc 0) = ''00001''"
  by (simp_all add: pad5_def nat_str.simps digit_char_def numeral_eq_Suc)

lemma stem_war: "path_stem ''war.pdf'' = ''war''" "path_name ''war.pdf'' = ''war.pdf''"
  by (simp_all add: path_stem_def path_name_def rfind_dot_def)

lemma chunk_main_example_shift:
  "chunk_main \<lparr>src_path = ''war.pdf'', file_text = [], pdf_pages = [Some ''a\<newline>\<newline>\<newline>'', Some ''b\<newline>c'']\<rparr> 3 0 =
   Some (Inr [[(''id'', JStr ''war__chunk_00000''), (''source_file'', JStr ''war.pdf''),
               (''start_line'', JInt 1), (''end_line'', JInt 3), (''text'', JStr ''[[PAGE 1]]\<newline>a''),
               (''start_page'', JInt 1), (''end_page'', JInt 1)],
              [(''id'', JStr ''war__chunk_00001''), (''source_file'', JStr ''war.pdf''),
               (''start_line'', JInt 4), (''end_line'', JInt 6), (''text'', JStr ''[[PAGE 2]]\<newline>b\<newline>c''),
               (''start_page'', JInt 1), (''end_page'', JInt 1)]])"
  by (simp add: chunk_main_eq [OF read_example_shift] read_lines_def read_pages_def normalize_example_shift chunks_example_shift record_spec_def
                base_record_def page_fields_def record_id_def pad5_small stem_war)

lemma read_example_ok:
  "read_text_any \<lparr>src_path = ''war.pdf'', file_text = [], pdf_pages = [Some ''a'', Some ''b'']\<rparr> = Inr (Paged ''[[PAGE 1]]\<newline>a\<newline>\<newline>[[PAGE 2]]\<newline>b\<newline>\<newline>'' [1, 1, 1, 2, 2, 2])"
  by (simp add: pipeline_eval)

lemma normalize_example_ok:
  "normalize_lines ''[[PAGE 1]]\<newline>a\<newline>\<newline>[[PAGE 2]]\<newline>b\<newline>\<newline>'' = [''[[PAGE 1]]'', ''a'', [], ''[[PAGE 2]]'', ''b'', []]"
  by (simp add: normalize_lines_def normalize_step_def unify_newlines_def py_strip_def py_lstrip_def
                py_rstrip_def is_space_def py_whitespace_def)

lemma chunk_main_example_ok:
  "chunk_main \<lparr>src_path = ''war.pdf'', file_text = [], pdf_pages = [Some ''a'', Some ''b'']\<rparr> 3 0 =
   Some (Inr [[(''id'', JStr ''war__chunk_00000''), (''source_file'', JStr ''war.pdf''), (''start_line'', JInt 1), (''end_line'', JInt 3), (''text'', JStr ''[[PAGE 1]]\<newline>a''), (''start_page'', JInt 1), (''end_page'', JInt 1)],
              [(''id'', JStr ''war__chunk_00001''), (''source_file'', JStr ''war.pdf''), (''start_line'', JInt 4), (''end_line'', JInt 6), (''text'', JStr ''[[PAGE 2]]\<newline>b''), (''start_page'', JInt 2), (''end_page'', JInt 2)]])"
proof -
  have "chunks_spec [''[[PAGE 1]]'', ''a'', [], ''[[PAGE 2]]'', ''b'', []] 3 3 =
        [(1, 3, ''[[PAGE 1]]\<newline>a''), (4, 6, ''[[PAGE 2]]\<newline>b'')]"
    by (simp add: chunk_eval)
  then show ?thesis
    by (simp add: chunk_main_eq [OF read_example_ok] read_lines_def read_pages_def normalize_example_ok
                  record_spec_def base_record_def page_fields_def record_id_def pad5_small stem_war)
qed

lemma pdf_line_pages_example_ok:
  "pdf_line_pages [Some ''a'', Some ''b''] =
   [(''[[PAGE 1]]'', 1), (''a'', 1), ([], 1), (''[[PAGE 2]]'', 2), (''b'', 2), ([], 2)]"
  by (simp add: pdf_line_pages_def page_lines_def unify_newlines_def nat_str.simps digit_char_def)

end
