(* ===== verification/Json.thy ===== *)
theory Json
  imports Prelude Normalize
begin

text \<open>
  The Serializer and its reader: \<open>write_jsonl\<close> of \<open>src/chunk.py\<close> writes one
  \<open>json.dumps(r, ensure_ascii=False)\<close> per record and line; \<open>load_jsonl\<close> of
  \<open>src/ingest_chroma.py\<close> reads the file line by line (text mode: \<open>\r\n\<close> and
  \<open>\r\<close> read as \<open>\n\<close>), strips each line, skips empty ones and parses the rest with
  \<open>json.loads\<close>. The records are dicts of strings and integers, so the JSON encoder is
  modelled for such dicts (Python's \<open>encode_basestring\<close>: \<open>"\<close>, \<open>\\\<close> and the
  control characters are escaped, everything else is written as it is) and the decoder for
  JSON objects whose values are strings or integers; any other JSON text is outside the
  model and decodes to \<open>JSONDecodeError\<close>.
\<close>

subsection \<open>Encoding: json.dumps\<close>

definition bslash :: char where "bslash = CHR 0x5C"
definition dquote :: char where "dquote = CHR 0x22"

text \<open>\<open>ESCAPE_DCT\<close> of Python's \<open>json.encoder\<close>.\<close>

definition json_escape_char :: "char \<Rightarrow> string" where
  "json_escape_char c =
     (if c = dquote then [bslash, dquote]
      else if c = bslash then [bslash, bslash]
      else if c = CHR 0x0A then [bslash, CHR ''n'']
      else if c = CHR 0x0D then [bslash, CHR ''r'']
      else if c = CHR 0x09 then [bslash, CHR ''t'']
      else if c = CHR 0x08 then [bslash, CHR ''b'']
      else if c = CHR 0x0C then [bslash, CHR ''f'']
      else if of_char c < (32::nat)
        then [bslash, CHR ''u'', CHR ''0'', CHR ''0'',
              hex_digit (of_char c div 16), hex_digit (of_char c mod 16)]
      else [c])"

definition json_str :: "string \<Rightarrow> string" where
  "json_str s = dquote # concat (map json_escape_char s) @ [dquote]"

fun json_val :: "jval \<Rightarrow> string" where
  "json_val (JStr s) = json_str s"
| "json_val (JInt i) = int_str i"

text \<open>\<open>json.dumps(d)\<close> with the default separators \<open>", "\<close> and \<open>": "\<close>.\<close>

definition json_dumps :: "pydict \<Rightarrow> string" where
  "json_dumps d = ''{'' @ py_join '', '' (map (\<lambda>(k, v). json_str k @ '': '' @ json_val v) d) @ ''}''"

text \<open>The content \<open>write_jsonl\<close> leaves in the output file.\<close>

definition write_jsonl :: "pydict list \<Rightarrow> string" where
  "write_jsonl records = concat (map (\<lambda>r. json_dumps r @ ''\<newline>'') records)"

subsection \<open>Decoding: json.loads on objects of strings and integers\<close>

definition json_ws :: "char \<Rightarrow> bool" where
  "json_ws c \<longleftrightarrow> c \<in> set [CHR '' '', CHR 0x09, CHR 0x0A, CHR 0x0D]"

definition skip_ws :: "string \<Rightarrow> string" where
  "skip_ws s = dropWhile json_ws s"

definition hex_val :: "char \<Rightarrow> nat option" where
  "hex_val c =
     (case map_of (zip ''0123456789abcdef'' [0..<16]) c of
        Some d \<Rightarrow> Some d
      | None \<Rightarrow> map_of (zip ''ABCDEF'' [10..<16]) c)"

text \<open>\<open>\uXXXX\<close>: four hex digits; code points above 255 are outside the model.\<close>

definition hex4 :: "string \<Rightarrow> char option" where
  "hex4 s =
     (if length s = 4 \<and> (\<forall>c \<in> set s. hex_val c \<noteq> None)
      then (let v = foldl (\<lambda>acc c. 16 * acc + the (hex_val c)) 0 s
            in if v < 256 then Some (char_of v) else None)
      else None)"

definition simple_escape :: "char \<Rightarrow> char option" where
  "simple_escape e =
     map_of [(dquote, dquote), (bslash, bslash), (CHR ''/'', CHR ''/''), (CHR ''b'', CHR 0x08),
             (CHR ''f'', CHR 0x0C), (CHR ''n'', CHR 0x0A), (CHR ''r'', CHR 0x0D), (CHR ''t'', CHR 0x09)] e"

text \<open>The body of a string after its opening quote: the decoded string and the rest after
  the closing quote. Raw control characters are rejected, as \<open>strict=True\<close> does.\<close>

function parse_str :: "string \<Rightarrow> string \<Rightarrow> (string \<times> string) option" where
  "parse_str acc [] = None"
| "parse_str acc (c # s) =
     (if c = dquote then Some (rev acc, s)
      else if c = bslash then
        (case s of
           [] \<Rightarrow> None
         | e # s' \<Rightarrow>
             if e = CHR ''u'' then
               (case hex4 (take 4 s') of
                  None \<Rightarrow> None
                | Some ch \<Rightarrow> parse_str (ch # acc) (drop 4 s'))
             else (case simple_escape e of
                     None \<Rightarrow> None
                   | Some ch \<Rightarrow> parse_str (ch # acc) s'))
      else if of_char c < (32::nat) then None
      else parse_str (c # acc) s)"
  by pat_completeness auto
termination
  by (relation "measure (\<lambda>(acc, s). length s)") auto

text \<open>A JSON integer: an optional minus, then \<open>0\<close> or digits without a leading zero; a
  fraction or an exponent (a float) is outside the model.\<close>

definition parse_int :: "string \<Rightarrow> (int \<times> string) option" where
  "parse_int s =
     (let neg = (s \<noteq> [] \<and> hd s = CHR ''-'');
          s1 = (if neg then tl s else s);
          ds = takeWhile is_digit s1;
          rest = dropWhile is_digit s1
      in if ds = [] \<or> (length ds > 1 \<and> hd ds = CHR ''0'') then None
         else if rest \<noteq> [] \<and> hd rest \<in> set ''.eE'' then None
         else Some ((if neg then - int (digits_val ds) else int (digits_val ds)), rest))"

definition parse_val :: "string \<Rightarrow> (jval \<times> string) option" where
  "parse_val s =
     (case s of
        [] \<Rightarrow> None
      | c # s' \<Rightarrow>
          if c = dquote then map_option (\<lambda>(v, r). (JStr v, r)) (parse_str [] s')
          else map_option (\<lambda>(i, r). (JInt i, r)) (parse_int s))"

text \<open>The members of an object, after \<open>{\<close> and after each \<open>,\<close>: key, colon, value,
  then \<open>,\<close> and the next member or \<open>}\<close>. A repeated key keeps its first position and
  its last value, as Python's dict does.\<close>

function parse_members :: "pydict \<Rightarrow> string \<Rightarrow> (pydict \<times> string) option" where
  "parse_members d s =
     (case skip_ws s of
        c # s1 \<Rightarrow>
          if c \<noteq> dquote then None
          else (case parse_str [] s1 of
                  None \<Rightarrow> None
                | Some (k, s2) \<Rightarrow>
                    (case skip_ws s2 of
                       c2 # s3 \<Rightarrow>
                         if c2 \<noteq> CHR '':'' then None
                         else (case parse_val (skip_ws s3) of
                                 None \<Rightarrow> None
                               | Some (v, s4) \<Rightarrow>
                                   (case skip_ws s4 of
                                      c4 # s5 \<Rightarrow>
                                        if c4 = CHR '','' then parse_members (dict_set d k v) s5
                                        else if c4 = CHR ''}'' then Some (dict_set d k v, s5)
                                        else None
                                    | [] \<Rightarrow> None))
                     | [] \<Rightarrow> None))
      | [] \<Rightarrow> None)"
  by pat_completeness auto

termination parse_members
proof (relation "measure (\<lambda>(d, s). length s)", goal_cases)
  case 1
  show ?case by simp
next
  case (2 d s c s1 pk key s2 c2 s3 pv v s4 c4 s5)
  have ws: "length (skip_ws t) \<le> length t" for t
    by (simp add: skip_ws_def length_dropWhile_le)
  have ps: "parse_str acc t = Some (k', r) \<Longrightarrow> length r < length t" for acc t k' r
  proof (induction acc t rule: parse_str.induct)
    case (1 acc)
    then show ?case by simp
  next
    case (2 acc c s)
    show ?case
    proof (cases "c = dquote")
      case True
      with "2.prems" show ?thesis by simp
    next
      case nq: False
      show ?thesis
      proof (cases "c = bslash")
        case False
        with nq "2.prems" "2.IH"(3) show ?thesis by (auto split: if_splits)
      next
        case b: True
        then obtain e s' where s: "s = e # s'" using "2.prems" nq by (cases s) auto
        show ?thesis
        proof (cases "e = CHR ''u''")
          case True
          then show ?thesis using "2.IH"(1)[OF nq b s True] "2.prems" nq b s
            by (auto split: option.splits)
        next
          case False
          then show ?thesis using "2.IH"(2)[OF nq b s False] "2.prems" nq b s
            by (auto split: option.splits)
        qed
      qed
    qed
  qed
  have pi: "parse_int t = Some (i, r) \<Longrightarrow> length r \<le> length t" for t i r
  proof -
    assume a: "parse_int t = Some (i, r)"
    let ?s1 = "if t \<noteq> [] \<and> hd t = CHR ''-'' then tl t else t"
    have sel: "(if P then None else if Q then None else Some (x, y)) = Some (i, r) \<Longrightarrow> r = y"
      for P Q x y by (simp split: if_splits)
    have "r = dropWhile is_digit ?s1" using a unfolding parse_int_def Let_def by (rule sel)
    moreover have "length (dropWhile is_digit ?s1) \<le> length ?s1" by (rule length_dropWhile_le)
    moreover have "length ?s1 \<le> length t" by simp
    ultimately show ?thesis by (metis order.trans)
  qed
  have pv: "parse_val t = Some (v', r) \<Longrightarrow> length r \<le> length t" for t v' r
    using ps by (fastforce simp: parse_val_def split: list.splits if_splits dest: pi)
  from 2 have "length s1 < length s" using ws [of s] by simp
  moreover from 2 have "length s2 < length s1" using ps [of "[]" s1 key s2] by simp
  moreover from 2 have "length s3 < length s2" using ws [of s2] by simp
  moreover from 2 have "length s4 \<le> length s3" using pv [of "skip_ws s3" v s4] ws [of s3] by simp
  moreover from 2 have "length s5 < length s4" using ws [of s4] by simp
  ultimately show ?case by simp
qed

declare parse_members.simps [simp del]

text \<open>\<open>json.loads(line)\<close> for a line holding one object.\<close>

definition json_loads :: "string \<Rightarrow> py_error + pydict" where
  "json_loads s =
     (case skip_ws s of
        c # s1 \<Rightarrow>
          if c \<noteq> CHR ''{'' then Inl JSONDecodeError
          else if (case skip_ws s1 of c' # _ \<Rightarrow> c' = CHR ''}'' | [] \<Rightarrow> False)
            then (if skip_ws (tl (skip_ws s1)) = [] then Inr [] else Inl JSONDecodeError)
          else (case parse_members [] s1 of
                  None \<Rightarrow> Inl JSONDecodeError
                | Some (d, rest) \<Rightarrow> if skip_ws rest = [] then Inr d else Inl JSONDecodeError)
      | [] \<Rightarrow> Inl JSONDecodeError)"

text \<open>\<open>load_jsonl\<close>: the loop over the lines of the file.\<close>

fun load_lines :: "string list \<Rightarrow> py_error + pydict list" where
  "load_lines [] = Inr []"
| "load_lines (line # lines) =
     (let line = py_strip line
      in if line = [] then load_lines lines
         else (case json_loads line of
                 Inl e \<Rightarrow> Inl e
               | Inr r \<Rightarrow> (case load_lines lines of Inl e \<Rightarrow> Inl e | Inr rs \<Rightarrow> Inr (r # rs))))"

definition load_jsonl :: "string \<Rightarrow> py_error + pydict list" where
  "load_jsonl content = load_lines (split_on (CHR ''\<newline>'') (unify_newlines content))"


subsection \<open>Encoding and decoding agree\<close>

text \<open>The escapes of \<open>json_escape_char\<close> decode back to the character, and every
  character the encoder writes is printable (no raw control character, in particular no line
  break, ends up in a line of the file).\<close>

lemma hex_val_hex_digit: "d < 16 \<Longrightarrow> hex_val (hex_digit d) = Some d"
  unfolding hex_val_def hex_digit_def
  by (subst map_of_zip_nth) simp_all

lemma hex_digit_printable: "d < 16 \<Longrightarrow> 48 \<le> (of_char (hex_digit d) :: nat)"
  by (auto simp: hex_digit_def less_Suc_eq numeral_eq_Suc)

lemma hex_val_zero: "hex_val (CHR ''0'') = Some 0"
  by (simp add: hex_val_def upt_rec)

lemma hex4_escape:
  assumes "of_char c < (32::nat)"
  shows "hex4 [CHR ''0'', CHR ''0'', hex_digit (of_char c div 16), hex_digit (of_char c mod 16)] = Some c"
proof -
  have hi: "of_char c div 16 < (16::nat)" and lo: "of_char c mod 16 < (16::nat)" using assms by auto
  have "16 * (of_char c div 16) + of_char c mod 16 = (of_char c :: nat)" by simp
  then show ?thesis using assms
    by (simp add: hex4_def hex_val_hex_digit [OF hi] hex_val_hex_digit [OF lo] hex_val_zero)
qed

lemma parse_str_escape_char:
  "parse_str acc (json_escape_char c @ t) = parse_str (c # acc) t"
proof -
  have ne: "dquote \<noteq> bslash" by (simp add: dquote_def bslash_def)
  show ?thesis
  proof (cases "c = dquote \<or> c = bslash \<or> c = CHR 0x0A \<or> c = CHR 0x0D \<or> c = CHR 0x09 \<or> c = CHR 0x08 \<or> c = CHR 0x0C")
    case True
    then show ?thesis
      by (auto simp: json_escape_char_def simple_escape_def dquote_def bslash_def)
  next
    case other: False
    show ?thesis
    proof (cases "of_char c < (32::nat)")
      case True
      then show ?thesis using other ne hex4_escape [OF True]
        by (simp add: json_escape_char_def)
    next
      case False
      then show ?thesis using other by (simp add: json_escape_char_def)
    qed
  qed
qed

lemma parse_str_json:
  "parse_str acc (concat (map json_escape_char s) @ dquote # rest) = Some (rev acc @ s, rest)"
  by (induction s arbitrary: acc) (simp_all add: parse_str_escape_char)

lemma json_escape_char_printable:
  "x \<in> set (json_escape_char c) \<Longrightarrow> (32::nat) \<le> of_char x"
proof -
  assume x: "x \<in> set (json_escape_char c)"
  have "48 \<le> (of_char (hex_digit (of_char c div 16)) :: nat)"
       "48 \<le> (of_char (hex_digit (of_char c mod 16)) :: nat)" if "of_char c < (32::nat)"
    using that by (simp_all add: hex_digit_printable)
  with x show ?thesis
    by (auto simp: json_escape_char_def dquote_def bslash_def split: if_splits)
qed

text \<open>Integers: \<open>int_str\<close> writes no leading zero, so the decoder reads it back.\<close>

lemma parse_int_digits:
  assumes ds: "ds \<noteq> []" "\<forall>x \<in> set ds. is_digit x" "\<not> (1 < length ds \<and> hd ds = CHR ''0'')"
    and rest: "rest = [] \<or> hd rest \<notin> set ''0123456789.eE''"
    and sign: "s = ds @ rest \<and> neg = False \<or> s = CHR ''-'' # ds @ rest \<and> neg = True"
  shows "parse_int s = Some (if neg then - int (digits_val ds) else int (digits_val ds), rest)"
proof -
  have nd: "rest = [] \<or> \<not> is_digit (hd rest)" using rest by (auto simp: is_digit_def)
  have tw: "takeWhile is_digit (ds @ rest) = ds"
    using nd ds(2) by (cases rest) (auto simp: takeWhile_append2)
  have dw: "dropWhile is_digit (ds @ rest) = rest"
    using nd ds(2) by (cases rest) (auto simp: dropWhile_append2)
  have ne: "\<not> (rest \<noteq> [] \<and> hd rest \<in> set ''.eE'')" using rest by auto
  have h: "hd (ds @ rest) \<noteq> CHR ''-''" using ds(1,2) by (cases ds) (auto simp: is_digit_def)
  have n: "(s \<noteq> [] \<and> hd s = CHR ''-'') = neg" and s1: "(if neg then tl s else s) = ds @ rest"
    using sign h by auto
  show ?thesis
    unfolding parse_int_def Let_def n s1 tw dw using ds(1,3) ne by simp
qed

lemma parse_int_int_str:
  assumes "rest = [] \<or> hd rest \<notin> set ''0123456789.eE''"
  shows "parse_int (int_str i @ rest) = Some (i, rest)"
proof -
  have lz: "\<not> (1 < length (nat_str n) \<and> hd (nat_str n) = CHR ''0'')" for n
    using nat_str_hd [of n] by (cases "n = 0") (simp_all add: nat_str_zero)
  have d: "\<forall>x \<in> set (nat_str n). is_digit x" for n using is_digit_nat_str by blast
  show ?thesis
  proof (cases "i < 0")
    case True
    have e: "int_str i @ rest = CHR ''-'' # nat_str (nat (- i)) @ rest" and e2: "- int (nat (- i)) = i"
      using True by (simp_all add: int_str_def)
    have "parse_int (CHR ''-'' # nat_str (nat (- i)) @ rest) =
          Some (if True then - int (digits_val (nat_str (nat (- i)))) else int (digits_val (nat_str (nat (- i)))), rest)"
      by (rule parse_int_digits [OF nat_str_not_Nil d lz assms]) simp
    then show ?thesis unfolding e if_True digits_val_nat_str e2 .
  next
    case False
    have e: "int_str i @ rest = nat_str (nat i) @ rest" and e2: "int (nat i) = i"
      using False by (simp_all add: int_str_def)
    have "parse_int (nat_str (nat i) @ rest) =
          Some (if False then - int (digits_val (nat_str (nat i))) else int (digits_val (nat_str (nat i))), rest)"
      by (rule parse_int_digits [OF nat_str_not_Nil d lz assms]) (rule disjI1, simp)
    then show ?thesis unfolding e if_False digits_val_nat_str e2 .
  qed
qed

text \<open>One member \<open>"key": value\<close> and the whole object.\<close>

lemma json_ws_printable: "32 < (of_char c :: nat) \<Longrightarrow> \<not> json_ws c"
  by (auto simp: json_ws_def)

lemma skip_ws_keep: "32 < (of_char c :: nat) \<Longrightarrow> skip_ws (c # t) = c # t"
  by (simp add: skip_ws_def json_ws_printable)

lemma skip_ws_space: "skip_ws (CHR '' '' # t) = skip_ws t"
  by (simp add: skip_ws_def json_ws_def)

lemma int_str_hd: "\<exists>c t. int_str i = c # t \<and> 32 < (of_char c :: nat) \<and> c \<noteq> dquote"
proof -
  obtain c t where ct: "nat_str (nat \<bar>i\<bar>) = c # t" using nat_str_not_Nil by (meson neq_Nil_conv)
  then have "is_digit c" using is_digit_nat_str [of c "nat \<bar>i\<bar>"] by simp
  then have "32 < (of_char c :: nat) \<and> c \<noteq> dquote" by (auto simp: is_digit_def dquote_def)
  with ct show ?thesis by (auto simp: int_str_def dquote_def)
qed

lemma json_val_hd: "\<exists>c t. json_val v = c # t \<and> 32 < (of_char c :: nat)"
proof (cases v)
  case (JStr s)
  then show ?thesis by (simp add: json_str_def dquote_def)
next
  case (JInt i)
  then show ?thesis using int_str_hd [of i] by auto
qed

lemma parse_val_json_val:
  assumes "rest = [] \<or> hd rest \<in> set '',}''"
  shows "parse_val (json_val v @ rest) = Some (v, rest)"
proof (cases v)
  case (JStr s)
  then show ?thesis by (simp add: parse_val_def json_str_def parse_str_json)
next
  case (JInt i)
  obtain c t where ct: "int_str i = c # t" "c \<noteq> dquote" using int_str_hd by blast
  have "parse_int (int_str i @ rest) = Some (i, rest)"
    using assms by (intro parse_int_int_str) auto
  with JInt ct show ?thesis by (simp add: parse_val_def)
qed

lemma parse_members_item:
  assumes "T = [] \<or> hd T \<in> set '',}''"
  shows "parse_members acc (json_str k @ '': '' @ json_val v @ T) =
     (case skip_ws T of
        c4 # s5 \<Rightarrow> if c4 = CHR '','' then parse_members (dict_set acc k v) s5
                   else if c4 = CHR ''}'' then Some (dict_set acc k v, s5) else None
      | [] \<Rightarrow> None)"
proof -
  obtain c t where ct: "json_val v = c # t" "32 < (of_char c :: nat)" using json_val_hd by blast
  have sv: "skip_ws (json_val v @ T) = json_val v @ T" using ct by (simp add: skip_ws_keep)
  have ps: "parse_str [] (concat (map json_escape_char k) @ dquote # CHR '':'' # CHR '' '' # json_val v @ T) =
            Some (k, CHR '':'' # CHR '' '' # json_val v @ T)"
    using parse_str_json [of "[]" k] by simp
  have sd: "skip_ws (dquote # x) = dquote # x" and sc: "skip_ws (CHR '':'' # x) = CHR '':'' # x" for x
    by (simp_all add: skip_ws_keep dquote_def)
  show ?thesis
    by (subst parse_members.simps)
       (simp add: json_str_def sd sc ps skip_ws_space sv
                  parse_val_json_val [OF assms])
qed


lemma parse_members_space: "parse_members d (CHR '' '' # s) = parse_members d s"
  by (subst parse_members.simps [of d "CHR '' '' # s"])
     (simp only: skip_ws_space parse_members.simps [of d s, symmetric])

lemma parse_members_dumps:
  "d \<noteq> [] \<Longrightarrow> distinct (map fst (acc @ d)) \<Longrightarrow>
   parse_members acc (py_join '', '' (map (\<lambda>(k, v). json_str k @ '': '' @ json_val v) d) @ ''}'' @ rest) =
   Some (acc @ d, rest)"
proof (induction d arbitrary: acc)
  case Nil
  then show ?case by simp
next
  case (Cons kv ds)
  obtain k v where kv: "kv = (k, v)" by fastforce
  have fresh: "dict_set acc k v = acc @ [(k, v)]"
    using Cons.prems(2) kv by (intro dict_set_fresh) auto
  show ?case
  proof (cases "ds = []")
    case True
    have "parse_members acc (json_str k @ '': '' @ json_val v @ ''}'' @ rest) = Some (acc @ [(k, v)], rest)"
      by (subst parse_members_item) (simp_all add: skip_ws_keep fresh)
    with True kv show ?thesis by simp
  next
    case False
    let ?X = "py_join '', '' (map (\<lambda>(k, v). json_str k @ '': '' @ json_val v) ds) @ ''}'' @ rest"
    have ih: "parse_members (acc @ [(k, v)]) ?X = Some (acc @ [(k, v)] @ ds, rest)"
      using Cons.IH [OF False, of "acc @ [(k, v)]"] Cons.prems(2) kv by simp
    have "parse_members acc (json_str k @ '': '' @ json_val v @ '', '' @ ?X) = Some (acc @ [(k, v)] @ ds, rest)"
      using ih by (subst parse_members_item) (simp_all add: skip_ws_keep fresh parse_members_space)
    with False kv show ?thesis by (simp add: py_join_Cons)
  qed
qed

lemma json_dumps_Cons_hd: "d \<noteq> [] \<Longrightarrow> \<exists>t. py_join '', '' (map (\<lambda>(k, v). json_str k @ '': '' @ json_val v) d) = dquote # t"
  by (cases d) (auto simp: py_join_Cons json_str_def)

lemma json_loads_dumps:
  assumes "distinct (map fst d)"
  shows "json_loads (json_dumps d) = Inr d"
proof (cases "d = []")
  case True
  then show ?thesis by (simp add: json_loads_def json_dumps_def skip_ws_def json_ws_def)
next
  case False
  obtain t where t: "py_join '', '' (map (\<lambda>(k, v). json_str k @ '': '' @ json_val v) d) = dquote # t"
    using json_dumps_Cons_hd [OF False] by blast
  have m: "parse_members [] (py_join '', '' (map (\<lambda>(k, v). json_str k @ '': '' @ json_val v) d) @ ''}'') =
           Some (d, [])"
    using parse_members_dumps [OF False, of "[]" "[]"] assms by simp
  have sd: "skip_ws (dquote # x) = dquote # x" for x by (simp add: skip_ws_keep dquote_def)
  have "dquote \<noteq> CHR ''}''" by (simp add: dquote_def)
  then show ?thesis using m t sd
    by (simp add: json_loads_def json_dumps_def skip_ws_keep skip_ws_def [of "[]"])
qed

text \<open>The file: one object per line, blank lines skipped.\<close>

lemma int_str_printable: "x \<in> set (int_str i) \<Longrightarrow> (32::nat) \<le> of_char x"
proof -
  assume "x \<in> set (int_str i)"
  then have "x = CHR ''-'' \<or> is_digit x"
    using is_digit_nat_str [of x] by (auto simp: int_str_def split: if_splits)
  then show ?thesis by (auto simp: is_digit_def)
qed

lemma json_str_printable: "x \<in> set (json_str s) \<Longrightarrow> (32::nat) \<le> of_char x"
  using json_escape_char_printable by (auto simp: json_str_def dquote_def)

lemma json_dumps_printable: "x \<in> set (json_dumps d) \<Longrightarrow> (32::nat) \<le> of_char x"
proof -
  assume x: "x \<in> set (json_dumps d)"
  have item: "(32::nat) \<le> of_char y" if "y \<in> set (json_str k @ '': '' @ json_val v)" for y k v
    using that json_str_printable int_str_printable by (cases v) auto
  have "x \<in> set '', '' \<or> x = CHR ''{'' \<or> x = CHR ''}'' \<or>
        (\<exists>k v. x \<in> set (json_str k @ '': '' @ json_val v))"
    using x set_py_join [of "'', ''" "map (\<lambda>(k, v). json_str k @ '': '' @ json_val v) d"]
    by (fastforce simp: json_dumps_def)
  then show ?thesis using item by auto
qed

lemma json_dumps_no_newline: "CHR ''\<newline>'' \<notin> set (json_dumps r) \<and> CHR 0x0D \<notin> set (json_dumps r)"
  using json_dumps_printable [of _ r] by fastforce

lemma py_strip_json_dumps: "py_strip (json_dumps d) = json_dumps d"
  by (rule py_strip_keep) (simp_all add: json_dumps_def is_space_def py_whitespace_def)

lemma load_lines_dumps:
  "(\<And>r. r \<in> set rs \<Longrightarrow> distinct (map fst r)) \<Longrightarrow> load_lines (map json_dumps rs @ [[]]) = Inr rs"
proof (induction rs)
  case Nil
  then show ?case by simp
next
  case (Cons r rs)
  have ne: "json_dumps r \<noteq> []" by (simp add: json_dumps_def)
  have "json_loads (json_dumps r) = Inr r" using Cons.prems by (intro json_loads_dumps) simp
  with Cons ne show ?case by (simp add: py_strip_json_dumps Let_def)
qed

text \<open>The written file splits, at its newlines, into one \<open>json.dumps\<close> line per record and
  the empty remainder after the last newline.\<close>

lemma write_jsonl_split:
  "split_on (CHR ''\<newline>'') (unify_newlines (write_jsonl rs)) = map json_dumps rs @ [[]]"
proof -
  have "CHR 0x0D \<notin> set (write_jsonl rs)" using json_dumps_no_newline by (auto simp: write_jsonl_def)
  then have "unify_newlines (write_jsonl rs) = write_jsonl rs" by (rule unify_newlines_id)
  then show ?thesis
    unfolding write_jsonl_def using json_dumps_no_newline by (simp add: split_on_lines_nl)
qed

lemma load_write_roundtrip:
  assumes "\<And>r. r \<in> set rs \<Longrightarrow> distinct (map fst r)"
  shows "load_jsonl (write_jsonl rs) = Inr rs"
  using assms by (simp add: load_jsonl_def write_jsonl_split load_lines_dumps)

subsection \<open>Properties of the serializer\<close>

text \<open>Claim C22: reading back with load_jsonl the file write_jsonl wrote gives back the records, in order and unchanged, for every list of records whose keys are distinct within each record (strings with any characters, escapes included, and integers of any sign and size).\<close>

theorem load_jsonl_write_jsonl:
  assumes "\<And>r. r \<in> set rs \<Longrightarrow> distinct (map fst r)"
  shows "load_jsonl (write_jsonl rs) = Inr rs"
  using assms by (rule load_write_roundtrip)

theorem load_jsonl_write_jsonl_witness:
  "distinct (map fst [(''text'', JStr [CHR ''a'', CHR 0x22, CHR ''\<newline>'']), (''start_line'', JInt (-10))]) \<and>
   load_jsonl (write_jsonl [[(''text'', JStr [CHR ''a'', CHR 0x22, CHR ''\<newline>'']), (''start_line'', JInt (-10))]]) =
     Inr [[(''text'', JStr [CHR ''a'', CHR 0x22, CHR ''\<newline>'']), (''start_line'', JInt (-10))]]"
  using load_jsonl_write_jsonl [of "[[(''text'', JStr [CHR ''a'', CHR 0x22, CHR ''\<newline>'']), (''start_line'', JInt (-10))]]"]
  by simp

end
