(* ===== verification/Ingest.thy ===== *)
theory Ingest
  imports Prelude Json Chunker Records
begin

text \<open>
  The ingestion script \<open>src/ingest_chroma.py\<close>, after \<open>load_jsonl\<close> (in \<open>Json\<close>):
  the three lists \<open>main\<close> prepares from the records (ids, texts and the metadata dicts,
  with Python's \<open>KeyError\<close> for a missing key and \<open>int()\<close> on the line and page
  fields), and the loop \<open>for i in range(0, total, batch)\<close> that embeds and adds one
  slice of the three lists per iteration. The embedding model and the Chroma collection are
  external: the model is a parameter \<open>model_encode\<close> (the result of \<open>model.encode(...)\<close> on a
  list of texts, at any type \<^typ>\<open>'e\<close>), and the collection is the list of the
  \<open>collection.add(...)\<close> calls the loop makes, in order, beside the lines it prints.
\<close>

subsection \<open>Python built-ins the script uses\<close>

text \<open>
  \<open>int(x)\<close> on a JSON value: an integer is itself; a string is read as a decimal literal
  (surrounding whitespace stripped, an optional sign, digits with single underscores between
  them), anything else raises \<open>ValueError\<close>.
\<close>

definition int_literal :: "string \<Rightarrow> int option" where
  "int_literal s =
     (let t = py_strip s;
          neg = (t \<noteq> [] \<and> hd t = CHR ''-'');
          body = (if t \<noteq> [] \<and> hd t \<in> set ''+-'' then tl t else t)
      in if body \<noteq> [] \<and> (\<forall>c \<in> set body. is_digit c \<or> c = CHR ''_'')
            \<and> is_digit (hd body) \<and> is_digit (last body)
            \<and> (\<forall>k < length body - 1. \<not> (body ! k = CHR ''_'' \<and> body ! Suc k = CHR ''_''))
         then Some (let v = int (digits_val (filter is_digit body)) in if neg then - v else v)
         else None)"

fun py_int :: "jval \<Rightarrow> py_error + int" where
  "py_int (JInt i) = Inr i"
| "py_int (JStr s) =
     (case int_literal s of
        Some i \<Rightarrow> Inr i
      | None \<Rightarrow> Inl (ValueError ''invalid literal for int() with base 10''))"

text \<open>\<open>range(start, stop, step)\<close>, with the length CPython computes.\<close>

definition py_range :: "int \<Rightarrow> int \<Rightarrow> int \<Rightarrow> py_error + int list" where
  "py_range start stop step =
     (if step = 0 then Inl (ValueError ''range() arg 3 must not be zero'')
      else if 0 < step
        then Inr (map (\<lambda>k. start + int k * step) [0..<nat ((stop - start + step - 1) div step)])
      else Inr (map (\<lambda>k. start + int k * step) [0..<nat ((start - stop - step - 1) div (- step))]))"

subsection \<open>Preparing the data (ingest_chroma.py 53--66)\<close>

text \<open>The metadata dict of one record, keys in the order the code inserts them.\<close>

definition ingest_metadata :: "pydict \<Rightarrow> py_error + pydict" where
  "ingest_metadata r =
     py_bind (py_getitem r ''source_file'') (\<lambda>src.
     py_bind (py_bind (py_getitem r ''start_line'') py_int) (\<lambda>sl.
     py_bind (py_bind (py_getitem r ''end_line'') py_int) (\<lambda>el.
       (let m = [(''source_file'', src), (''start_line'', JInt sl), (''end_line'', JInt el)]
        in if dict_get r ''start_page'' \<noteq> None \<and> dict_get r ''end_page'' \<noteq> None
           then py_bind (py_bind (py_getitem r ''start_page'') py_int) (\<lambda>sp.
                py_bind (py_bind (py_getitem r ''end_page'') py_int) (\<lambda>ep.
                  Inr (dict_set (dict_set m ''start_page'' (JInt sp)) ''end_page'' (JInt ep))))
           else Inr m))))"

text \<open>\<open>ids\<close>, \<open>texts\<close> and \<open>metadatas\<close>, built one after the other.\<close>

definition prepare :: "pydict list \<Rightarrow> py_error + (jval list \<times> jval list \<times> pydict list)" where
  "prepare records =
     py_bind (py_map_all (\<lambda>r. py_getitem r ''id'') records) (\<lambda>ids.
     py_bind (py_map_all (\<lambda>r. py_getitem r ''text'') records) (\<lambda>texts.
     py_bind (py_map_all ingest_metadata records) (\<lambda>metas.
       Inr (ids, texts, metas))))"

subsection \<open>The batching loop (ingest_chroma.py 70--85)\<close>

text \<open>The arguments of one \<open>collection.add(...)\<close> call.\<close>

record 'e add_call =
  add_ids :: "jval list"
  add_docs :: "jval list"
  add_embs :: "'e list"
  add_metas :: "pydict list"

text \<open>The loop's effects: the calls made on the collection and the lines printed.\<close>

record 'e ingest_state =
  add_calls :: "'e add_call list"
  printed :: "string list"

definition ingest_batch ::
  "(jval list \<Rightarrow> 'e list) \<Rightarrow> jval list \<Rightarrow> jval list \<Rightarrow> pydict list \<Rightarrow> int \<Rightarrow> int \<Rightarrow>
   'e ingest_state \<Rightarrow> 'e ingest_state" where
  "ingest_batch model_encode ids texts metas batch i st =
     (let total = int (length texts);
          j = min (i + batch) total;
          batch_ids = py_slice_int ids i j;
          batch_texts = py_slice_int texts i j;
          batch_metas = py_slice_int metas i j;
          embeddings = model_encode batch_texts
      in st\<lparr>add_calls := add_calls st @ [\<lparr>add_ids = batch_ids, add_docs = batch_texts,
                                          add_embs = embeddings, add_metas = batch_metas\<rparr>],
            printed := printed st @ [''Inserted '' @ int_str j @ ''/'' @ int_str total]\<rparr>)"

definition ingest_loop ::
  "(jval list \<Rightarrow> 'e list) \<Rightarrow> jval list \<Rightarrow> jval list \<Rightarrow> pydict list \<Rightarrow> int \<Rightarrow>
   py_error + 'e ingest_state" where
  "ingest_loop model_encode ids texts metas batch =
     py_bind (py_range 0 (int (length texts)) batch) (\<lambda>starts.
       Inr (fold (ingest_batch model_encode ids texts metas batch) starts \<lparr>add_calls = [], printed = []\<rparr>))"

text \<open>\<open>main\<close> from the file's content: load, prepare, encode and add.\<close>

definition ingest_main ::
  "(jval list \<Rightarrow> 'e list) \<Rightarrow> string \<Rightarrow> int \<Rightarrow> py_error + 'e ingest_state" where
  "ingest_main model_encode content batch_size =
     py_bind (load_jsonl content) (\<lambda>records.
     py_bind (prepare records) (\<lambda>(ids, texts, metas).
       ingest_loop model_encode ids texts metas batch_size))"


subsection \<open>The loop computes its slices\<close>

lemma py_range_pos:
  "0 < b \<Longrightarrow> py_range 0 (int n) (int b) = Inr (map (\<lambda>k. int (k * b)) [0..<(n + b - 1) div b])"
proof -
  assume b: "0 < b"
  have "int n - 0 + int b - 1 = int (n + b - 1)" using b by simp
  then have "nat ((int n - 0 + int b - 1) div int b) = (n + b - 1) div b"
    by (simp only: zdiv_int [symmetric] nat_int)
  then show ?thesis using b by (simp add: py_range_def)
qed

lemma batches_cover: "0 < b \<Longrightarrow> n \<le> (n + b - 1) div b * (b::nat)"
proof -
  assume b: "0 < b"
  have "n + b - 1 = (n + b - 1) div b * b + (n + b - 1) mod b" by simp
  moreover have "(n + b - 1) mod b < b" using b by simp
  ultimately show ?thesis by linarith
qed

lemma py_slice_nat: "py_slice_int xs (int i) (int j) = take (j - i) (drop i xs)"
  by (simp add: py_slice_int_nonneg py_slice_def)

lemma concat_batches:
  "concat (map (\<lambda>k. py_slice_int xs (int (k * b)) (min (int (k * b) + int b) (int (length xs)))) [0..<m]) =
   take (min (m * b) (length xs)) xs"
proof (induction m)
  case 0
  then show ?case by simp
next
  case (Suc m)
  have "min (int (m * b) + int b) (int (length xs)) = int (min (m * b + b) (length xs))"
    by (simp only: of_nat_add [symmetric] of_nat_min)
  then have sl: "py_slice_int xs (int (m * b)) (min (int (m * b) + int b) (int (length xs))) =
             take (min (m * b + b) (length xs) - m * b) (drop (m * b) xs)"
    by (simp only: py_slice_nat)
  show ?case
  proof (cases "length xs \<le> m * b")
    case True
    then show ?thesis using Suc sl by (simp add: min_def)
  next
    case False
    then have "take (m * b) xs @ take (min (m * b + b) (length xs) - m * b) (drop (m * b) xs) =
               take (min (m * b + b) (length xs)) xs"
      by (simp add: take_add [symmetric] min_def)
    then show ?thesis using Suc sl False by (simp add: min_def add.commute)
  qed
qed

lemma fold_ingest_batch:
  "fold (ingest_batch E ids texts metas bt) is st =
   st\<lparr>add_calls := add_calls st @
        map (\<lambda>i. \<lparr>add_ids = py_slice_int ids i (min (i + bt) (int (length texts))),
                   add_docs = py_slice_int texts i (min (i + bt) (int (length texts))),
                   add_embs = E (py_slice_int texts i (min (i + bt) (int (length texts)))),
                   add_metas = py_slice_int metas i (min (i + bt) (int (length texts)))\<rparr>) is,
      printed := printed st @
        map (\<lambda>i. ''Inserted '' @ int_str (min (i + bt) (int (length texts))) @ ''/'' @
                  int_str (int (length texts))) is\<rparr>"
  by (induction "is" arbitrary: st) (simp_all add: ingest_batch_def Let_def)

lemma batch_start_lt: "0 < b \<Longrightarrow> k < (n + b - 1) div b \<Longrightarrow> k * b < (n::nat)"
proof -
  assume b: "0 < b" and k: "k < (n + b - 1) div b"
  then have "Suc k * b \<le> n + b - 1" using less_eq_div_iff_mult_less_eq [OF b, of "Suc k" "n + b - 1"] by simp
  then show ?thesis using b by simp
qed

lemma ingest_loop_calls:
  assumes "0 < b"
  shows "ingest_loop E ids texts metas (int b) =
    Inr \<lparr>add_calls =
           map (\<lambda>k. \<lparr>add_ids = py_slice_int ids (int (k * b)) (min (int (k * b) + int b) (int (length texts))),
                      add_docs = py_slice_int texts (int (k * b)) (min (int (k * b) + int b) (int (length texts))),
                      add_embs = E (py_slice_int texts (int (k * b)) (min (int (k * b) + int b) (int (length texts)))),
                      add_metas = py_slice_int metas (int (k * b)) (min (int (k * b) + int b) (int (length texts)))\<rparr>)
               [0..<(length texts + b - 1) div b],
         printed =
           map (\<lambda>k. ''Inserted '' @ int_str (min (int (k * b) + int b) (int (length texts))) @ ''/'' @
                     int_str (int (length texts)))
               [0..<(length texts + b - 1) div b]\<rparr>"
  using assms by (simp add: ingest_loop_def py_bind_def py_range_pos fold_ingest_batch comp_def)

lemma concat_all_batches:
  "0 < b \<Longrightarrow> length xs = n \<Longrightarrow>
   concat (map (\<lambda>k. py_slice_int xs (int k * int b) (min (int k * int b + int b) (int n))) [0..<(n + b - 1) div b]) = xs"
  using concat_batches [of xs b "(n + b - 1) div b"] batches_cover [of b n] by (simp add: min_def)

lemma batch_slice:
  assumes "0 < b" "k * b < length xs"
  shows "py_slice_int xs (int k * int b) (min (int k * int b + int b) (int (length xs))) \<noteq> [] \<and>
         length (py_slice_int xs (int k * int b) (min (int k * int b + int b) (int (length xs)))) \<le> b"
proof -
  have "py_slice_int xs (int k * int b) (min (int k * int b + int b) (int (length xs))) =
        take (min (k * b + b) (length xs) - k * b) (drop (k * b) xs)"
    by (simp only: of_nat_mult [symmetric] of_nat_add [symmetric] of_nat_min [symmetric] py_slice_nat)
  moreover have "min (k * b + b) (length xs) - k * b \<le> b" by simp
  moreover have "0 < min (k * b + b) (length xs) - k * b" using assms by simp
  ultimately show ?thesis using assms by simp
qed

lemma pos_batch: "0 < batch \<Longrightarrow> \<exists>b. batch = int b \<and> 0 < b"
  by (metis zero_less_imp_eq_int)

lemma ingest_loop_concat:
  assumes "0 < batch" "length ids = length texts" "length metas = length texts"
    and "ingest_loop E ids texts metas batch = Inr st"
  shows "concat (map add_ids (add_calls st)) = ids \<and> concat (map add_docs (add_calls st)) = texts \<and>
         concat (map add_metas (add_calls st)) = metas"
proof -
  obtain b where b: "batch = int b" "0 < b" using pos_batch [OF assms(1)] by blast
  note st = assms(4) [unfolded b(1) ingest_loop_calls [OF b(2)], symmetric]
  show ?thesis
    using st concat_all_batches [OF b(2) assms(2)] concat_all_batches [OF b(2) refl, of texts]
          concat_all_batches [OF b(2) assms(3)]
    by (auto simp: comp_def)
qed

subsection \<open>Preparing records of the chunker\<close>

lemma ingest_metadata_record:
  "ingest_metadata (record_spec p pol k c) =
   Inr (filter (\<lambda>(key, v). key \<noteq> ''id'' \<and> key \<noteq> ''text'') (record_spec p pol k c))"
  by (auto simp: ingest_metadata_def record_spec_def base_record_def page_fields_def py_getitem_def
                 dict_get_def split: option.splits)

lemma prepare_records:
  assumes "\<And>r. r \<in> set rs \<Longrightarrow> \<exists>k c. r = record_spec p pol k c"
  shows "prepare rs = Inr (map (\<lambda>r. the (dict_get r ''id'')) rs, map (\<lambda>r. the (dict_get r ''text'')) rs,
                         map (filter (\<lambda>(key, v). key \<noteq> ''id'' \<and> key \<noteq> ''text'')) rs)"
proof -
  have g: "py_getitem r key = Inr (the (dict_get r key))" if "dict_get r key \<noteq> None" for r key
    using that by (auto simp: py_getitem_def)
  have "dict_get r ''id'' \<noteq> None \<and> dict_get r ''text'' \<noteq> None \<and>
        ingest_metadata r = Inr (filter (\<lambda>(key, v). key \<noteq> ''id'' \<and> key \<noteq> ''text'') r)"
    if r_in: "r \<in> set rs" for r
  proof -
    obtain k c where r: "r = record_spec p pol k c" using assms [OF r_in] by blast
    show ?thesis unfolding r ingest_metadata_record
      by (simp add: record_spec_def base_record_def dict_get_def)
  qed
  then have "py_map_all (\<lambda>r. py_getitem r ''id'') rs = Inr (map (\<lambda>r. the (dict_get r ''id'')) rs)"
    and "py_map_all (\<lambda>r. py_getitem r ''text'') rs = Inr (map (\<lambda>r. the (dict_get r ''text'')) rs)"
    and "py_map_all ingest_metadata rs =
         Inr (map (filter (\<lambda>(key, v). key \<noteq> ''id'' \<and> key \<noteq> ''text'')) rs)"
    by (auto intro!: py_map_all_Inr g)
  then show ?thesis by (simp add: prepare_def)
qed

text \<open>A run of the loop: three records, batches of two.\<close>

lemma ingest_example:
  "ingest_loop (map (\<lambda>_. (0::nat))) [JStr ''0'', JStr ''1'', JStr ''2''] [JStr ''a'', JStr ''b'', JStr ''c''] [[], [], []] 2 =
   Inr \<lparr>add_calls = [\<lparr>add_ids = [JStr ''0'', JStr ''1''], add_docs = [JStr ''a'', JStr ''b''], add_embs = [0, 0], add_metas = [[], []]\<rparr>,
                    \<lparr>add_ids = [JStr ''2''], add_docs = [JStr ''c''], add_embs = [0], add_metas = [[]]\<rparr>],
        printed = [''Inserted 2/3'', ''Inserted 3/3'']\<rparr>"
  by (simp add: ingest_loop_def py_range_def ingest_batch_def py_slice_int_def py_slice_bound_def
                int_str_def nat_str.simps digit_char_def upt_rec)

subsection \<open>Properties of the ingestion\<close>

text \<open>Claim C25: the batching loop of ingest_chroma.main, for a positive batch_size and the three lists of equal length, makes collection.add calls whose ids, documents and metadatas, concatenated in call order, are exactly ids, texts and metadatas: every record is added once, in order, and each call gets a non-empty slice of at most batch_size records.\<close>

theorem ingest_loop_batches:
  assumes "0 < batch" "length ids = length texts" "length metas = length texts"
    and "ingest_loop E ids texts metas batch = Inr st"
  shows "concat (map add_ids (add_calls st)) = ids \<and> concat (map add_docs (add_calls st)) = texts \<and>
         concat (map add_metas (add_calls st)) = metas \<and>
         (\<forall>c \<in> set (add_calls st). add_docs c \<noteq> [] \<and> int (length (add_docs c)) \<le> batch)"
proof -
  obtain b where b: "batch = int b" "0 < b" using pos_batch [OF assms(1)] by blast
  let ?n = "length texts"
  note st = assms(4) [unfolded b(1) ingest_loop_calls [OF b(2)], symmetric]
  have "add_docs c \<noteq> [] \<and> int (length (add_docs c)) \<le> batch" if "c \<in> set (add_calls st)" for c
  proof -
    from that st obtain k where k: "k < (?n + b - 1) div b"
      and c: "add_docs c = py_slice_int texts (int k * int b) (min (int k * int b + int b) (int ?n))"
      by auto
    show ?thesis using batch_slice [OF b(2) batch_start_lt [OF b(2) k]] c b(1) by simp
  qed
  then show ?thesis using ingest_loop_concat [OF assms] by blast
qed

theorem ingest_loop_batches_witness:
  "0 < (2::int) \<and> length [JStr ''0'', JStr ''1'', JStr ''2''] = length [JStr ''a'', JStr ''b'', JStr ''c''] \<and>
   length [[], [], [] :: pydict] = length [JStr ''a'', JStr ''b'', JStr ''c''] \<and>
   concat [[JStr ''0'', JStr ''1''], [JStr ''2'']] = [JStr ''0'', JStr ''1'', JStr ''2''] \<and>
   concat [[JStr ''a'', JStr ''b''], [JStr ''c'']] = [JStr ''a'', JStr ''b'', JStr ''c'']"
  using ingest_loop_batches [OF _ _ _ ingest_example] by simp

text \<open>Claim C26: embedding in batches gives the embeddings of embedding all texts at once: when model.encode embeds each text on its own (encode = map f), the embeddings passed to the collection.add calls, concatenated, are map f texts.\<close>

theorem ingest_loop_encode:
  assumes "0 < batch" and "ingest_loop (map f) ids texts metas batch = Inr st"
  shows "concat (map add_embs (add_calls st)) = map f texts"
proof -
  obtain b where b: "batch = int b" "0 < b" using pos_batch [OF assms(1)] by blast
  note st = assms(2) [unfolded b(1) ingest_loop_calls [OF b(2)], symmetric]
  have "concat (map add_embs (add_calls st)) = map f (concat (map add_docs (add_calls st)))"
    using st by (simp add: map_concat comp_def)
  also have "concat (map add_docs (add_calls st)) = texts"
    using st concat_all_batches [OF b(2) refl, of texts] by (auto simp: comp_def)
  finally show ?thesis .
qed

theorem ingest_loop_encode_witness:
  "0 < (2::int) \<and> concat [[0, 0], [0::nat]] = map (\<lambda>_. 0) [JStr ''a'', JStr ''b'', JStr ''c'']"
  using ingest_loop_encode [OF _ ingest_example] by simp

text \<open>Claim C27: for a positive batch_size and a non-empty list of texts the loop prints one progress line per collection.add call, and the last one is Inserted total/total.\<close>

theorem ingest_loop_progress:
  assumes "0 < batch" "texts \<noteq> []" and "ingest_loop E ids texts metas batch = Inr st"
  shows "length (printed st) = length (add_calls st) \<and>
         last (printed st) = ''Inserted '' @ int_str (int (length texts)) @ ''/'' @ int_str (int (length texts))"
proof -
  obtain b where b: "batch = int b" "0 < b" using pos_batch [OF assms(1)] by blast
  let ?n = "length texts" let ?M = "(?n + b - 1) div b"
  note st = assms(3) [unfolded b(1) ingest_loop_calls [OF b(2)], symmetric]
  have "0 < ?n" using assms(2) by simp
  then have "b \<le> ?n + b - 1" by linarith
  then have M: "0 < ?M" using b(2) by (simp only: div_greater_zero_iff)
  have cover: "?n \<le> ?M * b" by (rule batches_cover [OF b(2)])
  have e: "(?M - 1) * b + b = ?M * b" using M by (cases ?M) auto
  have "min (int ((?M - 1) * b) + int b) (int ?n) = int (min (?M * b) ?n)"
    by (simp only: of_nat_add [symmetric] e of_nat_min)
  then have "min (int ((?M - 1) * b) + int b) (int ?n) = int ?n" using cover by (simp add: min_def)
  then show ?thesis using st M by (simp add: last_map)
qed

theorem ingest_loop_progress_witness:
  "0 < (2::int) \<and> [JStr ''a'', JStr ''b'', JStr ''c''] \<noteq> [] \<and>
   last [''Inserted 2/3'', ''Inserted 3/3''] = ''Inserted '' @ int_str (int 3) @ ''/'' @ int_str (int 3)"
  using ingest_loop_progress [OF _ _ ingest_example] by simp

lemma ingest_loop_negative:
  assumes "batch < 0"
  shows "ingest_loop E ids texts metas batch = Inr \<lparr>add_calls = [], printed = []\<rparr>"
proof -
  have "(0 - int (length texts) - batch - 1) div (- batch) \<le> (- batch - 1) div (- batch)"
    using assms by (intro zdiv_mono1) simp_all
  also have "(- batch - 1) div (- batch) = 0" using assms by (simp add: div_pos_pos_trivial)
  finally show ?thesis using assms by (simp add: ingest_loop_def py_range_def py_bind_def)
qed

text \<open>Claim C29: a negative --batch_size makes the range empty: the loop adds nothing and prints nothing, and the script goes on to report Done.\<close>

theorem ingest_loop_negative_batch:
  assumes "batch < 0"
  shows "ingest_loop E ids texts metas batch = Inr \<lparr>add_calls = [], printed = []\<rparr>"
  using assms by (rule ingest_loop_negative)

theorem ingest_loop_negative_batch_witness:
  "(-1::int) < 0 \<and>
   ingest_loop (map (\<lambda>_. (0::nat))) [JStr ''0''] [JStr ''a''] [[]] (-1) = Inr \<lparr>add_calls = [], printed = []\<rparr>"
  using ingest_loop_negative_batch [of "-1" "map (\<lambda>_. (0::nat))" "[JStr ''0'']" "[JStr ''a'']" "[[]]"]
  by simp

text \<open>Claim C31: if any record lacks the key id, preparing the data raises KeyError('id'), whatever other keys are missing in other records (the ids list is built before the texts and metadatas).\<close>

theorem prepare_missing_id:
  assumes "r \<in> set records" "dict_get r ''id'' = None"
  shows "prepare records = Inl (KeyError ''id'')"
proof -
  have "py_map_all (\<lambda>r. py_getitem r ''id'') records = Inl (KeyError ''id'')"
    using assms by (intro py_map_all_Inl) (auto simp: py_getitem_def split: option.splits)
  then show ?thesis by (simp add: prepare_def)
qed

theorem prepare_missing_id_witness:
  "[(''text'', JStr ''t'')] \<in> set [[(''id'', JStr ''a'')], [(''text'', JStr ''t'')]] \<and>
   dict_get [(''text'', JStr ''t'')] ''id'' = None \<and>
   prepare [[(''id'', JStr ''a'')], [(''text'', JStr ''t'')]] = Inl (KeyError ''id'')"
  using prepare_missing_id [of "[(''text'', JStr ''t'')]" "[[(''id'', JStr ''a'')], [(''text'', JStr ''t'')]]"]
  by (simp add: dict_get_def)

end
