(* ===== verification/Search.thy ===== *)
theory Search
  imports Prelude
begin

text \<open>
  The search script \<open>src/search_chroma.py\<close>: \<open>main\<close> parses its options, opens the
  collection, queries it with the question and prints a header with the question and, for
  every hit, its rank, id and distance, one citation line (the page range when the metadata
  has both page keys, else only the line range) and a preview of the text. The printed output
  is modelled as the list of the strings passed to \<open>print\<close>; the existence of the
  collection and the (external) query are parameters, and so is the formatting of the float
  distance (\<open>{dist:.4f}\<close>), \<open>fmt4\<close>.
\<close>

text \<open>The citation line, search_chroma.py 46--58.\<close>

definition search_citation :: "pydict \<Rightarrow> string" where
  "search_citation meta =
     (let src = py_str (py_get_default meta ''source_file'' (JStr ''unknown''));
          sl = py_str (py_get_default meta ''start_line'' (JStr ''?''));
          el = py_str (py_get_default meta ''end_line'' (JStr ''?''));
          sp = dict_get meta ''start_page'';
          ep = dict_get meta ''end_page''
      in case (sp, ep) of
           (Some a, Some b) \<Rightarrow>
             ''    source='' @ src @ '' pages='' @ py_str a @ ''-'' @ py_str b @ '' lines='' @ sl @ ''-'' @ el
         | _ \<Rightarrow> ''    source='' @ src @ '' lines='' @ sl @ ''-'' @ el)"

text \<open>\<open>doc.strip().replace("\n", " ")\<close>, cut to 320 characters plus \<open>...\<close>.\<close>

definition preview :: "string \<Rightarrow> string" where
  "preview doc =
     (let p = py_replace ''\<newline>'' '' '' (py_strip doc)
      in if length p > 320 then take 320 p @ ''...'' else p)"

text \<open>The lines printed for the hit of rank \<open>rank\<close>.\<close>

definition hit_lines :: "('d \<Rightarrow> string) \<Rightarrow> nat \<Rightarrow> string \<times> string \<times> pydict \<times> 'd \<Rightarrow> string list" where
  "hit_lines fmt4 rank hit =
     (case hit of (cid, doc, meta, dist) \<Rightarrow>
        [''['' @ nat_str rank @ ''] id='' @ cid @ ''  distance='' @ fmt4 dist,
         search_citation meta,
         ''    text: '' @ preview doc @ ''\<newline>''])"

text \<open>\<open>main\<close> after the query: the question is \<open>" ".join(args.question).strip()\<close>.\<close>

definition search_main :: "('d \<Rightarrow> string) \<Rightarrow> string list \<Rightarrow> 'd query_result \<Rightarrow> string list" where
  "search_main fmt4 args res =
     (let question = py_strip (py_join '' '' args)
      in [''\<newline>=============================='', ''QUESTION: '' @ question,
          ''==============================\<newline>''] @
         concat (map (\<lambda>(rank, hit). hit_lines fmt4 rank hit)
                     (List.enumerate 1 (zip4 (res_ids res) (res_docs res) (res_metas res) (res_dists res)))))"


text \<open>
  The whole \<open>main\<close> (lines 11--62): the parsed options with their defaults (lines 12--18;
  \<open>--model\<close> is parsed and never read), \<open>client.get_collection\<close>, which raises when
  the collection does not exist, and \<open>collection.query\<close> with \<open>n_results=args.k\<close> on
  the stripped question, an external call given as the parameter \<open>query\<close> (its own errors,
  such as an invalid \<open>n_results\<close>, are its result).
\<close>

record search_args =
  s_db_dir :: string
  s_collection :: "string option"
  s_model :: "string option"
  s_k :: "int option"
  s_question :: "string list"

definition search_collection :: "search_args \<Rightarrow> string" where
  "search_collection a = (case s_collection a of None \<Rightarrow> ''art_of_war'' | Some c \<Rightarrow> c)"

definition search_k :: "search_args \<Rightarrow> int" where
  "search_k a = (case s_k a of None \<Rightarrow> 5 | Some k \<Rightarrow> k)"

definition search_cli ::
  "(string \<Rightarrow> bool) \<Rightarrow> (string \<Rightarrow> string \<Rightarrow> int \<Rightarrow> py_error + 'd query_result) \<Rightarrow> ('d \<Rightarrow> string) \<Rightarrow>
   search_args \<Rightarrow> py_error + string list" where
  "search_cli has_collection query fmt4 a =
     (let question = py_strip (py_join '' '' (s_question a));
          name = search_collection a
      in if \<not> has_collection name then Inl (ValueError (''Collection '' @ name @ '' does not exist.''))
         else py_bind (query name question (search_k a)) (\<lambda>res. Inr (search_main fmt4 (s_question a) res)))"

subsection \<open>The citation, as a reference\<close>

text \<open>What a citation of a hit says: its source and its range (the page range, when the
  metadata has both page keys, then the line range).\<close>

definition cite_source :: "pydict \<Rightarrow> string" where
  "cite_source meta = py_str (py_get_default meta ''source_file'' (JStr ''unknown''))"

definition cite_range :: "pydict \<Rightarrow> string" where
  "cite_range meta =
     (let sl = py_str (py_get_default meta ''start_line'' (JStr ''?''));
          el = py_str (py_get_default meta ''end_line'' (JStr ''?''))
      in case (dict_get meta ''start_page'', dict_get meta ''end_page'') of
           (Some a, Some b) \<Rightarrow> ''pages='' @ py_str a @ ''-'' @ py_str b @ '' lines='' @ sl @ ''-'' @ el
         | _ \<Rightarrow> ''lines='' @ sl @ ''-'' @ el)"

subsection \<open>Properties of the search output\<close>

lemma search_cli_found:
  assumes "has_collection (search_collection a)"
    and "query (search_collection a) (py_strip (py_join '' '' (s_question a))) (search_k a) = Inr res"
  shows "search_cli has_collection query fmt4 a = Inr (search_main fmt4 (s_question a) res)"
  using assms by (simp add: search_cli_def Let_def)

lemma search_cli_model_unused:
  "search_cli has_collection query fmt4 (a\<lparr>s_model := m\<rparr>) = search_cli has_collection query fmt4 a"
  by (simp add: search_cli_def search_collection_def search_k_def Let_def cong: if_cong)

lemma search_citation_cite: "search_citation meta = ''    source='' @ cite_source meta @ '' '' @ cite_range meta"
  by (simp add: search_citation_def cite_source_def cite_range_def Let_def split: option.splits)

text \<open>Claim C35: the text preview printed for a hit has at most 323 characters (320 and the ellipsis) and no line break, so each hit's preview is one printed line.\<close>

theorem preview_bounds:
  "length (preview doc) \<le> 323 \<and> CHR ''\<newline>'' \<notin> set (preview doc)"
proof -
  let ?p = "py_replace ''\<newline>'' '' '' (py_strip doc)"
  have "CHR ''\<newline>'' \<notin> set ?p" by (rule py_replace_removes) simp
  then have "CHR ''\<newline>'' \<notin> set (take 320 ?p)" by (meson in_set_takeD)
  with \<open>CHR ''\<newline>'' \<notin> set ?p\<close> show ?thesis by (simp add: preview_def Let_def)
qed

end
