(* ===== verification/Answer.thy ===== *)
theory Answer
  imports Prelude Search
begin

text \<open>
  The answer script \<open>src/answer_ollama.py\<close>: the module's imports (lines 2--10),
  \<open>format_sources\<close>, which renders the hits of the Chroma query as numbered blocks,
  \<open>call_ollama\<close>, which runs the (external) \<open>ollama\<close> process and raises
  \<open>RuntimeError\<close> on a non-zero exit status, and \<open>main\<close>, which opens the collection,
  queries it, builds the prompt with \<open>textwrap.dedent\<close>, calls the model and prints the
  answer and the citations. What the installed modules export, the query and the process are
  parameters. The module imports \<open>Settingss\<close> from \<open>chromadb.config\<close>, and
  \<open>main\<close> reads \<open>Settings\<close>, which nothing binds: the script raises
  \<open>ImportError\<close> at line 10 or \<open>NameError\<close> at line 63, so the part of
  \<open>main\<close> after line 63 is modelled as the code is written but is never reached.
\<close>

subsection \<open>The module (answer_ollama.py 2--10, 13, 35, 49)\<close>

definition answer_imports :: "py_import list" where
  "answer_imports =
     [ImportFrom ''__future__'' ''annotations'', Import ''argparse'', ImportFrom ''pathlib'' ''Path'',
      Import ''subprocess'', Import ''textwrap'', Import ''chromadb'', ImportFrom ''chromadb.config'' ''Settingss'']"

text \<open>The functions the module defines.\<close>

definition answer_defs :: "string list" where
  "answer_defs = [''format_sources'', ''call_ollama'', ''main'']"

subsection \<open>format_sources (answer_ollama.py 13--32)\<close>

definition source_header :: "('d \<Rightarrow> string) \<Rightarrow> nat \<Rightarrow> string \<Rightarrow> pydict \<Rightarrow> 'd \<Rightarrow> string" where
  "source_header fmt4 rank cid meta dist =
     (let src = py_str (py_get_default meta ''source_file'' (JStr ''unknown''));
          sl = py_str (py_get_default meta ''start_line'' (JStr ''?''));
          el = py_str (py_get_default meta ''end_line'' (JStr ''?''));
          sp = dict_get meta ''start_page'';
          ep = dict_get meta ''end_page''
      in case (sp, ep) of
           (Some a, Some b) \<Rightarrow>
             ''['' @ nat_str rank @ ''] '' @ src @ '' pages='' @ py_str a @ ''-'' @ py_str b @
             '' lines='' @ sl @ ''-'' @ el @ '' (distance='' @ fmt4 dist @ '', id='' @ cid @ '')''
         | _ \<Rightarrow>
             ''['' @ nat_str rank @ ''] '' @ src @ '' lines='' @ sl @ ''-'' @ el @
             '' (distance='' @ fmt4 dist @ '', id='' @ cid @ '')'')"

definition format_sources :: "('d \<Rightarrow> string) \<Rightarrow> 'd query_result \<Rightarrow> string" where
  "format_sources fmt4 res =
     py_join ''\<newline>\<newline>---\<newline>\<newline>''
       (map (\<lambda>(rank, cid, doc, meta, dist). source_header fmt4 rank cid meta dist @ ''\<newline>'' @ py_strip doc)
            (List.enumerate 1 (zip4 (res_ids res) (res_docs res) (res_metas res) (res_dists res))))"

subsection \<open>call_ollama (answer_ollama.py 35--46)\<close>

definition call_ollama ::
  "(string \<Rightarrow> string \<Rightarrow> int \<times> string \<times> string) \<Rightarrow> string \<Rightarrow> string \<Rightarrow> py_error + string" where
  "call_ollama run model prompt =
     (case run model prompt of
        (returncode, out, err) \<Rightarrow> if returncode \<noteq> 0 then Inl (RuntimeError err) else Inr out)"

subsection \<open>The prompt (answer_ollama.py 75--93)\<close>

text \<open>
  \<open>textwrap.dedent\<close>: lines of only spaces and tabs become empty, the longest common
  prefix of the leading spaces and tabs of the other lines is removed from every line.
\<close>

definition is_indent_char :: "char \<Rightarrow> bool" where
  "is_indent_char c \<longleftrightarrow> c = CHR '' '' \<or> c = CHR 0x09"

fun common_prefix :: "string \<Rightarrow> string \<Rightarrow> string" where
  "common_prefix (x # xs) (y # ys) = (if x = y then x # common_prefix xs ys else [])"
| "common_prefix _ _ = []"

definition dedent :: "string \<Rightarrow> string" where
  "dedent text =
     (let lines = map (\<lambda>l. if l \<noteq> [] \<and> (\<forall>c \<in> set l. is_indent_char c) then [] else l)
                      (split_on (CHR ''\<newline>'') text);
          indents = map (takeWhile is_indent_char) (filter (\<lambda>l. l \<noteq> []) lines)
      in case indents of
           [] \<Rightarrow> py_join ''\<newline>'' lines
         | i # is \<Rightarrow>
             (let margin = fold common_prefix is i
              in py_join ''\<newline>'' (map (\<lambda>l. if take (length margin) l = margin then drop (length margin) l else l)
                                      lines)))"

text \<open>The f-string of the prompt, before \<open>dedent\<close>; \<open>CHR 0x22\<close> is the character \<open>"\<close>.\<close>

definition prompt_template :: "string \<Rightarrow> string \<Rightarrow> string" where
  "prompt_template question sources_text =
     py_join ''\<newline>''
       ['''',
        ''    You are answering questions using ONLY the provided sources from a book.'',
        ''    Rules:'',
        ''    - If the sources do not contain the answer, say: '' @ [CHR 0x22] @
          ''Not found in the provided sources.'' @ [CHR 0x22],
        ''    - Do not invent facts.'',
        ''    - Write a concise answer (5-8 sentences).'',
        ''    - Add citations after claims using the format:'',
        ''      - TXT/MD: (source_file:lines start-end)'',
        ''      - PDF: (source_file:pages start-end, lines start-end)'',
        ''    - Do NOT paste long quotes; keep quotes under 20 words.'',
        '''',
        ''    Question:'',
        ''    '' @ question,
        '''',
        ''    Sources:'',
        ''    '' @ sources_text,
        '''',
        ''    Now write the answer with citations.'',
        ''    '']"

definition answer_prompt :: "('d \<Rightarrow> string) \<Rightarrow> string \<Rightarrow> 'd query_result \<Rightarrow> string" where
  "answer_prompt fmt4 question res = py_strip (dedent (prompt_template question (format_sources fmt4 res)))"

text \<open>The first line of the template.\<close>

definition prompt_line1 :: string where
  "prompt_line1 = ''    You are answering questions using ONLY the provided sources from a book.''"

subsection \<open>main (answer_ollama.py 49--115)\<close>

text \<open>One line of the \<open>SOURCES USED\<close> list.\<close>

definition sources_used_line :: "pydict \<Rightarrow> string" where
  "sources_used_line meta =
     (let src = py_str (py_get_default meta ''source_file'' (JStr ''unknown''));
          sl = py_str (py_get_default meta ''start_line'' (JStr ''?''));
          el = py_str (py_get_default meta ''end_line'' (JStr ''?''));
          sp = dict_get meta ''start_page'';
          ep = dict_get meta ''end_page''
      in case (sp, ep) of
           (Some a, Some b) \<Rightarrow> ''- '' @ src @ '' pages='' @ py_str a @ ''-'' @ py_str b @ '' lines='' @ sl @ ''-'' @ el
         | _ \<Rightarrow> ''- '' @ src @ '' lines='' @ sl @ ''-'' @ el)"

definition answer_report :: "string \<Rightarrow> string \<Rightarrow> pydict list \<Rightarrow> string list" where
  "answer_report question answer metas =
     [''\<newline>=============================='', ''QUESTION: '' @ question, ''==============================\<newline>'',
      py_strip answer, ''\<newline>------------------------------'', ''SOURCES USED (top-k retrieved):''] @
     map sources_used_line metas @ [''------------------------------\<newline>'']"

text \<open>The parsed options of \<open>main\<close>, \<open>None\<close> where not given (lines 50--56).\<close>

record answer_args =
  a_db_dir :: string
  a_collection :: "string option"
  a_k :: "int option"
  a_model :: "string option"
  a_question :: "string list"

definition answer_collection :: "answer_args \<Rightarrow> string" where
  "answer_collection a = (case a_collection a of None \<Rightarrow> ''art_of_war'' | Some c \<Rightarrow> c)"

definition answer_k :: "answer_args \<Rightarrow> int" where
  "answer_k a = (case a_k a of None \<Rightarrow> 5 | Some k \<Rightarrow> k)"

definition answer_model :: "answer_args \<Rightarrow> string" where
  "answer_model a = (case a_model a of None \<Rightarrow> ''llama3.1'' | Some m \<Rightarrow> m)"

text \<open>
  \<open>main\<close> after \<open>parse_args\<close>, in a module whose globals are \<open>globals\<close>: every global
  name is read where the code reads it (\<open>argparse\<close> at line 50, \<open>Path\<close> at 59,
  \<open>chromadb\<close>, \<open>str\<close> and \<open>Settings\<close> at 61--63, \<open>format_sources\<close> at 73,
  \<open>textwrap\<close> at 75, \<open>call_ollama\<close> at 95); \<open>query\<close> is \<open>get_collection\<close> and
  \<open>collection.query\<close> with \<open>n_results=args.k\<close>.
\<close>

definition answer_main ::
  "string list \<Rightarrow> ('d \<Rightarrow> string) \<Rightarrow> (string \<Rightarrow> string \<Rightarrow> int \<times> string \<times> string) \<Rightarrow>
   (string \<Rightarrow> string \<Rightarrow> int \<Rightarrow> py_error + 'd query_result) \<Rightarrow> answer_args \<Rightarrow> py_error + string list" where
  "answer_main globals fmt4 run query a =
     (let scope = [''ap'', ''args'', ''question'', ''db_dir''] @ globals @ py_builtins;
          question = py_strip (py_join '' '' (a_question a))
      in py_bind (py_map_all (py_lookup scope) [''argparse'', ''Path'', ''chromadb'', ''str'', ''Settings'']) (\<lambda>_.
         py_bind (query (answer_collection a) question (answer_k a)) (\<lambda>res.
         py_bind (py_map_all (py_lookup scope) [''format_sources'', ''textwrap'', ''call_ollama'']) (\<lambda>_.
         py_bind (call_ollama run (answer_model a) (answer_prompt fmt4 question res)) (\<lambda>answer.
           Inr (answer_report question answer (res_metas res)))))))"

text \<open>Running the script (lines 118--119): the imports, the definitions, then \<open>main\<close>.\<close>

definition answer_script ::
  "(string \<Rightarrow> string list option) \<Rightarrow> ('d \<Rightarrow> string) \<Rightarrow> (string \<Rightarrow> string \<Rightarrow> int \<times> string \<times> string) \<Rightarrow>
   (string \<Rightarrow> string \<Rightarrow> int \<Rightarrow> py_error + 'd query_result) \<Rightarrow> answer_args \<Rightarrow> py_error + string list" where
  "answer_script exports fmt4 run query a =
     py_bind (run_imports exports answer_imports) (\<lambda>names. answer_main (names @ answer_defs) fmt4 run query a)"


subsection \<open>dedent and the prompt\<close>

lemma fold_common_prefix_Nil: "fold common_prefix is [] = []"
  by (induction "is") simp_all

lemma fold_common_prefix_mem: "[] \<in> set is \<Longrightarrow> fold common_prefix is i = []"
proof (induction "is" arbitrary: i)
  case Nil
  then show ?case by simp
next
  case (Cons x xs)
  show ?case
  proof (cases "x = []")
    case True
    have "common_prefix [] i = []" by (cases i) simp_all
    with True show ?thesis by (simp add: fold_common_prefix_Nil)
  next
    case False
    with Cons show ?thesis by simp
  qed
qed

theorem dedent_no_margin:
  assumes "l \<in> set (split_on (CHR ''\<newline>'') text)" "l \<noteq> []" "\<not> is_indent_char (hd l)"
  shows "dedent text =
         py_join ''\<newline>'' (map (\<lambda>l. if l \<noteq> [] \<and> (\<forall>c \<in> set l. is_indent_char c) then [] else l)
                               (split_on (CHR ''\<newline>'') text))"
proof -
  let ?lines = "map (\<lambda>l. if l \<noteq> [] \<and> (\<forall>c \<in> set l. is_indent_char c) then [] else l) (split_on (CHR ''\<newline>'') text)"
  have "l \<in> set ?lines" using assms by (force simp: neq_Nil_conv)
  then have mem: "[] \<in> set (map (takeWhile is_indent_char) (filter (\<lambda>l. l \<noteq> []) ?lines))"
    using assms(2,3) by (force simp: neq_Nil_conv)
  show ?thesis
  proof (cases "map (takeWhile is_indent_char) (filter (\<lambda>l. l \<noteq> []) ?lines)")
    case Nil
    with mem show ?thesis by simp
  next
    case (Cons i "is")
    have "fold common_prefix is i = []"
    proof (cases "i = []")
      case True
      then show ?thesis by (simp add: fold_common_prefix_Nil)
    next
      case False
      with mem Cons show ?thesis by (simp add: fold_common_prefix_mem)
    qed
    with Cons show ?thesis by (simp add: dedent_def Let_def comp_def)
  qed
qed

lemma prompt_template_head:
  "\<exists>A R. prompt_template question S =
          CHR ''\<newline>'' # prompt_line1 @ CHR ''\<newline>'' # ''    Rules:'' @ CHR ''\<newline>'' # A @ (''    '' @ S) @ R"
proof -
  let ?M = "[''    - If the sources do not contain the answer, say: '' @ [CHR 0x22] @
             ''Not found in the provided sources.'' @ [CHR 0x22],
            ''    - Do not invent facts.'', ''    - Write a concise answer (5-8 sentences).'',
            ''    - Add citations after claims using the format:'',
            ''      - TXT/MD: (source_file:lines start-end)'',
            ''      - PDF: (source_file:pages start-end, lines start-end)'',
            ''    - Do NOT paste long quotes; keep quotes under 20 words.'', '''', ''    Question:'',
            ''    '' @ question, '''', ''    Sources:'', ''    '' @ S, '''',
            ''    Now write the answer with citations.'', ''    '']"
  have t: "prompt_template question S = py_join ''\<newline>'' ([] # prompt_line1 # ''    Rules:'' # ?M)"
    by (simp add: prompt_template_def prompt_line1_def)
  obtain A R where AR: "py_join ''\<newline>'' ?M = A @ (''    '' @ S) @ R"
    using py_join_mem [of "''    '' @ S" ?M "''\<newline>''"] by auto
  have j: "py_join ''\<newline>'' ([] # prompt_line1 # ''    Rules:'' # ?M) =
           [] @ ''\<newline>'' @ prompt_line1 @ ''\<newline>'' @ ''    Rules:'' @ ''\<newline>'' @ py_join ''\<newline>'' ?M"
    by (simp only: py_join.simps(3) append.assoc)
  show ?thesis unfolding t j AR by (intro exI [of _ A] exI [of _ R]) simp
qed

subsection \<open>Properties of the answer script\<close>

text \<open>Claim C33: the three places that print a citation (the search line of search_chroma, the source header of format_sources and the SOURCES USED line of answer_ollama) print the same source and the same page and line range for every metadata dict, the page range exactly when both page keys are present.\<close>

theorem citations_agree:
  "search_citation meta = ''    source='' @ cite_source meta @ '' '' @ cite_range meta \<and>
   sources_used_line meta = ''- '' @ cite_source meta @ '' '' @ cite_range meta \<and>
   source_header fmt4 rank cid meta dist =
     ''['' @ nat_str rank @ ''] '' @ cite_source meta @ '' '' @ cite_range meta @
     '' (distance='' @ fmt4 dist @ '', id='' @ cid @ '')''"
  by (simp add: search_citation_cite sources_used_line_def source_header_def cite_source_def cite_range_def
                Let_def split: option.splits)

text \<open>Claim C32: running answer_ollama.py never prints an answer, whatever chromadb exports, the index holds or the language model replies: the import of Settingss at line 10 raises ImportError, or, where that name exists, main raises NameError for Settings at line 63, before the query and before ollama is called.\<close>

theorem answer_script_never_answers:
  "(\<exists>msg. answer_script exports fmt4 run query a = Inl (ImportError msg)) \<or>
   answer_script exports fmt4 run query a = Inl (NameError ''Settings'')"
proof (cases "run_imports exports answer_imports")
  case (Inl e)
  then show ?thesis using run_imports_Inl [OF Inl] by (auto simp: answer_script_def)
next
  case (Inr names)
  then have "names = map import_binds answer_imports" by (rule run_imports_Inr)
  then show ?thesis
    using Inr by (simp add: answer_script_def answer_main_def answer_imports_def answer_defs_def
                            py_builtins_def py_lookup_def Let_def)
qed

text \<open>Claim C34: textwrap.dedent does not remove the template's indentation: as soon as one hit has a non-blank document, its text starts a line of the sources at column 0, the common margin is empty, and the prompt sent to ollama keeps the four leading spaces of the rule lines (its second line is four spaces and Rules:).\<close>

theorem answer_prompt_indented:
  assumes hit: "(cid, doc, meta, dist) \<in> set (zip4 (res_ids res) (res_docs res) (res_metas res) (res_dists res))"
    and ne: "py_strip doc \<noteq> []"
  shows "\<exists>rest. answer_prompt fmt4 question res =
           ''You are answering questions using ONLY the provided sources from a book.\<newline>    Rules:'' @ rest"
proof -
  let ?Z = "zip4 (res_ids res) (res_docs res) (res_metas res) (res_dists res)"
  let ?blk = "source_header fmt4 (Suc i) cid meta dist @ ''\<newline>'' @ py_strip doc"
  obtain i where i: "i < length ?Z" "?Z ! i = (cid, doc, meta, dist)" using hit by (meson in_set_conv_nth)
  then have "(Suc i, cid, doc, meta, dist) \<in> set (List.enumerate 1 ?Z)" by (simp add: in_set_enumerate_eq)
  then have "source_header fmt4 (Suc i) cid meta dist @ ''\<newline>'' @ py_strip doc \<in>
             set (map (\<lambda>(rank, cid, doc, meta, dist). source_header fmt4 rank cid meta dist @ ''\<newline>'' @ py_strip doc)
                      (List.enumerate 1 ?Z))"
    by force
  then obtain A' R' where S: "format_sources fmt4 res =
      A' @ (source_header fmt4 (Suc i) cid meta dist @ ''\<newline>'' @ py_strip doc) @ R'"
    unfolding format_sources_def by (blast dest: py_join_mem)
  obtain A R where T: "prompt_template question (format_sources fmt4 res) =
      CHR ''\<newline>'' # prompt_line1 @ CHR ''\<newline>'' # ''    Rules:'' @ CHR ''\<newline>'' #
      A @ (''    '' @ format_sources fmt4 res) @ R"
    using prompt_template_head by blast
  let ?text = "prompt_template question (format_sources fmt4 res)"
  let ?REST = "A @ (''    '' @ format_sources fmt4 res) @ R"
  let ?norm = "\<lambda>l. if l \<noteq> [] \<and> (\<forall>c \<in> set l. is_indent_char c) then [] else l"
  have tx: "?text = (CHR ''\<newline>'' # prompt_line1 @ CHR ''\<newline>'' # ''    Rules:'' @ CHR ''\<newline>'' #
                       A @ ''    '' @ A' @ source_header fmt4 (Suc i) cid meta dist) @
                      CHR ''\<newline>'' # (py_strip doc @ R' @ R)"
    using T S by simp
  have l: "takeWhile (\<lambda>c. c \<noteq> CHR ''\<newline>'') (py_strip doc @ R' @ R) \<in> set (split_on (CHR ''\<newline>'') ?text)"
    unfolding tx by (rule line_after_sep)
  have "\<not> is_space (hd (py_strip doc))" by (rule hd_py_strip [OF ne])
  then have "hd (py_strip doc) \<noteq> CHR ''\<newline>'' \<and> \<not> is_indent_char (hd (py_strip doc))"
    by (auto simp: is_space_def py_whitespace_def is_indent_char_def)
  then have "takeWhile (\<lambda>c. c \<noteq> CHR ''\<newline>'') (py_strip doc @ R' @ R) \<noteq> [] \<and>
             \<not> is_indent_char (hd (takeWhile (\<lambda>c. c \<noteq> CHR ''\<newline>'') (py_strip doc @ R' @ R)))"
    using ne by (cases "py_strip doc") simp_all
  then have d: "dedent ?text = py_join ''\<newline>'' (map ?norm (split_on (CHR ''\<newline>'') ?text))"
    using dedent_no_margin [OF l] by blast
  have "split_on (CHR ''\<newline>'') ?text = [] # prompt_line1 # ''    Rules:'' # split_on (CHR ''\<newline>'') ?REST"
    unfolding T by (simp add: split_on_append_sep prompt_line1_def Let_def)
  moreover have "?norm prompt_line1 = prompt_line1" "?norm ''    Rules:'' = ''    Rules:''"
    by (simp_all add: prompt_line1_def is_indent_char_def)
  ultimately have "dedent ?text =
      CHR ''\<newline>'' # prompt_line1 @ CHR ''\<newline>'' # ''    Rules:'' @ CHR ''\<newline>'' #
      py_join ''\<newline>'' (map ?norm (split_on (CHR ''\<newline>'') ?REST))"
    using d split_on_not_Nil [of "CHR ''\<newline>''" ?REST]
    by (cases "split_on (CHR ''\<newline>'') ?REST") simp_all
  then have ls: "py_lstrip (dedent ?text) =
      ''You are answering questions using ONLY the provided sources from a book.\<newline>    Rules:'' @
      CHR ''\<newline>'' # py_join ''\<newline>'' (map ?norm (split_on (CHR ''\<newline>'') ?REST))"
    by (simp add: py_lstrip_def prompt_line1_def is_space_def py_whitespace_def)
  have "\<exists>R''. py_rstrip (''You are answering questions using ONLY the provided sources from a book.\<newline>    Rules:'' @
      CHR ''\<newline>'' # py_join ''\<newline>'' (map ?norm (split_on (CHR ''\<newline>'') ?REST))) =
      ''You are answering questions using ONLY the provided sources from a book.\<newline>    Rules:'' @ R''"
    by (rule py_rstrip_prefix) (simp_all add: is_space_def py_whitespace_def)
  then show ?thesis unfolding answer_prompt_def py_strip_def ls .
qed

theorem answer_prompt_indented_witness:
  "(''id0'', ''b'', [], 0::int) \<in> set (zip4 [''id0''] [''b''] [[]] [0]) \<and> py_strip ''b'' \<noteq> [] \<and>
   (\<exists>rest. answer_prompt int_str ''q'' \<lparr>res_ids = [''id0''], res_docs = [''b''], res_metas = [[]], res_dists = [0::int]\<rparr> =
           ''You are answering questions using ONLY the provided sources from a book.\<newline>    Rules:'' @ rest)"
  using answer_prompt_indented [of "''id0''" "''b''" "[]" "0::int"
          "\<lparr>res_ids = [''id0''], res_docs = [''b''], res_metas = [[]], res_dists = [0::int]\<rparr>" int_str "''q''"]
  by (simp add: py_simps)

end
