(* ===== verification/ChunkCli.thy ===== *)
theory ChunkCli
  imports Pipeline Json
begin

text \<open>
  The command line of \<open>src/chunk.py\<close> (\<open>main\<close>, lines 114--140): the options parsed by
  \<open>argparse\<close> with their defaults, the pipeline of \<^const>\<open>chunk_main\<close> on the input file,
  the JSONL file written to \<open>--out\<close>, and the summary printed after it: the source with
  its number of normalized lines, the number of records with the output path, and for a
  non-empty run the first record without its text (as Python prints a dict) and the first
  300 characters of that text. The file system is the input path's content (the text of a
  text file, the extracted pages of a PDF); the effects of a run are the file it wrote and
  the lines it printed, kept when a later statement raises.
\<close>

subsection \<open>The code\<close>

text \<open>The parsed options, \<open>None\<close> where the option was not given (lines 115--120).\<close>

record cli_args =
  arg_input :: string
  arg_out :: "string option"
  arg_lines_per_chunk :: "int option"
  arg_overlap_lines :: "int option"

definition cli_out_path :: "cli_args \<Rightarrow> string" where
  "cli_out_path a = py_path_str (case arg_out a of None \<Rightarrow> ''data/chunks.jsonl'' | Some p \<Rightarrow> p)"

definition cli_lines_per_chunk :: "cli_args \<Rightarrow> int" where
  "cli_lines_per_chunk a = (case arg_lines_per_chunk a of None \<Rightarrow> 80 | Some n \<Rightarrow> n)"

definition cli_overlap_lines :: "cli_args \<Rightarrow> int" where
  "cli_overlap_lines a = (case arg_overlap_lines a of None \<Rightarrow> 20 | Some n \<Rightarrow> n)"

text \<open>
  The arrow of line 132 as the source file stores it: the UTF-8 bytes of the three characters
  \<open>U+00E2 U+2020 U+2019\<close> (a right arrow decoded once as Windows-1252), which is what
  the program prints.
\<close>

definition cli_arrow :: string where
  "cli_arrow = [CHR 0xC3, CHR 0xA2, CHR 0xE2, CHR 0x80, CHR 0xA0, CHR 0xE2, CHR 0x80, CHR 0x99]"

record cli_effects =
  cli_written :: "(string \<times> string) option"
  cli_printed :: "string list"

text \<open>The keys shown of the example record (lines 135--137).\<close>

definition example_keys :: "pydict \<Rightarrow> string list" where
  "example_keys ex =
     [''id'', ''source_file'', ''start_line'', ''end_line''] @
     (if ''start_page'' \<in> set (map fst ex) then [''start_page'', ''end_page''] else [])"

text \<open>\<open>ex["text"][:300] + ("..." if len(ex["text"]) > 300 else "")\<close>.\<close>

definition text_preview :: "string \<Rightarrow> string" where
  "text_preview s = take 300 s @ (if length s > 300 then ''...'' else [])"

text \<open>
  Lines 138--140: the header is printed before the dict comprehension runs, so a missing key
  raises \<open>KeyError\<close> after it; slicing an \<open>int\<close> text raises \<open>TypeError\<close>.
\<close>

definition example_lines :: "pydict \<Rightarrow> string list \<times> (py_error + unit)" where
  "example_lines ex =
     (case py_map_all (\<lambda>k. py_bind (py_getitem ex k) (\<lambda>v. Inr (k, v))) (example_keys ex) of
        Inl e \<Rightarrow> ([''Example record:''], Inl e)
      | Inr sel \<Rightarrow>
          (case py_getitem ex ''text'' of
             Inl e \<Rightarrow> ([''Example record:'', py_repr_dict sel], Inl e)
           | Inr (JStr s) \<Rightarrow> ([''Example record:'', py_repr_dict sel, text_preview s], Inr ())
           | Inr (JInt _) \<Rightarrow>
               ([''Example record:'', py_repr_dict sel], Inl (TypeError ''int object is not subscriptable''))))"

text \<open>
  \<open>main\<close> after \<open>parse_args\<close>, on the content \<open>txt\<close> and \<open>pages\<close> of the input path.
  \<open>None\<close> is a run whose chunking loop does not end.
\<close>

definition chunk_cli :: "cli_args \<Rightarrow> string \<Rightarrow> string option list \<Rightarrow> (cli_effects \<times> (py_error + unit)) option" where
  "chunk_cli a txt pages =
     (let src = \<lparr>src_path = arg_input a, file_text = txt, pdf_pages = pages\<rparr>;
          out = cli_out_path a;
          nothing = \<lparr>cli_written = None, cli_printed = []\<rparr>
      in case read_text_any src of
           Inl e \<Rightarrow> Some (nothing, Inl e)
         | Inr rr \<Rightarrow>
             (let text = (case rr of Plain t \<Rightarrow> t | Paged t _ \<Rightarrow> t);
                  page_of_line = (case rr of Plain _ \<Rightarrow> None | Paged _ p \<Rightarrow> Some p);
                  lines = normalize_lines text
              in case chunk_by_lines lines (cli_lines_per_chunk a) (cli_overlap_lines a) of
                   None \<Rightarrow> None
                 | Some (Inl e) \<Rightarrow> Some (nothing, Inl e)
                 | Some (Inr chunks) \<Rightarrow>
                     (case build_records (src_path src) chunks page_of_line of
                        Inl e \<Rightarrow> Some (nothing, Inl e)
                      | Inr records \<Rightarrow>
                          (let written = Some (out, write_jsonl records);
                               summary = [''Source: '' @ py_path_str (src_path src) @ '' ('' @
                                            nat_str (length lines) @ '' lines)'',
                                          ''Chunks: '' @ nat_str (length records) @ '' '' @ cli_arrow @
                                            '' '' @ out]
                           in if records = [] then Some (\<lparr>cli_written = written, cli_printed = summary\<rparr>, Inr ())
                              else (case example_lines (hd records) of
                                      (ls, r) \<Rightarrow> Some (\<lparr>cli_written = written, cli_printed = summary @ ls\<rparr>, r))))))"

subsection \<open>Reference description\<close>

text \<open>The text of a record.\<close>

definition record_text :: "pydict \<Rightarrow> string" where
  "record_text r = (case dict_get r ''text'' of Some (JStr s) \<Rightarrow> s | _ \<Rightarrow> [])"

subsection \<open>The summary of a well-typed record\<close>

lemma example_lines_typed:
  assumes "has_schema chunk_schema r \<or> has_schema page_schema r"
  shows "example_lines r =
           ([''Example record:'', py_repr_dict (filter (\<lambda>kv. fst kv \<noteq> ''text'') r),
             text_preview (record_text r)], Inr ())"
  using assms
  by (auto simp: chunk_schema_def page_schema_def example_lines_def example_keys_def
                 py_getitem_def dict_get_def record_text_def)

lemma chunk_cli_eq:
  assumes "read_text_any \<lparr>src_path = arg_input a, file_text = txt, pdf_pages = pages\<rparr> = Inr rr"
  shows "chunk_cli a txt pages =
    (case chunk_by_lines (read_lines rr) (cli_lines_per_chunk a) (cli_overlap_lines a) of
       None \<Rightarrow> None
     | Some (Inl e) \<Rightarrow> Some (\<lparr>cli_written = None, cli_printed = []\<rparr>, Inl e)
     | Some (Inr chunks) \<Rightarrow>
         (case build_records (arg_input a) chunks (read_pages rr) of
            Inl e \<Rightarrow> Some (\<lparr>cli_written = None, cli_printed = []\<rparr>, Inl e)
          | Inr records \<Rightarrow>
              (let written = Some (cli_out_path a, write_jsonl records);
                   summary = [''Source: '' @ py_path_str (arg_input a) @ '' ('' @
                                nat_str (length (read_lines rr)) @ '' lines)'',
                              ''Chunks: '' @ nat_str (length records) @ '' '' @ cli_arrow @
                                '' '' @ cli_out_path a]
               in if records = [] then Some (\<lparr>cli_written = written, cli_printed = summary\<rparr>, Inr ())
                  else (case example_lines (hd records) of
                          (ls, r) \<Rightarrow> Some (\<lparr>cli_written = written, cli_printed = summary @ ls\<rparr>, r)))))"
  using assms unfolding chunk_cli_def read_lines_def read_pages_def Let_def source_file.select_convs
  by simp

lemma chunk_main_stages:
  assumes "read_text_any src = Inr rr" and "chunk_main src n m = Some (Inr rs)"
  obtains chunks where "chunk_by_lines (read_lines rr) n m = Some (Inr chunks)"
    and "build_records (src_path src) chunks (read_pages rr) = Inr rs"
  using assms
  by (auto simp: chunk_main_def read_lines_def read_pages_def split: option.splits sum.splits)

lemma build_records_hd_typed:
  assumes "build_records p chunks pol = Inr rs" and "rs \<noteq> []"
  shows "has_schema chunk_schema (hd rs) \<or> has_schema page_schema (hd rs)"
  using build_records_from_typed [of p pol 0 chunks rs "hd rs"] assms
  by (auto simp: build_records_def)

subsection \<open>Properties of the command line\<close>

text \<open>Claim C24: a run of the command line that ends in an exception (an unsupported suffix, invalid chunk parameters, an IndexError of the page lookup) has written no output file and printed nothing: no partial output, as the spec requires of a failing document.\<close>

theorem chunk_cli_no_partial_output:
  assumes "chunk_cli a txt pages = Some (eff, Inl e)"
  shows "cli_written eff = None \<and> cli_printed eff = []"
proof (cases "read_text_any \<lparr>src_path = arg_input a, file_text = txt, pdf_pages = pages\<rparr>")
  case (Inl err)
  then show ?thesis using assms by (auto simp: chunk_cli_def)
next
  case (Inr rr)
  note eq = chunk_cli_eq [OF Inr]
  show ?thesis
  proof (cases "chunk_by_lines (read_lines rr) (cli_lines_per_chunk a) (cli_overlap_lines a)")
    case None
    then show ?thesis using assms eq by simp
  next
    case (Some res)
    show ?thesis
    proof (cases res)
      case (Inl err)
      then show ?thesis using assms eq Some by auto
    next
      case (Inr chunks)
      show ?thesis
      proof (cases "build_records (arg_input a) chunks (read_pages rr)")
        case (Inl err)
        then show ?thesis using assms eq Some Inr by auto
      next
        case (Inr records)
        have "records \<noteq> [] \<Longrightarrow> snd (example_lines (hd records)) = Inr ()"
          using example_lines_typed build_records_hd_typed [OF Inr] by simp
        then show ?thesis using assms eq Some \<open>res = Inr chunks\<close> Inr
          by (auto simp: Let_def split: if_splits prod.splits)
      qed
    qed
  qed
qed

theorem chunk_cli_no_partial_output_witness:
  "chunk_cli \<lparr>arg_input = ''w.txt'', arg_out = None, arg_lines_per_chunk = Some 3, arg_overlap_lines = Some 3\<rparr> ''x'' [] =
     Some (\<lparr>cli_written = None, cli_printed = []\<rparr>, Inl AssertionError) \<and>
   cli_written \<lparr>cli_written = None, cli_printed = []\<rparr> = (None :: (string \<times> string) option)"
proof -
  have run: "chunk_cli \<lparr>arg_input = ''w.txt'', arg_out = None, arg_lines_per_chunk = Some 3, arg_overlap_lines = Some 3\<rparr> ''x'' [] =
     Some (\<lparr>cli_written = None, cli_printed = []\<rparr>, Inl AssertionError)"
    by (simp add: chunk_cli_def pipeline_eval chunk_by_lines_def cli_lines_per_chunk_def cli_overlap_lines_def Let_def)
  show ?thesis using chunk_cli_no_partial_output [OF run] run by simp
qed

text \<open>Claim C23: when the pipeline returns records rs, the command line writes write_jsonl rs to the output path (default data/chunks.jsonl) and prints exactly the source with its number of normalized lines, the number of records with the output path, and, for a non-empty run, the first record without its text as a Python dict followed by the first 300 characters of its text, with ... when it is longer; it raises nothing.\<close>

theorem chunk_cli_output:
  assumes "read_text_any \<lparr>src_path = arg_input a, file_text = txt, pdf_pages = pages\<rparr> = Inr rr"
    and "chunk_main \<lparr>src_path = arg_input a, file_text = txt, pdf_pages = pages\<rparr>
           (cli_lines_per_chunk a) (cli_overlap_lines a) = Some (Inr rs)"
  shows "chunk_cli a txt pages =
    Some (\<lparr>cli_written = Some (cli_out_path a, write_jsonl rs),
           cli_printed =
             [''Source: '' @ py_path_str (arg_input a) @ '' ('' @ nat_str (length (read_lines rr)) @ '' lines)'',
              ''Chunks: '' @ nat_str (length rs) @ '' '' @ cli_arrow @ '' '' @ cli_out_path a] @
             (if rs = [] then []
              else [''Example record:'', py_repr_dict (filter (\<lambda>kv. fst kv \<noteq> ''text'') (hd rs)),
                    take 300 (record_text (hd rs)) @
                      (if 300 < length (record_text (hd rs)) then ''...'' else [])])\<rparr>,
          Inr ())"
proof -
  obtain chunks where c: "chunk_by_lines (read_lines rr) (cli_lines_per_chunk a) (cli_overlap_lines a) = Some (Inr chunks)"
    and b: "build_records (arg_input a) chunks (read_pages rr) = Inr rs"
    using assms by (auto elim: chunk_main_stages)
  show ?thesis
  proof (cases "rs = []")
    case True
    then show ?thesis using b by (simp add: chunk_cli_eq [OF assms(1)] c)
  next
    case False
    have "example_lines (hd rs) =
            ([''Example record:'', py_repr_dict (filter (\<lambda>kv. fst kv \<noteq> ''text'') (hd rs)),
              text_preview (record_text (hd rs))], Inr ())"
      using build_records_hd_typed [OF b False] by (rule example_lines_typed)
    with False show ?thesis using b by (simp add: chunk_cli_eq [OF assms(1)] c text_preview_def)
  qed
qed

theorem chunk_cli_output_witness:
  "read_text_any \<lparr>src_path = ''war.pdf'', file_text = [], pdf_pages = [Some ''a'', Some ''b'']\<rparr> =
     Inr (Paged ''[[PAGE 1]]\<newline>a\<newline>\<newline>[[PAGE 2]]\<newline>b\<newline>\<newline>'' [1, 1, 1, 2, 2, 2]) \<and>
   chunk_main \<lparr>src_path = ''war.pdf'', file_text = [], pdf_pages = [Some ''a'', Some ''b'']\<rparr> 3 0 =
   Some (Inr [[(''id'', JStr ''war__chunk_00000''), (''source_file'', JStr ''war.pdf''), (''start_line'', JInt 1), (''end_line'', JInt 3), (''text'', JStr ''[[PAGE 1]]\<newline>a''), (''start_page'', JInt 1), (''end_page'', JInt 1)],
              [(''id'', JStr ''war__chunk_00001''), (''source_file'', JStr ''war.pdf''), (''start_line'', JInt 4), (''end_line'', JInt 6), (''text'', JStr ''[[PAGE 2]]\<newline>b''), (''start_page'', JInt 2), (''end_page'', JInt 2)]]) \<and>
   chunk_cli \<lparr>arg_input = ''war.pdf'', arg_out = None, arg_lines_per_chunk = Some 3, arg_overlap_lines = Some 0\<rparr>
     [] [Some ''a'', Some ''b''] =
   Some (\<lparr>cli_written = Some (''data/chunks.jsonl'',
            write_jsonl [[(''id'', JStr ''war__chunk_00000''), (''source_file'', JStr ''war.pdf''), (''start_line'', JInt 1), (''end_line'', JInt 3), (''text'', JStr ''[[PAGE 1]]\<newline>a''), (''start_page'', JInt 1), (''end_page'', JInt 1)],
              [(''id'', JStr ''war__chunk_00001''), (''source_file'', JStr ''war.pdf''), (''start_line'', JInt 4), (''end_line'', JInt 6), (''text'', JStr ''[[PAGE 2]]\<newline>b''), (''start_page'', JInt 2), (''end_page'', JInt 2)]]),
          cli_printed = [''Source: war.pdf (6 lines)'', ''Chunks: 2 '' @ cli_arrow @ '' data/chunks.jsonl'',
            ''Example record:'',
            ''{'id': 'war__chunk_00000', 'source_file': 'war.pdf', 'start_line': 1, 'end_line': 3, 'start_page': 1, 'end_page': 1}'',
            ''[[PAGE 1]]\<newline>a'']\<rparr>, Inr ())"
proof -
  let ?a = "\<lparr>arg_input = ''war.pdf'', arg_out = None, arg_lines_per_chunk = Some 3, arg_overlap_lines = Some (0::int)\<rparr>"
  have h1: "read_text_any \<lparr>src_path = arg_input ?a, file_text = [], pdf_pages = [Some ''a'', Some ''b'']\<rparr> =
     Inr (Paged ''[[PAGE 1]]\<newline>a\<newline>\<newline>[[PAGE 2]]\<newline>b\<newline>\<newline>'' [1, 1, 1, 2, 2, 2])"
    by (simp add: read_example_ok)
  have h2: "chunk_main \<lparr>src_path = arg_input ?a, file_text = [], pdf_pages = [Some ''a'', Some ''b'']\<rparr>
      (cli_lines_per_chunk ?a) (cli_overlap_lines ?a) =
   Some (Inr [[(''id'', JStr ''war__chunk_00000''), (''source_file'', JStr ''war.pdf''), (''start_line'', JInt 1), (''end_line'', JInt 3), (''text'', JStr ''[[PAGE 1]]\<newline>a''), (''start_page'', JInt 1), (''end_page'', JInt 1)],
              [(''id'', JStr ''war__chunk_00001''), (''source_file'', JStr ''war.pdf''), (''start_line'', JInt 4), (''end_line'', JInt 6), (''text'', JStr ''[[PAGE 2]]\<newline>b''), (''start_page'', JInt 2), (''end_page'', JInt 2)]])"
    by (simp add: cli_lines_per_chunk_def cli_overlap_lines_def chunk_main_example_ok)
  show ?thesis
    using chunk_cli_output [OF h1 h2] read_example_ok chunk_main_example_ok
    by (simp add: cli_out_path_def py_path_str_def py_repr_dict_def py_repr_str_def repr_quote_def
                  repr_char_def read_lines_def normalize_example_ok record_text_def dict_get_def Let_def py_simps)
qed
end
