(* ===== verification/IngestCli.thy ===== *)
theory IngestCli
  imports Ingest
begin

text \<open>
  The command line of \<open>src/ingest_chroma.py\<close> (\<open>main\<close>, lines 25--90) around the
  ingestion of \<^const>\<open>ingest_main\<close>: the options with their argparse defaults, the lines
  printed before loading and before opening the store, the progress of the batching loop,
  and the closing summary with the size of the collection. The Chroma collection enters
  through the ids it already holds (\<open>get_or_create_collection\<close> may open a collection of an
  earlier run); \<open>collection.add\<close> skips an id the collection already has, so
  \<open>collection.count()\<close> is the number of distinct ids held.
\<close>

subsection \<open>The code\<close>

text \<open>The parsed options, \<open>None\<close> where the option was not given (lines 26--32).\<close>

record ingest_args =
  arg_chunks :: string
  arg_db_dir :: string
  arg_collection :: "string option"
  arg_model :: "string option"
  arg_batch_size :: "int option"

definition ingest_collection :: "ingest_args \<Rightarrow> string" where
  "ingest_collection a = (case arg_collection a of None \<Rightarrow> ''art_of_war'' | Some c \<Rightarrow> c)"

definition ingest_model_name :: "ingest_args \<Rightarrow> string" where
  "ingest_model_name a =
     (case arg_model a of None \<Rightarrow> ''sentence-transformers/all-MiniLM-L6-v2'' | Some m \<Rightarrow> m)"

definition ingest_batch_size :: "ingest_args \<Rightarrow> int" where
  "ingest_batch_size a = (case arg_batch_size a of None \<Rightarrow> 64 | Some b \<Rightarrow> b)"

text \<open>\<open>collection.count()\<close> after the add calls, on a collection holding \<open>existing\<close>.\<close>

definition collection_count :: "jval list \<Rightarrow> 'e add_call list \<Rightarrow> nat" where
  "collection_count existing calls = length (remdups (existing @ concat (map add_ids calls)))"

text \<open>Line 87: a newline, \<open>Done\<close> and the UTF-8 bytes of U+2705.\<close>

definition done_line :: string where
  "done_line = CHR 0x0A # ''Done '' @ [CHR 0xE2, CHR 0x9C, CHR 0x85]"

text \<open>
  \<open>main\<close> after \<open>parse_args\<close>, on the content of the chunks file and the ids the
  collection already holds: the printed lines and the outcome. \<open>load_jsonl\<close> runs after the
  first line is printed; \<open>prepare\<close> and the loop's \<open>range\<close> after the fourth.
\<close>

definition ingest_cli ::
  "(jval list \<Rightarrow> 'e list) \<Rightarrow> ingest_args \<Rightarrow> string \<Rightarrow> jval list \<Rightarrow> string list \<times> (py_error + unit)" where
  "ingest_cli model_encode a content existing =
     (let p1 = ''Loading chunks from: '' @ py_path_str (arg_chunks a);
          db = py_path_str (arg_db_dir a)
      in case load_jsonl content of
           Inl e \<Rightarrow> ([p1], Inl e)
         | Inr records \<Rightarrow>
             (let head = [p1, ''Loaded '' @ nat_str (length records) @ '' chunks'',
                          ''Loading embedding model: '' @ ingest_model_name a,
                          ''Opening Chroma DB at: '' @ db]
              in case py_bind (prepare records) (\<lambda>(ids, texts, metas).
                        ingest_loop model_encode ids texts metas (ingest_batch_size a)) of
                   Inl e \<Rightarrow> (head, Inl e)
                 | Inr st \<Rightarrow>
                     (head @ printed st @
                      [done_line, ''Collection: '' @ ingest_collection a, ''DB dir: '' @ db,
                       ''Count in collection: '' @ nat_str (collection_count existing (add_calls st))],
                      Inr ())))"

subsection \<open>The size of the collection\<close>

lemma collection_count_subset:
  assumes "distinct ids" and "set existing \<subseteq> set ids" and "concat (map add_ids calls) = ids"
  shows "collection_count existing calls = length ids"
proof -
  have "set (existing @ concat (map add_ids calls)) = set ids" using assms(2,3) by auto
  then show ?thesis
    using assms(1) by (simp add: collection_count_def length_remdups_card_conv distinct_card)
qed

lemma ingest_cli_eq:
  assumes "load_jsonl content = Inr records" and "prepare records = Inr (ids, texts, metas)"
    and "ingest_loop model_encode ids texts metas (ingest_batch_size a) = Inr st"
  shows "ingest_cli model_encode a content existing =
           ([''Loading chunks from: '' @ py_path_str (arg_chunks a),
             ''Loaded '' @ nat_str (length records) @ '' chunks'',
             ''Loading embedding model: '' @ ingest_model_name a,
             ''Opening Chroma DB at: '' @ py_path_str (arg_db_dir a)] @ printed st @
            [done_line, ''Collection: '' @ ingest_collection a, ''DB dir: '' @ py_path_str (arg_db_dir a),
             ''Count in collection: '' @ nat_str (collection_count existing (add_calls st))], Inr ())"
  using assms by (simp add: ingest_cli_def Let_def)

subsection \<open>Properties of the command line\<close>

text \<open>Claim C28: with --batch_size 0 the script reads and prepares the chunk file, loads the embedding model and opens the database, prints the four loading lines, and only then fails: range() raises ValueError, nothing is added to the collection and no summary is printed.\<close>

theorem ingest_cli_zero_batch:
  assumes "load_jsonl content = Inr records" and "prepare records = Inr (ids, texts, metas)"
    and "ingest_batch_size a = 0"
  shows "ingest_cli E a content existing =
           ([''Loading chunks from: '' @ py_path_str (arg_chunks a),
             ''Loaded '' @ nat_str (length records) @ '' chunks'',
             ''Loading embedding model: '' @ ingest_model_name a,
             ''Opening Chroma DB at: '' @ py_path_str (arg_db_dir a)],
            Inl (ValueError ''range() arg 3 must not be zero''))"
  using assms by (simp add: ingest_cli_def ingest_loop_def py_range_def Let_def)

theorem ingest_cli_zero_batch_witness:
  "load_jsonl [] = Inr [] \<and> prepare [] = Inr ([], [], []) \<and>
   ingest_batch_size \<lparr>arg_chunks = ''c.jsonl'', arg_db_dir = ''db'', arg_collection = None, arg_model = None, arg_batch_size = Some 0\<rparr> = 0 \<and>
   ingest_cli (map (\<lambda>_. (0::nat)))
     \<lparr>arg_chunks = ''c.jsonl'', arg_db_dir = ''db'', arg_collection = None, arg_model = None, arg_batch_size = Some 0\<rparr> [] [] =
   ([''Loading chunks from: c.jsonl'', ''Loaded 0 chunks'',
     ''Loading embedding model: sentence-transformers/all-MiniLM-L6-v2'', ''Opening Chroma DB at: db''],
    Inl (ValueError ''range() arg 3 must not be zero''))"
proof -
  have l: "load_jsonl [] = Inr []"
    by (simp add: load_jsonl_def unify_newlines_def py_simps)
  have p: "prepare [] = Inr ([], [], [])" by (simp add: prepare_def)
  have b: "ingest_batch_size \<lparr>arg_chunks = ''c.jsonl'', arg_db_dir = ''db'', arg_collection = None, arg_model = None, arg_batch_size = Some 0\<rparr> = 0"
    by (simp add: ingest_batch_size_def)
  show ?thesis
    using ingest_cli_zero_batch [OF l p b, of "map (\<lambda>_. (0::nat))" "[]"] l p b
    by (simp add: py_path_str_def ingest_model_name_def py_simps)
qed

text \<open>Claim C30: with a negative --batch_size the script adds nothing to the collection and still reports success: after the four loading lines it prints no progress, then Done, the collection, the database and a count that is only the number of ids the collection held before.\<close>

theorem ingest_cli_negative_batch:
  assumes "load_jsonl content = Inr records" and "prepare records = Inr (ids, texts, metas)"
    and "ingest_batch_size a < 0"
  shows "ingest_cli E a content existing =
           ([''Loading chunks from: '' @ py_path_str (arg_chunks a),
             ''Loaded '' @ nat_str (length records) @ '' chunks'',
             ''Loading embedding model: '' @ ingest_model_name a,
             ''Opening Chroma DB at: '' @ py_path_str (arg_db_dir a),
             done_line, ''Collection: '' @ ingest_collection a, ''DB dir: '' @ py_path_str (arg_db_dir a),
             ''Count in collection: '' @ nat_str (length (remdups existing))], Inr ())"
  using ingest_cli_eq [OF assms(1,2) ingest_loop_negative [OF assms(3)]]
  by (simp add: collection_count_def)

theorem ingest_cli_negative_batch_witness:
  "load_jsonl [] = Inr [] \<and> prepare [] = Inr ([], [], []) \<and>
   ingest_batch_size \<lparr>arg_chunks = ''c.jsonl'', arg_db_dir = ''db'', arg_collection = None, arg_model = None, arg_batch_size = Some (-1)\<rparr> < 0 \<and>
   ingest_cli (map (\<lambda>_. (0::nat)))
     \<lparr>arg_chunks = ''c.jsonl'', arg_db_dir = ''db'', arg_collection = None, arg_model = None, arg_batch_size = Some (-1)\<rparr> []
     [JStr ''war__chunk_00000''] =
   ([''Loading chunks from: c.jsonl'', ''Loaded 0 chunks'',
     ''Loading embedding model: sentence-transformers/all-MiniLM-L6-v2'', ''Opening Chroma DB at: db'',
     done_line, ''Collection: art_of_war'', ''DB dir: db'', ''Count in collection: 1''], Inr ())"
proof -
  have l: "load_jsonl [] = Inr []"
    by (simp add: load_jsonl_def unify_newlines_def py_simps)
  have p: "prepare [] = Inr ([], [], [])" by (simp add: prepare_def)
  have b: "ingest_batch_size \<lparr>arg_chunks = ''c.jsonl'', arg_db_dir = ''db'', arg_collection = None, arg_model = None, arg_batch_size = Some (-1)\<rparr> < 0"
    by (simp add: ingest_batch_size_def)
  show ?thesis
    using ingest_cli_negative_batch [OF l p b, of "map (\<lambda>_. (0::nat))" "[JStr ''war__chunk_00000'']"] l p b
    by (simp add: py_path_str_def ingest_model_name_def ingest_collection_def py_simps)
qed

end
