(* ===== verification/Spec2Isabelle.thy ===== *)
theory Spec2Isabelle
  imports Prelude Normalize Chunker Loader Records Pipeline Json Ingest Search Answer ChunkCli IngestCli
begin

text \<open>
  \<^bold>\<open>A verification library for shirley-yp/projects_2024.\<close>

  The repository answers questions over a document with cited passages. \<open>src/chunk.py\<close>
  loads a document (\<open>read_text_any\<close>), normalizes its lines (\<open>normalize_lines\<close>), cuts
  them into overlapping windows (\<open>chunk_by_lines\<close>), tags each window with an id and its
  line and page range (\<open>build_records\<close>) and writes the records as JSON lines
  (\<open>write_jsonl\<close>). \<open>src/ingest_chroma.py\<close> reads the records back (\<open>load_jsonl\<close>),
  builds ids, texts and metadata, and adds them batch by batch, with their embeddings, to a
  Chroma collection. \<open>src/search_chroma.py\<close> and \<open>src/answer_ollama.py\<close> query the
  collection and print citations built from that metadata; the second also sends the hits to
  a language model through \<open>ollama\<close>. The development is a shallow embedding of that code:
  every function that computes is a HOL function of the same name, Python \<open>int\<close>s are
  \<^typ>\<open>int\<close>, strings are \<^typ>\<open>string\<close>, dicts are association lists \<^typ>\<open>pydict\<close>,
  exceptions are values of \<^typ>\<open>py_error\<close>, printed output is the list of the strings
  passed to \<open>print\<close>, and a loop that might not end returns an \<^typ>\<open>'a option\<close>
  (\<open>None\<close> = runs forever).

  \<^bold>\<open>Theories.\<close>
  \<^item> \<open>Prelude\<close>: the Python built-ins the code calls (\<open>strip\<close>, \<open>split\<close>,
    \<open>join\<close>, \<open>replace\<close>, \<open>lower\<close>, \<open>str\<close>, \<open>{:05d}\<close>, indexing and slicing,
    \<open>dict.get\<close>, \<open>r[k]\<close>, 4-way \<open>zip\<close>), raise propagation (\<open>py_bind\<close>,
    \<open>py_map_all\<close>), \<open>repr\<close> of strings, ints and dicts, the shape of a Chroma
    query result, the typing judgment \<open>has_schema\<close> of records (an inductive predicate with
    its \<open>code_pred\<close> and \<open>inductive_simps\<close>), Python's import statements and name
    lookup (\<open>ImportError\<close>, \<open>NameError\<close>, with what installed modules export as a
    parameter), and their shared lemmas.
  \<^item> \<open>Normalize\<close>: \<open>normalize_lines\<close> (chunk.py 50--62) as a fold of
    \<open>normalize_step\<close>, proved equal to the recursion \<open>collapse\<close>: no two consecutive blank
    lines, idempotence, the non-blank lines kept in order, every line clean; the collapse
    shortens a list exactly when it has two adjacent blank lines.
  \<^item> \<open>Chunker\<close>: \<open>chunk_by_lines\<close> (chunk.py 64--85), its asserts as
    \<open>AssertionError\<close>, its \<open>while\<close> loop as \<open>while_option\<close>; the reference
    \<open>chunks_spec\<close> and the refinement theorem; bounds, coverage, ordering of the starts, the
    short and blank documents, the documents shorter than a window that still give two
    chunks, the parameter errors, divergence under \<open>python -O\<close>.
  \<^item> \<open>Loader\<close>: \<open>read_text_any\<close> (chunk.py 9--48) on a source given by its path,
    its text and the page texts \<open>pypdf\<close> extracts; the page loop computes the reference
    lines \<open>pdf_line_pages\<close> and their page map.
  \<^item> \<open>Records\<close>: \<open>build_records\<close> (chunk.py 87--106) with Python indexing; its reference
    \<open>record_spec\<close>; distinct ids; every record is well typed (\<open>chunk_schema\<close>, or
    \<open>page_schema\<close> only when a page map is given).
  \<^item> \<open>Pipeline\<close>: \<open>chunk_main\<close>, the composition of \<open>main\<close> (chunk.py 125--128).
  \<^item> \<open>Json\<close>: \<open>write_jsonl\<close> (chunk.py 108--112) and \<open>load_jsonl\<close>
    (ingest_chroma.py 14--22), with Python's \<open>json.dumps\<close> and \<open>json.loads\<close> modelled
    for dicts of strings and integers; the round trip.
  \<^item> \<open>ChunkCli\<close>: the whole \<open>main\<close> of chunk.py (lines 114--140) as \<open>chunk_cli\<close>:
    the argparse defaults (80, 20, \<open>data/chunks.jsonl\<close>), the file written and the
    summary printed (\<open>str(Path)\<close>, the arrow bytes as stored, the example record's dict
    \<open>repr\<close>, the 300-character preview); the printed summary is proved exact for every run
    whose pipeline succeeds, and a run that raises has written and printed nothing.
  \<^item> \<open>Ingest\<close>: \<open>main\<close> of ingest_chroma.py: \<open>prepare\<close> and
    \<open>ingest_metadata\<close> (lines 53--66, \<open>KeyError\<close>, \<open>int()\<close>), the batching loop
    \<open>ingest_loop\<close> over \<open>range(0, total, batch)\<close> (lines 69--85): each record added once
    and in order, batched embedding equal to unbatched, progress, batch sizes 0 and below 0.
  \<^item> \<open>IngestCli\<close>: the whole \<open>main\<close> of ingest_chroma.py (lines 25--90) as
    \<open>ingest_cli\<close>: the argparse defaults, every printed line in order with the statements
    that raise, and the closing \<open>collection.count()\<close>, read from the documented contract of
    Chroma's \<open>add\<close> (an id the collection already holds is skipped) as
    \<open>collection_count\<close>; \<open>--batch_size 0\<close> fails only after the model is loaded and the
    database opened, a negative batch size reports success having added nothing.
  \<^item> \<open>Search\<close>: \<open>main\<close> of search_chroma.py (lines 11--62) as \<open>search_cli\<close>:
    the options (\<open>--model\<close> is never read), the missing collection, the query as a
    parameter, the citation line and the bounded preview.
  \<^item> \<open>Answer\<close>: answer_ollama.py: its import statements (lines 2--10), \<open>format_sources\<close>,
    \<open>main\<close> with every global name it reads (\<open>answer_main\<close>), the prompt with
    \<open>textwrap.dedent\<close>, \<open>call_ollama\<close> and the printed report. The script never answers:
    the import of \<open>Settingss\<close> raises \<open>ImportError\<close>, or, if the name exists, line 63
    raises \<open>NameError\<close> for \<open>Settings\<close>; the code after line 63 is modelled as written
    but unreachable. The three citation formats agree and \<open>dedent\<close> removes nothing.
  \<^item> This theory: the properties across components: totality of the chunking pipeline,
    provenance of the pages, and its failure for every PDF whose page yields two adjacent
    blank lines (the page map is then longer than the normalized lines), the ingestion of the
    chunk file and the collection count it prints, and the citation the user finally sees.

  \<^bold>\<open>Termination.\<close> No fuel is used. The chunking loop is proved to end for every input
  that passes the asserts, by induction on \<open>len(lines) - i\<close>, and to run forever without the
  asserts when \<open>overlap_lines \<ge> lines_per_chunk\<close>. The JSON decoder's recursions end by the
  length of the input; every other loop is a \<open>for\<close> loop, a \<open>fold\<close>.

  \<^bold>\<open>Not modelled.\<close> Reading and writing files, PDF text extraction (\<open>pypdf\<close>), the
  embedding model (a parameter \<open>model_encode\<close>), the Chroma client and its nearest-neighbour
  query (the query result is an input, \<open>collection.add\<close> calls are recorded), the
  \<open>ollama\<close> process (a parameter \<open>run\<close>), float formatting of distances (a parameter
  \<open>fmt4\<close>) and the parsing of \<open>argv\<close> (the parsed options are the input of
  \<open>chunk_cli\<close>) are I/O or third-party services. Characters are bytes:
  Python's non-ASCII whitespace, \<open>\uXXXX\<close> escapes above U+00FF and UTF-8 decoding are
  not modelled; JSON values other than strings and integers are outside the decoder's model.
\<close>

section \<open>Properties of the whole chunking pipeline\<close>

text \<open>Claim C3: for a .txt, .md or .pdf source (any letter case) and parameters that pass the asserts, the chunking pipeline of main terminates without raising: it returns a list of records.\<close>

theorem chunk_main_total:
  assumes "py_lower (path_suffix (src_path src)) \<in> set [''.txt'', ''.md'', ''.pdf'']"
    and "0 < lines_per_chunk" "0 \<le> overlap_lines" "overlap_lines < lines_per_chunk"
  shows "\<exists>rs. chunk_main src lines_per_chunk overlap_lines = Some (Inr rs)"
proof -
  obtain rr where "read_text_any src = Inr rr"
    using assms(1) by (auto simp: read_text_any_def Let_def)
  then show ?thesis using chunk_main_eq assms(2-4) by blast
qed

theorem chunk_main_total_witness:
  "py_lower (path_suffix ''notes/w.MD'') \<in> set [''.txt'', ''.md'', ''.pdf''] \<and>
   (\<exists>rs. chunk_main \<lparr>src_path = ''notes/w.MD'', file_text = ''x'', pdf_pages = []\<rparr> 3 1 = Some (Inr rs))"
proof -
  have s: "py_lower (path_suffix ''notes/w.MD'') \<in> set [''.txt'', ''.md'', ''.pdf'']"
    by (simp add: path_suffix_def path_name_def rfind_dot_def py_lower_def py_lower_char_def)
  show ?thesis
    using chunk_main_total [of "\<lparr>src_path = ''notes/w.MD'', file_text = ''x'', pdf_pages = []\<rparr>" 3 1] s
    by simp
qed

text \<open>Claim C4: every record the pipeline emits with page fields has start_page <= end_page (the page map of a PDF is non-decreasing).\<close>

theorem chunk_main_pages_ordered:
  assumes "chunk_main src lines_per_chunk overlap_lines = Some (Inr rs)" and "r \<in> set rs"
    and "dict_get r ''start_page'' = Some (JInt sp)" and "dict_get r ''end_page'' = Some (JInt ep)"
  shows "sp \<le> ep"
proof -
  from assms(1) obtain rr where rr: "read_text_any src = Inr rr" and w: "0 < lines_per_chunk"
    and rs: "rs = map (\<lambda>(k, c). record_spec (src_path src) (read_pages rr) k c)
                 (List.enumerate 0 (chunks_spec (read_lines rr) (nat lines_per_chunk)
                                                (nat (lines_per_chunk - overlap_lines))))"
    by (rule chunk_main_Inr)
  from assms(2) obtain k c where c: "c \<in> set (chunks_spec (read_lines rr) (nat lines_per_chunk)
                                                (nat (lines_per_chunk - overlap_lines)))"
    and r: "r = record_spec (src_path src) (read_pages rr) k c"
    unfolding rs by (rule record_spec_in)
  obtain a b t where abt: "c = (a, b, t)" by (cases c) auto
  from chunks_spec_valid [OF _ c] w have ab: "1 \<le> a" "a \<le> b" by (auto simp: abt valid_chunk_def)
  show ?thesis
  proof (cases rr)
    case (Plain tx)
    with assms(3) r show ?thesis by (simp add: dict_get_record_spec read_pages_def page_fields_def)
  next
    case (Paged tx pl)
    have sorted: "sorted pl"
      using read_text_any_pdf_lines [OF rr [unfolded Paged]]
      by (simp add: pdf_line_pages_def sorted_pdf_pages)
    from assms(3,4) r Paged have cover: "b \<le> int (length pl)"
      and sp: "sp = pl ! nat (a - 1)" and ep: "ep = pl ! nat (b - 1)"
      by (auto simp: dict_get_record_spec read_pages_def page_fields_def abt split: if_splits)
    have "nat (a - 1) \<le> nat (b - 1)" "nat (b - 1) < length pl" using ab cover by auto
    with sorted show ?thesis by (simp add: sp ep sorted_nth_mono)
  qed
qed

theorem chunk_main_pages_ordered_witness:
  "chunk_main \<lparr>src_path = ''war.pdf'', file_text = [], pdf_pages = [Some ''a'', Some ''b'']\<rparr> 3 0 = Some (Inr [[(''id'', JStr ''war__chunk_00000''), (''source_file'', JStr ''war.pdf''), (''start_line'', JInt 1), (''end_line'', JInt 3), (''text'', JStr ''[[PAGE 1]]\<newline>a''), (''start_page'', JInt 1), (''end_page'', JInt 1)], [(''id'', JStr ''war__chunk_00001''), (''source_file'', JStr ''war.pdf''), (''start_line'', JInt 4), (''end_line'', JInt 6), (''text'', JStr ''[[PAGE 2]]\<newline>b''), (''start_page'', JInt 2), (''end_page'', JInt 2)]]) \<and>
   dict_get [(''id'', JStr ''war__chunk_00001''), (''source_file'', JStr ''war.pdf''), (''start_line'', JInt 4), (''end_line'', JInt 6), (''text'', JStr ''[[PAGE 2]]\<newline>b''), (''start_page'', JInt 2), (''end_page'', JInt 2)] ''start_page'' = Some (JInt 2) \<and> dict_get [(''id'', JStr ''war__chunk_00001''), (''source_file'', JStr ''war.pdf''), (''start_line'', JInt 4), (''end_line'', JInt 6), (''text'', JStr ''[[PAGE 2]]\<newline>b''), (''start_page'', JInt 2), (''end_page'', JInt 2)] ''end_page'' = Some (JInt 2) \<and>
   (2::int) \<le> 2"
  using chunk_main_pages_ordered [OF chunk_main_example_ok, of "[(''id'', JStr ''war__chunk_00001''), (''source_file'', JStr ''war.pdf''), (''start_line'', JInt 4), (''end_line'', JInt 6), (''text'', JStr ''[[PAGE 2]]\<newline>b''), (''start_page'', JInt 2), (''end_page'', JInt 2)]" 2 2] chunk_main_example_ok
  by (simp add: dict_get_def)

text \<open>Claim C2: for a PDF none of whose pages produces two adjacent blank lines, every record's start_page and end_page are the pages of the lines at start_line and end_line, and the normalized line at start_line is that reference line.\<close>

theorem chunk_main_page_provenance:
  assumes "read_text_any src = Inr (Paged text pol)" and "pdf_pages src \<noteq> []"
    and "no_two_blank (map fst (pdf_line_pages (pdf_pages src)))"
    and "chunk_main src lines_per_chunk overlap_lines = Some (Inr rs)" and "r \<in> set rs"
  shows "\<exists>a b. dict_get r ''start_line'' = Some (JInt a) \<and> dict_get r ''end_line'' = Some (JInt b) \<and>
           dict_get r ''start_page'' = Some (JInt (snd (pdf_line_pages (pdf_pages src) ! nat (a - 1)))) \<and>
           dict_get r ''end_page'' = Some (JInt (snd (pdf_line_pages (pdf_pages src) ! nat (b - 1)))) \<and>
           normalize_lines text ! nat (a - 1) = tidy_line (fst (pdf_line_pages (pdf_pages src) ! nat (a - 1)))"
proof -
  let ?LP = "pdf_line_pages (pdf_pages src)"
  from assms(4) obtain rr where rr: "read_text_any src = Inr rr" and w: "0 < lines_per_chunk"
    and rs: "rs = map (\<lambda>(k, c). record_spec (src_path src) (read_pages rr) k c)
                 (List.enumerate 0 (chunks_spec (read_lines rr) (nat lines_per_chunk)
                                                (nat (lines_per_chunk - overlap_lines))))"
    by (rule chunk_main_Inr)
  have rr': "rr = Paged text pol" using rr assms(1) by simp
  have lines: "read_lines rr = map tidy_line (map fst ?LP)"
    using pdf_lines_normalized [OF assms(1-3)] by (simp add: rr' read_lines_def)
  have pol: "pol = map snd ?LP" using read_text_any_pdf_lines [OF assms(1)] by simp
  from assms(5) obtain k c where c: "c \<in> set (chunks_spec (read_lines rr) (nat lines_per_chunk)
                                                (nat (lines_per_chunk - overlap_lines)))"
    and r: "r = record_spec (src_path src) (read_pages rr) k c"
    unfolding rs by (rule record_spec_in)
  obtain a b t where abt: "c = (a, b, t)" by (cases c) auto
  from chunks_spec_valid [OF _ c] w have ab: "1 \<le> a" "a \<le> b" "b \<le> int (length ?LP)"
    by (auto simp: abt valid_chunk_def lines)
  then have idx: "nat (a - 1) < length ?LP" "nat (b - 1) < length ?LP" by auto
  have "dict_get r ''start_page'' = Some (JInt (snd (?LP ! nat (a - 1)))) \<and>
        dict_get r ''end_page'' = Some (JInt (snd (?LP ! nat (b - 1))))"
    using ab idx by (simp add: r rr' abt dict_get_record_spec read_pages_def page_fields_def pol)
  moreover have "normalize_lines text ! nat (a - 1) = tidy_line (fst (?LP ! nat (a - 1)))"
    using idx pdf_lines_normalized [OF assms(1-3)] by simp
  ultimately show ?thesis by (simp add: r abt dict_get_record_spec)
qed

theorem chunk_main_page_provenance_witness:
  "read_text_any \<lparr>src_path = ''war.pdf'', file_text = [], pdf_pages = [Some ''a'', Some ''b'']\<rparr> = Inr (Paged ''[[PAGE 1]]\<newline>a\<newline>\<newline>[[PAGE 2]]\<newline>b\<newline>\<newline>'' [1, 1, 1, 2, 2, 2]) \<and>
   [Some ''a'', Some ''b''] \<noteq> [] \<and>
   no_two_blank (map fst (pdf_line_pages [Some ''a'', Some ''b''])) \<and>
   chunk_main \<lparr>src_path = ''war.pdf'', file_text = [], pdf_pages = [Some ''a'', Some ''b'']\<rparr> 3 0 = Some (Inr [[(''id'', JStr ''war__chunk_00000''), (''source_file'', JStr ''war.pdf''), (''start_line'', JInt 1), (''end_line'', JInt 3), (''text'', JStr ''[[PAGE 1]]\<newline>a''), (''start_page'', JInt 1), (''end_page'', JInt 1)], [(''id'', JStr ''war__chunk_00001''), (''source_file'', JStr ''war.pdf''), (''start_line'', JInt 4), (''end_line'', JInt 6), (''text'', JStr ''[[PAGE 2]]\<newline>b''), (''start_page'', JInt 2), (''end_page'', JInt 2)]]) \<and>
   dict_get [(''id'', JStr ''war__chunk_00001''), (''source_file'', JStr ''war.pdf''), (''start_line'', JInt 4), (''end_line'', JInt 6), (''text'', JStr ''[[PAGE 2]]\<newline>b''), (''start_page'', JInt 2), (''end_page'', JInt 2)] ''start_page'' = Some (JInt (snd (pdf_line_pages [Some ''a'', Some ''b''] ! nat (4 - 1)))) \<and>
   normalize_lines ''[[PAGE 1]]\<newline>a\<newline>\<newline>[[PAGE 2]]\<newline>b\<newline>\<newline>'' ! nat (4 - 1) = tidy_line (fst (pdf_line_pages [Some ''a'', Some ''b''] ! nat (4 - 1)))"
proof -
  have ntb: "no_two_blank (map fst (pdf_line_pages [Some ''a'', Some ''b'']))"
    by (simp add: pdf_line_pages_example_ok is_blank_def is_space_def py_whitespace_def)
  have "\<exists>a b. dict_get [(''id'', JStr ''war__chunk_00001''), (''source_file'', JStr ''war.pdf''), (''start_line'', JInt 4), (''end_line'', JInt 6), (''text'', JStr ''[[PAGE 2]]\<newline>b''), (''start_page'', JInt 2), (''end_page'', JInt 2)] ''start_line'' = Some (JInt a) \<and> dict_get [(''id'', JStr ''war__chunk_00001''), (''source_file'', JStr ''war.pdf''), (''start_line'', JInt 4), (''end_line'', JInt 6), (''text'', JStr ''[[PAGE 2]]\<newline>b''), (''start_page'', JInt 2), (''end_page'', JInt 2)] ''end_line'' = Some (JInt b) \<and>
           dict_get [(''id'', JStr ''war__chunk_00001''), (''source_file'', JStr ''war.pdf''), (''start_line'', JInt 4), (''end_line'', JInt 6), (''text'', JStr ''[[PAGE 2]]\<newline>b''), (''start_page'', JInt 2), (''end_page'', JInt 2)] ''start_page'' = Some (JInt (snd (pdf_line_pages [Some ''a'', Some ''b''] ! nat (a - 1)))) \<and>
           dict_get [(''id'', JStr ''war__chunk_00001''), (''source_file'', JStr ''war.pdf''), (''start_line'', JInt 4), (''end_line'', JInt 6), (''text'', JStr ''[[PAGE 2]]\<newline>b''), (''start_page'', JInt 2), (''end_page'', JInt 2)] ''end_page'' = Some (JInt (snd (pdf_line_pages [Some ''a'', Some ''b''] ! nat (b - 1)))) \<and>
           normalize_lines ''[[PAGE 1]]\<newline>a\<newline>\<newline>[[PAGE 2]]\<newline>b\<newline>\<newline>'' ! nat (a - 1) = tidy_line (fst (pdf_line_pages [Some ''a'', Some ''b''] ! nat (a - 1)))"
    using chunk_main_page_provenance [OF read_example_ok _ _ chunk_main_example_ok, of "[(''id'', JStr ''war__chunk_00001''), (''source_file'', JStr ''war.pdf''), (''start_line'', JInt 4), (''end_line'', JInt 6), (''text'', JStr ''[[PAGE 2]]\<newline>b''), (''start_page'', JInt 2), (''end_page'', JInt 2)]"] ntb by simp
  then show ?thesis using read_example_ok chunk_main_example_ok ntb by (simp add: dict_get_def)
qed

text \<open>Claim C1: for every PDF, the page map read_text_any returns is never shorter than the normalized lines main chunks, and it has their length exactly when no page yields two adjacent blank lines; otherwise normalize_lines collapses the run, the map is strictly longer, and build_records reads every later line's page at a shifted index (spec 8 requires len(page_of_line) to equal the number of normalized lines).\<close>

theorem pdf_page_map_length:
  assumes "read_text_any src = Inr (Paged text pol)" and "pdf_pages src \<noteq> []"
  shows "length (normalize_lines text) \<le> length pol \<and>
         (length (normalize_lines text) = length pol \<longleftrightarrow> no_two_blank (map fst (pdf_line_pages (pdf_pages src))))"
proof -
  let ?L = "map fst (pdf_line_pages (pdf_pages src))"
  have n: "normalize_lines text = collapse False ?L" by (rule pdf_lines_collapse [OF assms])
  have p: "length pol = length ?L" using read_text_any_pdf_lines [OF assms(1)] by simp
  show ?thesis
  proof (cases "no_two_blank ?L")
    case True
    then show ?thesis using n p by (simp add: collapse_map_tidy)
  next
    case False
    then have "length (collapse False ?L) < length ?L" by (rule collapse_length_less)
    then show ?thesis using n p False by simp
  qed
qed

theorem pdf_page_map_length_witness:
  "read_text_any \<lparr>src_path = ''war.pdf'', file_text = [], pdf_pages = [Some ''a\<newline>\<newline>\<newline>'', Some ''b\<newline>c'']\<rparr> =
     Inr (Paged ''[[PAGE 1]]\<newline>a\<newline>\<newline>\<newline>\<newline>\<newline>[[PAGE 2]]\<newline>b\<newline>c\<newline>\<newline>'' [1, 1, 1, 1, 1, 1, 2, 2, 2, 2]) \<and>
   [Some ''a\<newline>\<newline>\<newline>'', Some ''b\<newline>c''] \<noteq> [] \<and>
   length (normalize_lines ''[[PAGE 1]]\<newline>a\<newline>\<newline>\<newline>\<newline>\<newline>[[PAGE 2]]\<newline>b\<newline>c\<newline>\<newline>'') = 7 \<and>
   \<not> no_two_blank (map fst (pdf_line_pages [Some ''a\<newline>\<newline>\<newline>'', Some ''b\<newline>c''])) \<and>
   chunk_main \<lparr>src_path = ''war.pdf'', file_text = [], pdf_pages = [Some ''a\<newline>\<newline>\<newline>'', Some ''b\<newline>c'']\<rparr> 3 0 =
   Some (Inr [[(''id'', JStr ''war__chunk_00000''), (''source_file'', JStr ''war.pdf''),
               (''start_line'', JInt 1), (''end_line'', JInt 3), (''text'', JStr ''[[PAGE 1]]\<newline>a''),
               (''start_page'', JInt 1), (''end_page'', JInt 1)],
              [(''id'', JStr ''war__chunk_00001''), (''source_file'', JStr ''war.pdf''),
               (''start_line'', JInt 4), (''end_line'', JInt 6), (''text'', JStr ''[[PAGE 2]]\<newline>b\<newline>c''),
               (''start_page'', JInt 1), (''end_page'', JInt 1)]])"
  using pdf_page_map_length [OF read_example_shift] read_example_shift chunk_main_example_shift
  by (simp add: normalize_example_shift)

lemma chunk_file_stages:
  assumes "chunk_main src lines_per_chunk overlap_lines = Some (Inr rs)" and "0 < batch_size"
  obtains st where "load_jsonl (write_jsonl rs) = Inr rs"
    and "prepare rs = Inr (map (\<lambda>r. the (dict_get r ''id'')) rs, map (\<lambda>r. the (dict_get r ''text'')) rs,
                           map (filter (\<lambda>(key, v). key \<noteq> ''id'' \<and> key \<noteq> ''text'')) rs)"
    and "ingest_loop E (map (\<lambda>r. the (dict_get r ''id'')) rs) (map (\<lambda>r. the (dict_get r ''text'')) rs)
           (map (filter (\<lambda>(key, v). key \<noteq> ''id'' \<and> key \<noteq> ''text'')) rs) batch_size = Inr st"
    and "concat (map add_ids (add_calls st)) = map (\<lambda>r. the (dict_get r ''id'')) rs"
    and "concat (map add_docs (add_calls st)) = map (\<lambda>r. the (dict_get r ''text'')) rs"
    and "concat (map add_metas (add_calls st)) = map (filter (\<lambda>(key, v). key \<noteq> ''id'' \<and> key \<noteq> ''text'')) rs"
proof -
  obtain pol where pol: "\<forall>r \<in> set rs. \<exists>k c. r = record_spec (src_path src) pol k c"
    using chunk_main_record_spec [OF assms(1)] by blast
  have load: "load_jsonl (write_jsonl rs) = Inr rs"
    using pol by (intro load_write_roundtrip) (auto simp: record_spec_distinct)
  let ?ids = "map (\<lambda>r. the (dict_get r ''id'')) rs" and ?texts = "map (\<lambda>r. the (dict_get r ''text'')) rs"
    and ?metas = "map (filter (\<lambda>(key, v). key \<noteq> ''id'' \<and> key \<noteq> ''text'')) rs"
  have prep: "prepare rs = Inr (?ids, ?texts, ?metas)" using pol by (intro prepare_records) blast
  obtain b where b: "batch_size = int b" "0 < b" using pos_batch [OF assms(2)] by blast
  obtain st where st: "ingest_loop E ?ids ?texts ?metas batch_size = Inr st"
    using ingest_loop_calls [OF b(2)] b(1) by blast
  moreover have "concat (map add_ids (add_calls st)) = ?ids \<and> concat (map add_docs (add_calls st)) = ?texts \<and>
                 concat (map add_metas (add_calls st)) = ?metas"
    using ingest_loop_concat [OF assms(2) _ _ st] by simp
  ultimately show ?thesis using that load prep by blast
qed

text \<open>Claim C5: the chunks file of chunk.py, ingested by ingest_chroma.py with a positive batch size, is loaded and prepared without an exception, and the collection.add calls receive, in order, exactly the id and the text of every record and, as metadata, the record without its id and text (source_file, start_line, end_line and, for a PDF, start_page and end_page).\<close>

theorem chunk_main_ingest:
  assumes "chunk_main src lines_per_chunk overlap_lines = Some (Inr rs)" and "0 < batch_size"
  shows "\<exists>st. ingest_main E (write_jsonl rs) batch_size = Inr st \<and>
           concat (map add_ids (add_calls st)) = map (\<lambda>r. the (dict_get r ''id'')) rs \<and>
           concat (map add_docs (add_calls st)) = map (\<lambda>r. the (dict_get r ''text'')) rs \<and>
           concat (map add_metas (add_calls st)) = map (filter (\<lambda>(key, v). key \<noteq> ''id'' \<and> key \<noteq> ''text'')) rs"
proof -
  obtain st where "load_jsonl (write_jsonl rs) = Inr rs"
    and "prepare rs = Inr (map (\<lambda>r. the (dict_get r ''id'')) rs, map (\<lambda>r. the (dict_get r ''text'')) rs,
                           map (filter (\<lambda>(key, v). key \<noteq> ''id'' \<and> key \<noteq> ''text'')) rs)"
    and "ingest_loop E (map (\<lambda>r. the (dict_get r ''id'')) rs) (map (\<lambda>r. the (dict_get r ''text'')) rs)
           (map (filter (\<lambda>(key, v). key \<noteq> ''id'' \<and> key \<noteq> ''text'')) rs) batch_size = Inr st"
    and calls: "concat (map add_ids (add_calls st)) = map (\<lambda>r. the (dict_get r ''id'')) rs"
      "concat (map add_docs (add_calls st)) = map (\<lambda>r. the (dict_get r ''text'')) rs"
      "concat (map add_metas (add_calls st)) = map (filter (\<lambda>(key, v). key \<noteq> ''id'' \<and> key \<noteq> ''text'')) rs"
    by (rule chunk_file_stages [OF assms])
  then have "ingest_main E (write_jsonl rs) batch_size = Inr st" by (simp add: ingest_main_def)
  with calls show ?thesis by blast
qed

theorem chunk_main_ingest_witness:
  "\<exists>rs. chunk_main \<lparr>src_path = ''war.pdf'', file_text = [], pdf_pages = [Some ''a'', Some ''b'']\<rparr> 3 0 = Some (Inr rs) \<and>
        0 < (1::int) \<and>
        (\<exists>st. ingest_main (map (\<lambda>_. (0::nat))) (write_jsonl rs) 1 = Inr st \<and>
              concat (map add_ids (add_calls st)) = map (\<lambda>r. the (dict_get r ''id'')) rs \<and>
              concat (map add_docs (add_calls st)) = map (\<lambda>r. the (dict_get r ''text'')) rs \<and>
              concat (map add_metas (add_calls st)) =
                map (filter (\<lambda>(key, v). key \<noteq> ''id'' \<and> key \<noteq> ''text'')) rs)"
  using chunk_main_ingest [OF chunk_main_example_ok zero_less_one, of "map (\<lambda>_. (0::nat))"]
        chunk_main_example_ok zero_less_one
  by blast


text \<open>Claim C16: ingesting the chunks file of chunk.py with a positive batch size into a collection that holds none but the file's own ids (a fresh collection, or one of an earlier run on the same file) prints the loading lines with the number of records, the progress, and finally a collection count equal to the number of records: every chunk is stored once and none is lost to an id collision.\<close>

theorem chunk_main_ingest_count:
  assumes "chunk_main src lines_per_chunk overlap_lines = Some (Inr rs)" and "0 < ingest_batch_size a"
    and "set existing \<subseteq> set (map (\<lambda>r. the (dict_get r ''id'')) rs)"
  shows "\<exists>progress. ingest_cli E a (write_jsonl rs) existing =
           ([''Loading chunks from: '' @ py_path_str (arg_chunks a),
             ''Loaded '' @ nat_str (length rs) @ '' chunks'',
             ''Loading embedding model: '' @ ingest_model_name a,
             ''Opening Chroma DB at: '' @ py_path_str (arg_db_dir a)] @ progress @
            [done_line, ''Collection: '' @ ingest_collection a, ''DB dir: '' @ py_path_str (arg_db_dir a),
             ''Count in collection: '' @ nat_str (length rs)], Inr ())"
proof -
  obtain st where l: "load_jsonl (write_jsonl rs) = Inr rs"
    and p: "prepare rs = Inr (map (\<lambda>r. the (dict_get r ''id'')) rs, map (\<lambda>r. the (dict_get r ''text'')) rs,
                           map (filter (\<lambda>(key, v). key \<noteq> ''id'' \<and> key \<noteq> ''text'')) rs)"
    and lp: "ingest_loop E (map (\<lambda>r. the (dict_get r ''id'')) rs) (map (\<lambda>r. the (dict_get r ''text'')) rs)
           (map (filter (\<lambda>(key, v). key \<noteq> ''id'' \<and> key \<noteq> ''text'')) rs) (ingest_batch_size a) = Inr st"
    and ids: "concat (map add_ids (add_calls st)) = map (\<lambda>r. the (dict_get r ''id'')) rs"
    by (rule chunk_file_stages [OF assms(1,2)])
  from assms(1) obtain rr where "read_text_any src = Inr rr"
    by (auto simp: chunk_main_def split: sum.splits)
  then obtain chunks where "build_records (src_path src) chunks (read_pages rr) = Inr rs"
    using assms(1) by (metis chunk_main_stages)
  then have "distinct (map (\<lambda>r. the (dict_get r ''id'')) rs)" by (rule build_records_id_values_distinct)
  then have "collection_count existing (add_calls st) = length rs"
    using collection_count_subset [OF _ assms(3) ids] by simp
  then show ?thesis by (simp add: ingest_cli_eq [OF l p lp])
qed

theorem chunk_main_ingest_count_witness:
  "chunk_main \<lparr>src_path = ''war.pdf'', file_text = [], pdf_pages = [Some ''a'', Some ''b'']\<rparr> 3 0 =
     Some (Inr [[(''id'', JStr ''war__chunk_00000''), (''source_file'', JStr ''war.pdf''), (''start_line'', JInt 1), (''end_line'', JInt 3), (''text'', JStr ''[[PAGE 1]]\<newline>a''), (''start_page'', JInt 1), (''end_page'', JInt 1)],
                [(''id'', JStr ''war__chunk_00001''), (''source_file'', JStr ''war.pdf''), (''start_line'', JInt 4), (''end_line'', JInt 6), (''text'', JStr ''[[PAGE 2]]\<newline>b''), (''start_page'', JInt 2), (''end_page'', JInt 2)]]) \<and>
   0 < ingest_batch_size \<lparr>arg_chunks = ''data/chunks.jsonl'', arg_db_dir = ''db'', arg_collection = None, arg_model = None, arg_batch_size = None\<rparr> \<and>
   (\<exists>progress. ingest_cli (map (\<lambda>_. (0::nat)))
       \<lparr>arg_chunks = ''data/chunks.jsonl'', arg_db_dir = ''db'', arg_collection = None, arg_model = None, arg_batch_size = None\<rparr>
       (write_jsonl [[(''id'', JStr ''war__chunk_00000''), (''source_file'', JStr ''war.pdf''), (''start_line'', JInt 1), (''end_line'', JInt 3), (''text'', JStr ''[[PAGE 1]]\<newline>a''), (''start_page'', JInt 1), (''end_page'', JInt 1)],
                [(''id'', JStr ''war__chunk_00001''), (''source_file'', JStr ''war.pdf''), (''start_line'', JInt 4), (''end_line'', JInt 6), (''text'', JStr ''[[PAGE 2]]\<newline>b''), (''start_page'', JInt 2), (''end_page'', JInt 2)]])
       [JStr ''war__chunk_00001''] =
     ([''Loading chunks from: data/chunks.jsonl'', ''Loaded 2 chunks'',
       ''Loading embedding model: sentence-transformers/all-MiniLM-L6-v2'', ''Opening Chroma DB at: db''] @ progress @
      [done_line, ''Collection: art_of_war'', ''DB dir: db'', ''Count in collection: 2''], Inr ()))"
proof -
  let ?a = "\<lparr>arg_chunks = ''data/chunks.jsonl'', arg_db_dir = ''db'', arg_collection = None, arg_model = None, arg_batch_size = None\<rparr>"
  have b: "0 < ingest_batch_size ?a" by (simp add: ingest_batch_size_def)
  have e: "set [JStr ''war__chunk_00001''] \<subseteq> set (map (\<lambda>r. the (dict_get r ''id''))
     [[(''id'', JStr ''war__chunk_00000''), (''source_file'', JStr ''war.pdf''), (''start_line'', JInt 1), (''end_line'', JInt 3), (''text'', JStr ''[[PAGE 1]]\<newline>a''), (''start_page'', JInt 1), (''end_page'', JInt 1)],
      [(''id'', JStr ''war__chunk_00001''), (''source_file'', JStr ''war.pdf''), (''start_line'', JInt 4), (''end_line'', JInt 6), (''text'', JStr ''[[PAGE 2]]\<newline>b''), (''start_page'', JInt 2), (''end_page'', JInt 2)]])"
    by (simp add: dict_get_def)
  show ?thesis
    using chunk_main_ingest_count [OF chunk_main_example_ok b e, of "map (\<lambda>_. (0::nat))"] chunk_main_example_ok b
    by (simp add: py_path_str_def ingest_model_name_def ingest_collection_def py_simps)
qed

text \<open>Claim C6: the citation search_chroma prints for a chunk record of the pipeline, from the metadata ingest_chroma stores for it, names the record's source file, its line range and, when the record has page fields, exactly the record's start_page and end_page (so a wrong page in a record reaches the user unchanged).\<close>

theorem chunk_main_citation:
  assumes "chunk_main src lines_per_chunk overlap_lines = Some (Inr rs)" and "r \<in> set rs"
  shows "\<exists>a b. dict_get r ''start_line'' = Some (JInt a) \<and> dict_get r ''end_line'' = Some (JInt b) \<and>
           search_citation (filter (\<lambda>(key, v). key \<noteq> ''id'' \<and> key \<noteq> ''text'') r) =
             ''    source='' @ path_name (src_path src) @
             (case (dict_get r ''start_page'', dict_get r ''end_page'') of
                (Some sp, Some ep) \<Rightarrow> '' pages='' @ py_str sp @ ''-'' @ py_str ep @
                                       '' lines='' @ int_str a @ ''-'' @ int_str b
              | _ \<Rightarrow> '' lines='' @ int_str a @ ''-'' @ int_str b)"
proof -
  obtain pol k c where r: "r = record_spec (src_path src) pol k c"
    using chunk_main_record_spec [OF assms(1)] assms(2) by blast
  obtain a b t where c: "c = (a, b, t)" by (cases c) auto
  show ?thesis
    by (auto simp: r c record_spec_def base_record_def page_fields_def dict_get_def search_citation_def
                   py_get_default_def Let_def split: option.splits)
qed

theorem chunk_main_citation_witness:
  "\<exists>rs. chunk_main \<lparr>src_path = ''war.pdf'', file_text = [], pdf_pages = [Some ''a\<newline>\<newline>\<newline>'', Some ''b\<newline>c'']\<rparr> 3 0 =
          Some (Inr rs) \<and> [(''id'', JStr ''war__chunk_00001''), (''source_file'', JStr ''war.pdf''), (''start_line'', JInt 4), (''end_line'', JInt 6), (''text'', JStr ''[[PAGE 2]]\<newline>b\<newline>c''), (''start_page'', JInt 1), (''end_page'', JInt 1)] \<in> set rs \<and>
        (\<exists>a b. dict_get [(''id'', JStr ''war__chunk_00001''), (''source_file'', JStr ''war.pdf''), (''start_line'', JInt 4), (''end_line'', JInt 6), (''text'', JStr ''[[PAGE 2]]\<newline>b\<newline>c''), (''start_page'', JInt 1), (''end_page'', JInt 1)] ''start_line'' = Some (JInt a) \<and> dict_get [(''id'', JStr ''war__chunk_00001''), (''source_file'', JStr ''war.pdf''), (''start_line'', JInt 4), (''end_line'', JInt 6), (''text'', JStr ''[[PAGE 2]]\<newline>b\<newline>c''), (''start_page'', JInt 1), (''end_page'', JInt 1)] ''end_line'' = Some (JInt b) \<and>
           search_citation (filter (\<lambda>(key, v). key \<noteq> ''id'' \<and> key \<noteq> ''text'') [(''id'', JStr ''war__chunk_00001''), (''source_file'', JStr ''war.pdf''), (''start_line'', JInt 4), (''end_line'', JInt 6), (''text'', JStr ''[[PAGE 2]]\<newline>b\<newline>c''), (''start_page'', JInt 1), (''end_page'', JInt 1)]) =
             ''    source='' @ path_name ''war.pdf'' @
             (case (dict_get [(''id'', JStr ''war__chunk_00001''), (''source_file'', JStr ''war.pdf''), (''start_line'', JInt 4), (''end_line'', JInt 6), (''text'', JStr ''[[PAGE 2]]\<newline>b\<newline>c''), (''start_page'', JInt 1), (''end_page'', JInt 1)] ''start_page'', dict_get [(''id'', JStr ''war__chunk_00001''), (''source_file'', JStr ''war.pdf''), (''start_line'', JInt 4), (''end_line'', JInt 6), (''text'', JStr ''[[PAGE 2]]\<newline>b\<newline>c''), (''start_page'', JInt 1), (''end_page'', JInt 1)] ''end_page'') of
                (Some sp, Some ep) \<Rightarrow> '' pages='' @ py_str sp @ ''-'' @ py_str ep @
                                       '' lines='' @ int_str a @ ''-'' @ int_str b
              | _ \<Rightarrow> '' lines='' @ int_str a @ ''-'' @ int_str b)) \<and>
        search_citation (filter (\<lambda>(key, v). key \<noteq> ''id'' \<and> key \<noteq> ''text'') [(''id'', JStr ''war__chunk_00001''), (''source_file'', JStr ''war.pdf''), (''start_line'', JInt 4), (''end_line'', JInt 6), (''text'', JStr ''[[PAGE 2]]\<newline>b\<newline>c''), (''start_page'', JInt 1), (''end_page'', JInt 1)]) =
          ''    source=war.pdf pages=1-1 lines=4-6''"
proof -
  have cite: "search_citation (filter (\<lambda>(key, v). key \<noteq> ''id'' \<and> key \<noteq> ''text'') [(''id'', JStr ''war__chunk_00001''), (''source_file'', JStr ''war.pdf''), (''start_line'', JInt 4), (''end_line'', JInt 6), (''text'', JStr ''[[PAGE 2]]\<newline>b\<newline>c''), (''start_page'', JInt 1), (''end_page'', JInt 1)]) =
              ''    source=war.pdf pages=1-1 lines=4-6''"
    by (simp add: search_citation_def Let_def py_simps)
  show ?thesis
    using chunk_main_citation [OF chunk_main_example_shift, of "[(''id'', JStr ''war__chunk_00001''), (''source_file'', JStr ''war.pdf''), (''start_line'', JInt 4), (''end_line'', JInt 6), (''text'', JStr ''[[PAGE 2]]\<newline>b\<newline>c''), (''start_page'', JInt 1), (''end_page'', JInt 1)]"] chunk_main_example_shift cite
    by auto
qed

end
